(* ===== verification/Prelude.thy ===== *)
theory Prelude
  imports Complex_Main "HOL-Library.Multiset"
begin

text \<open>
  Shared vocabulary of the development: the named collections the component theories feed,
  the exception values of the program, and generic facts on lists, maps and options.
\<close>

named_theorems async_simps \<open>evaluation of asynchronous programs\<close>
named_theorems guar_rules \<open>introduction rules for the guarantee judgement\<close>
named_theorems ref_simps \<open>unfolding of the reference services used by witnesses\<close>

section \<open>Exceptions\<close>

text \<open>
  The NestJS exception classes the source throws, with their message, and
  \<open>RaisedError\<close> for an \<open>Error\<close> that a third-party client rejects with. The status codes are
  the ones the classes carry.
\<close>

datatype exn =
    BadRequestException string
  | UnauthorizedException string
  | ForbiddenException string
  | NotFoundException string
  | ConflictException string
  | HttpException string nat
  | RaisedError string

text \<open>\<open>error.message\<close>.\<close>

fun message :: "exn \<Rightarrow> string" where
  "message (BadRequestException m) = m"
| "message (UnauthorizedException m) = m"
| "message (ForbiddenException m) = m"
| "message (NotFoundException m) = m"
| "message (ConflictException m) = m"
| "message (HttpException m _) = m"
| "message (RaisedError m) = m"

section \<open>Lists, maps and options\<close>

lemma sum_list_map_filter_split:
  "sum_list (map f (filter P xs)) + sum_list (map f (filter (\<lambda>x. \<not> P x) xs)) = sum_list (map f xs)"
  for f :: "'a \<Rightarrow> 'b::comm_monoid_add"
  by (induction xs) (auto simp: algebra_simps)

lemma map_upd_eq_Some: "(m(k \<mapsto> v)) j = Some w \<longleftrightarrow> (if j = k then w = v else m j = Some w)"
  by auto

lemma ex_Suc_conv: "(\<exists>n. P n) \<longleftrightarrow> P 0 \<or> (\<exists>n. P (Suc n))"
  by (metis not0_implies_Suc)

end
