(* ===== verification/JsNumber.thy ===== *)
theory JsNumber
  imports Prelude "HOL-Library.Log_Nat"
begin

text \<open>
  ECMAScript numbers. A finite Number is a binary64 value, represented by the rational it
  denotes; an arithmetic operation is the exact operation followed by rounding to 53
  significant bits, ties to even (\<open>fl\<close>). Subnormals are not represented and the sign of zero
  is not kept: no computation of the program reaches magnitudes below \<open>2 powi -1022\<close> or
  inspects the sign of a zero.
\<close>

section \<open>Rounding to binary64\<close>

definition round_even :: "rat \<Rightarrow> int" where
  "round_even y = (let f = \<lfloor>y\<rfloor>; d = y - of_int f in
     if d < 1/2 then f else if 1/2 < d then f + 1 else if even f then f else f + 1)"

text \<open>\<open>expo x\<close> is the binary exponent of \<open>x\<close>: the floor of the logarithm of its magnitude.\<close>

definition expo :: "rat \<Rightarrow> int" where
  "expo x = (let (a, b) = quotient_of \<bar>x\<bar>; g = bitlen a - bitlen b in
     if \<bar>x\<bar> < 2 powi g then g - 1 else g)"

definition fl :: "rat \<Rightarrow> rat" where
  "fl x = (if x = 0 then 0
     else let e = expo x - 52 in of_int (round_even (x / 2 powi e)) * 2 powi e)"

text \<open>Evaluation with integer powers of two.\<close>

lemma powi_of_int: "(2 :: rat) powi e = (if 0 \<le> e then of_int (2 ^ nat e) else 1 / of_int (2 ^ nat (- e)))"
  by (simp add: power_int_def inverse_eq_divide power_one_over)

lemma fl_code [code]:
  "fl x = (if x = 0 then 0
     else let e = expo x - 52 in
       if 0 \<le> e then of_int (round_even (x / of_int (2 ^ nat e))) * of_int (2 ^ nat e)
       else of_int (round_even (x * of_int (2 ^ nat (- e)))) / of_int (2 ^ nat (- e)))"
  by (simp add: fl_def Let_def powi_of_int)

lemma expo_code [code]:
  "expo x = (let (a, b) = quotient_of \<bar>x\<bar>; g = bitlen a - bitlen b in
     if (if 0 \<le> g then \<bar>x\<bar> < of_int (2 ^ nat g) else \<bar>x\<bar> * of_int (2 ^ nat (- g)) < 1) then g - 1 else g)"
  by (simp add: expo_def Let_def powi_of_int split_beta pos_less_divide_eq)

lemma round_even_error: "\<bar>of_int (round_even y) - y\<bar> \<le> 1/2"
  unfolding round_even_def Let_def by (auto simp: abs_if) linarith+

lemma round_even_of_int [simp]: "round_even (of_int n) = n"
  by (simp add: round_even_def)

lemma expo_bounds:
  assumes "x \<noteq> 0"
  shows "2 powi expo x \<le> \<bar>x\<bar>" and "\<bar>x\<bar> < 2 powi (expo x + 1)"
proof -
  obtain a b where ab: "quotient_of \<bar>x\<bar> = (a, b)" by fastforce
  then have x: "\<bar>x\<bar> = of_int a / of_int b" and b: "b > 0"
    by (simp_all add: quotient_of_div quotient_of_denom_pos)
  with assms have a: "a > 0"
    by (metis abs_le_zero_iff divide_nonpos_pos not_less of_int_0_less_iff of_int_le_0_iff)
  have bnds: "2 powi (bitlen n - 1) \<le> (of_int n :: rat)" "(of_int n :: rat) < 2 powi bitlen n"
    if "n > 0" for n
  proof -
    have "1 \<le> bitlen n"
      using that bitlen_eq_zero_iff [of n] bitlen_nonneg [of n] by linarith
    then have pow: "(2::rat) powi bitlen n = 2 ^ nat (bitlen n)"
      "(2::rat) powi (bitlen n - 1) = 2 ^ nat (bitlen n - 1)"
      by (auto simp: power_int_def)
    have "(of_int (2 ^ nat (bitlen n - 1)) :: rat) \<le> of_int n"
      "(of_int n :: rat) < of_int (2 ^ nat (bitlen n))"
      using bitlen_bounds [OF that] by (simp_all only: of_int_le_iff of_int_less_iff)
    then show "2 powi (bitlen n - 1) \<le> (of_int n :: rat)" "(of_int n :: rat) < 2 powi bitlen n"
      by (simp_all add: pow)
  qed
  have "of_int a / of_int b < 2 powi bitlen a / (2 powi (bitlen b - 1) :: rat)"
    using bnds [OF a] bnds [OF b] a b by (intro frac_less) auto
  then have up: "\<bar>x\<bar> < 2 powi (bitlen a - bitlen b + 1)"
    unfolding x by (simp add: power_int_diff power_int_add field_simps)
  have "2 powi (bitlen a - 1) / (2 powi bitlen b) \<le> (of_int a / of_int b :: rat)"
    using bnds [OF a] bnds [OF b] a b by (intro frac_le) auto
  then have low: "2 powi (bitlen a - bitlen b - 1) \<le> \<bar>x\<bar>"
    unfolding x by (simp add: power_int_diff power_int_add field_simps)
  show "2 powi expo x \<le> \<bar>x\<bar>" "\<bar>x\<bar> < 2 powi (expo x + 1)"
    using up low by (auto simp: expo_def ab Let_def)
qed

text \<open>Correct rounding: the relative error is at most half a unit in the last place.\<close>

lemma fl_error: "\<bar>fl x - x\<bar> \<le> \<bar>x\<bar> / 2 ^ 53"
proof (cases "x = 0")
  case True
  then show ?thesis by (simp add: fl_def)
next
  case False
  define p :: rat where "p = 2 powi (expo x - 52)"
  have p: "p > 0" by (simp add: p_def)
  have "fl x - x = (of_int (round_even (x / p)) - x / p) * p"
    using False p by (simp add: fl_def p_def [symmetric] field_simps)
  then have "\<bar>fl x - x\<bar> = \<bar>of_int (round_even (x / p)) - x / p\<bar> * p"
    using p by (simp add: abs_mult)
  also have "\<dots> \<le> 1/2 * p"
    using p round_even_error by (intro mult_right_mono) auto
  also have "1/2 * p = 2 powi expo x / 2 ^ 53"
    by (simp add: p_def power_int_diff)
  also have "\<dots> \<le> \<bar>x\<bar> / 2 ^ 53"
    using expo_bounds(1) [OF False] by (simp add: divide_right_mono)
  finally show ?thesis .
qed

lemma fl_error_coarse: "\<bar>fl x - x\<bar> \<le> \<bar>x\<bar>"
proof -
  have "\<bar>x\<bar> / 2 ^ 53 \<le> \<bar>x\<bar>" by simp
  then show ?thesis using fl_error [of x] by (rule order_trans [rotated])
qed

lemma fl_nonneg: "0 \<le> x \<Longrightarrow> 0 \<le> fl x"
  using fl_error_coarse [of x] by linarith

lemma fl_le_double: "\<bar>fl x\<bar> \<le> 2 * \<bar>x\<bar>"
  using fl_error_coarse [of x] by linarith

text \<open>Integers up to \<open>2 ^ 53\<close> are Numbers.\<close>

lemma fl_of_int:
  assumes "\<bar>n\<bar> \<le> 2 ^ 53"
  shows "fl (of_int n) = of_int n"
proof (cases "n = 0")
  case True
  then show ?thesis by (simp add: fl_def)
next
  case False
  define e where "e = expo (of_int n) - 52"
  have "(of_int \<bar>n\<bar> :: rat) \<le> of_int (2 ^ 53)"
    using assms by (simp only: of_int_le_iff)
  then have nle: "\<bar>of_int n :: rat\<bar> \<le> 2 powi 53" by simp
  have "(2::rat) powi (e + 52) \<le> 2 powi 53"
    using expo_bounds(1) [of "of_int n"] False nle by (simp add: e_def)
  then have "e \<le> 1" using power_int_le_imp_le_exp [of "2::rat" "e + 52" 53] by simp
  have "\<exists>m. (of_int n :: rat) / 2 powi e = of_int m"
  proof (cases "e \<le> 0")
    case True
    then have "(of_int n :: rat) / 2 powi e = of_int (n * 2 ^ nat (- e))"
      by (simp add: power_int_def field_simps)
    then show ?thesis by blast
  next
    case False
    with \<open>e \<le> 1\<close> have e1: "e = 1" by simp
    then have "(2::rat) ^ 53 \<le> \<bar>of_int n\<bar>"
      using expo_bounds(1) [of "of_int n"] \<open>n \<noteq> 0\<close> by (simp add: e_def)
    then have "\<bar>n\<bar> = 2 ^ 53"
      using assms by (metis (mono_tags, lifting) antisym of_int_abs of_int_le_iff of_int_numeral of_int_power)
    then have "even \<bar>n\<bar>" by simp
    then have "even n" by simp
    then show ?thesis using e1 by (auto elim!: evenE)
  qed
  then obtain m where m: "(of_int n :: rat) / 2 powi e = of_int m" by blast
  then have "of_int m * 2 powi e = (of_int n :: rat)"
    by (simp add: divide_eq_eq)
  then show ?thesis
    using False by (simp add: fl_def e_def [symmetric] m)
qed

text \<open>Rounding an integer gives an integer.\<close>

lemma fl_of_int_Ints: "fl (of_int n) \<in> \<int>"
proof (cases "\<bar>n\<bar> \<le> 2 ^ 53")
  case True
  then show ?thesis by (simp add: fl_of_int)
next
  case False
  then have n: "n \<noteq> 0" by auto
  have "(of_int (2 ^ 53) :: rat) \<le> of_int \<bar>n\<bar>"
    using False by (simp only: of_int_le_iff)
  then have "(2::rat) powi 53 < 2 powi (expo (of_int n) + 1)"
    using expo_bounds(2) [of "of_int n"] n by simp
  then have "52 \<le> expo (of_int n)"
    using power_int_increasing [of "expo (of_int n) + 1" 53 "2::rat"] by fastforce
  then have "(2::rat) powi (expo (of_int n) - 52) = of_int (2 ^ nat (expo (of_int n) - 52))"
    by (simp add: power_int_def)
  then show ?thesis
    using n by (simp add: fl_def Let_def del: of_int_power)
qed

section \<open>Number values\<close>

datatype jsnum = NaN | Inf | NegInf | Num rat

text \<open>The Number nearest to an exact result; magnitudes that round to \<open>2 ^ 1024\<close> overflow.\<close>

definition norm_num :: "rat \<Rightarrow> jsnum" where
  "norm_num x = (let y = fl x in if 2 ^ 1024 \<le> y then Inf else if y \<le> - (2 ^ 1024) then NegInf else Num y)"

text \<open>Evaluation: a small operand needs no comparison with \<open>2 ^ 1024\<close>.\<close>

lemma norm_num_code [code]:
  "norm_num x = (if \<bar>x\<bar> < 1000000 then Num (fl x)
     else let y = fl x in if 2 ^ 1024 \<le> y then Inf else if y \<le> - (2 ^ 1024) then NegInf else Num y)"
proof (cases "\<bar>x\<bar> < 1000000")
  case True
  define big :: rat where "big = 2 ^ 1024"
  have "(2 :: rat) ^ 21 \<le> 2 ^ 1024" by (rule power_increasing) auto
  moreover have "(2000000 :: rat) < 2 ^ 21" by simp
  ultimately have big: "2000000 < big" unfolding big_def by (rule less_le_trans [rotated])
  have "\<bar>fl x\<bar> < big" using fl_le_double [of x] True big by linarith
  then have "\<not> big \<le> fl x" "\<not> fl x \<le> - big" by linarith+
  then show ?thesis using True unfolding norm_num_def big_def Let_def by (simp only: if_True if_False)
next
  case False
  then show ?thesis by (simp only: norm_num_def if_False)
qed

fun js_sub :: "jsnum \<Rightarrow> jsnum \<Rightarrow> jsnum" where
  "js_sub (Num x) (Num y) = norm_num (x - y)"
| "js_sub NaN _ = NaN"
| "js_sub _ NaN = NaN"
| "js_sub Inf Inf = NaN"
| "js_sub NegInf NegInf = NaN"
| "js_sub Inf _ = Inf"
| "js_sub NegInf _ = NegInf"
| "js_sub _ Inf = NegInf"
| "js_sub _ NegInf = Inf"

fun js_neg :: "jsnum \<Rightarrow> jsnum" where
  "js_neg (Num x) = Num (- x)"
| "js_neg Inf = NegInf"
| "js_neg NegInf = Inf"
| "js_neg NaN = NaN"

definition js_add :: "jsnum \<Rightarrow> jsnum \<Rightarrow> jsnum" where
  "js_add x y = js_sub x (js_neg y)"

fun js_sign :: "jsnum \<Rightarrow> rat" where
  "js_sign (Num x) = sgn x"
| "js_sign Inf = 1"
| "js_sign NegInf = - 1"
| "js_sign NaN = 0"

fun js_mul :: "jsnum \<Rightarrow> jsnum \<Rightarrow> jsnum" where
  "js_mul (Num x) (Num y) = norm_num (x * y)"
| "js_mul NaN _ = NaN"
| "js_mul _ NaN = NaN"
| "js_mul x y = (let s = js_sign x * js_sign y in if s = 0 then NaN else if 0 < s then Inf else NegInf)"

fun js_div :: "jsnum \<Rightarrow> jsnum \<Rightarrow> jsnum" where
  "js_div (Num x) (Num y) =
     (if y = 0 then (if x = 0 then NaN else if 0 < x then Inf else NegInf) else norm_num (x / y))"
| "js_div NaN _ = NaN"
| "js_div _ NaN = NaN"
| "js_div (Num _) _ = Num 0"
| "js_div Inf (Num y) = (if 0 \<le> y then Inf else NegInf)"
| "js_div NegInf (Num y) = (if 0 \<le> y then NegInf else Inf)"
| "js_div _ _ = NaN"

fun math_ceil :: "jsnum \<Rightarrow> jsnum" where
  "math_ceil (Num x) = Num (of_int \<lceil>x\<rceil>)"
| "math_ceil v = v"

fun js_less :: "jsnum \<Rightarrow> jsnum \<Rightarrow> bool" where
  "js_less (Num x) (Num y) = (x < y)"
| "js_less NaN _ = False"
| "js_less _ NaN = False"
| "js_less Inf _ = False"
| "js_less _ Inf = True"
| "js_less _ NegInf = False"
| "js_less NegInf _ = True"

definition math_max :: "jsnum \<Rightarrow> jsnum \<Rightarrow> jsnum" where
  "math_max x y = (if x = NaN \<or> y = NaN then NaN else if js_less x y then y else x)"

definition math_min :: "jsnum \<Rightarrow> jsnum \<Rightarrow> jsnum" where
  "math_min x y = (if x = NaN \<or> y = NaN then NaN else if js_less y x then y else x)"

text \<open>\<open>x || y\<close> on Numbers: \<open>NaN\<close> and zero are falsy.\<close>

definition js_or :: "jsnum \<Rightarrow> jsnum \<Rightarrow> jsnum" where
  "js_or x y = (if x = NaN \<or> x = Num 0 then y else x)"

lemma norm_num_int:
  assumes "\<bar>n\<bar> \<le> 2 ^ 53"
  shows "norm_num (of_int n) = Num (of_int n)"
proof -
  have "\<bar>of_int n :: rat\<bar> \<le> of_int (2 ^ 53)"
    using assms by (metis of_int_abs of_int_le_iff)
  also have "\<dots> < 2 ^ 1024" by simp
  finally show ?thesis
    by (simp add: norm_num_def fl_of_int [OF assms] Let_def abs_if split: if_splits)
qed

text \<open>\<open>Math.ceil(a / b)\<close> is the exact ceiling although the quotient is rounded.\<close>

lemma ceil_fl_div:
  fixes a b :: int
  assumes "0 \<le> a" and "a < 2 ^ 53" and "0 < b"
  shows "\<lceil>fl (of_int a / of_int b)\<rceil> = \<lceil>of_int a / of_int b :: rat\<rceil>"
proof -
  define q :: rat where "q = of_int a / of_int b"
  define k where "k = a div b"
  define r where "r = a mod b"
  have a: "a = k * b + r" and r: "0 \<le> r" "r < b" and k: "0 \<le> k" "k \<le> a"
    using assms by (auto simp: k_def r_def pos_imp_zdiv_nonneg_iff)
       (metis div_by_1 int_one_le_iff_zero_less zdiv_mono2 zero_less_one)
  have q: "q = of_int k + of_int r / of_int b"
    using assms(3) by (simp add: q_def a field_simps)
  show ?thesis
  proof (cases "r = 0")
    case True
    then have "q = of_int k" by (simp add: q)
    moreover have "fl (of_int k) = of_int k" using k assms by (intro fl_of_int) auto
    ultimately show ?thesis by (simp add: q_def)
  next
    case False
    have gap: "1 / of_int b \<le> (of_int r / of_int b :: rat)" "(of_int r / of_int b :: rat) \<le> 1 - 1 / of_int b"
      using r False assms(3) by (auto simp: field_simps)
    have "\<bar>fl q - q\<bar> \<le> q / 2 ^ 53"
      using fl_error [of q] assms by (simp add: q_def)
    also have "\<dots> < 1 / of_int b"
    proof -
      have "(of_int a :: rat) < of_int (2 ^ 53)" using assms(2) by (simp only: of_int_less_iff)
      then show ?thesis using assms(3) by (simp add: q_def field_simps)
    qed
    finally have "of_int k < fl q" "fl q < of_int k + 1"
      using gap q by linarith+
    moreover have "0 < 1 / (of_int b :: rat)" using assms(3) by simp
    then have "of_int k < q" "q < of_int k + 1"
      using gap q by linarith+
    ultimately have "\<lceil>fl q\<rceil> = k + 1" "\<lceil>q\<rceil> = k + 1"
      by (auto intro!: ceiling_unique)
    then show ?thesis by (simp add: q_def)
  qed
qed

end
