(* ===== verification/JsString.thy ===== *)
theory JsString
  imports JsNumber
begin

text \<open>
  ECMAScript strings and the string methods the program uses. A string is a list of
  characters; a code unit is read as one \<open>char\<close>, so case mapping and white space are the ones
  of the ASCII range (and the no-break space).
\<close>

section \<open>Searching and trimming\<close>

definition startsWith :: "string \<Rightarrow> string \<Rightarrow> bool" where
  "startsWith s p = (take (length p) s = p)"

definition endsWith :: "string \<Rightarrow> string \<Rightarrow> bool" where
  "endsWith s p = startsWith (rev s) (rev p)"

fun str_includes :: "string \<Rightarrow> string \<Rightarrow> bool" where
  "str_includes [] p = (p = [])"
| "str_includes (c # s) p = (startsWith (c # s) p \<or> str_includes s p)"

fun is_space :: "char \<Rightarrow> bool" where
  "is_space c = (of_char c \<in> {9 :: nat, 10, 11, 12, 13, 32, 160})"

definition trim :: "string \<Rightarrow> string" where
  "trim s = rev (dropWhile is_space (rev (dropWhile is_space s)))"

fun to_lower :: "char \<Rightarrow> char" where
  "to_lower c = (let n = of_char c :: nat in if 65 \<le> n \<and> n \<le> 90 then char_of (n + 32) else c)"

definition toLowerCase :: "string \<Rightarrow> string" where
  "toLowerCase s = map to_lower s"

fun to_upper :: "char \<Rightarrow> char" where
  "to_upper c = (let n = of_char c :: nat in if 97 \<le> n \<and> n \<le> 122 then char_of (n - 32) else c)"

definition toUpperCase :: "string \<Rightarrow> string" where
  "toUpperCase s = map to_upper s"

text \<open>\<open>s.indexOf(c)\<close> for a character that occurs, and \<open>s.substring(i)\<close>.\<close>

definition from_char :: "char \<Rightarrow> string \<Rightarrow> string" where
  "from_char c s = dropWhile (\<lambda>d. d \<noteq> c) s"

lemma startsWith_append [simp]: "startsWith (p @ s) p"
  by (simp add: startsWith_def)

lemma startsWith_iff: "startsWith s p \<longleftrightarrow> (\<exists>t. s = p @ t)"
  unfolding startsWith_def by (metis append_eq_conv_conj append_take_drop_id)

lemma str_includes_iff: "str_includes s p \<longleftrightarrow> (\<exists>a b. s = a @ p @ b)"
proof (induction s)
  case Nil
  then show ?case by auto
next
  case (Cons c s)
  have "(\<exists>a b. c # s = a @ p @ b) \<longleftrightarrow> (\<exists>b. c # s = p @ b) \<or> (\<exists>a b. s = a @ p @ b)"
    by (metis append_Cons append_Nil list.exhaust list.inject)
  then show ?case using Cons by (simp add: startsWith_iff)
qed

lemma toLowerCase_append: "toLowerCase (s @ t) = toLowerCase s @ toLowerCase t"
  by (simp add: toLowerCase_def)

section \<open>Decimal numerals\<close>

definition digit_char :: "nat \<Rightarrow> char" where
  "digit_char d = char_of (48 + d)"

fun is_digit :: "char \<Rightarrow> bool" where
  "is_digit c = (48 \<le> (of_char c :: nat) \<and> (of_char c :: nat) \<le> 57)"

definition digit_val :: "char \<Rightarrow> nat" where
  "digit_val c = of_char c - 48"

fun show_nat :: "nat \<Rightarrow> string" where
  "show_nat n = (if n < 10 then [digit_char n] else show_nat (n div 10) @ [digit_char (n mod 10)])"

declare show_nat.simps [simp del]

definition show_int :: "int \<Rightarrow> string" where
  "show_int i = (if i < 0 then CHR ''-'' # show_nat (nat (- i)) else show_nat (nat i))"

definition digits_val :: "string \<Rightarrow> nat" where
  "digits_val ds = foldl (\<lambda>n c. 10 * n + digit_val c) 0 ds"

text \<open>\<open>parseInt(s, 10)\<close>.\<close>

definition parseInt10 :: "string \<Rightarrow> jsnum" where
  "parseInt10 s =
    (let t = dropWhile is_space s;
         neg = (t \<noteq> [] \<and> hd t = CHR ''-'');
         u = (if t \<noteq> [] \<and> (hd t = CHR ''-'' \<or> hd t = CHR ''+'') then tl t else t);
         ds = takeWhile is_digit u
     in if ds = [] then NaN
        else norm_num (of_int (if neg then - int (digits_val ds) else int (digits_val ds))))"

lemma digit_char_props:
  assumes "d < 10"
  shows "is_digit (digit_char d)" and "digit_val (digit_char d) = d"
  using assms by (simp_all add: digit_char_def digit_val_def)

lemma show_nat_digits: "\<forall>c\<in>set (show_nat n). is_digit c"
proof (induction n rule: show_nat.induct)
  case (1 n)
  then show ?case
    by (subst show_nat.simps) (auto simp: digit_char_props simp del: is_digit.simps)
qed

text \<open>Tests of characters on their bits, for evaluation.\<close>

lemma is_digit_code [code]:
  "is_digit c \<longleftrightarrow> \<not> digit7 c \<and> \<not> digit6 c \<and> digit5 c \<and> digit4 c \<and> (digit3 c \<longrightarrow> \<not> digit2 c \<and> \<not> digit1 c)"
  by (cases c) (simp add: of_bool_def)

lemma control_bits: "of_char c < (32 :: nat) \<longleftrightarrow> \<not> digit5 c \<and> \<not> digit6 c \<and> \<not> digit7 c"
  by (cases c) (simp add: of_bool_def)

text \<open>Decimal digits computed on binary integers, for evaluation.\<close>

definition digit_of :: "int \<Rightarrow> char" where
  "digit_of i = (if i = 0 then CHR ''0'' else if i = 1 then CHR ''1'' else if i = 2 then CHR ''2'' else if i = 3 then CHR ''3''
     else if i = 4 then CHR ''4'' else if i = 5 then CHR ''5'' else if i = 6 then CHR ''6'' else if i = 7 then CHR ''7''
     else if i = 8 then CHR ''8'' else CHR ''9'')"

function decimal :: "int \<Rightarrow> string" where
  "decimal i = (if i < 10 then [digit_of i] else decimal (i div 10) @ [digit_of (i mod 10)])"
  by pat_completeness auto
termination by (relation "measure nat") auto

declare decimal.simps [simp del]

lemmas decimal_code [code] = decimal.simps [of 0] decimal.simps [of "Int.Pos n" for n] decimal.simps [of "Int.Neg n" for n]

lemma digit_of_char: "d < 10 \<Longrightarrow> digit_of (int d) = digit_char d"
  by (cases "d = 0 \<or> d = 1 \<or> d = 2 \<or> d = 3 \<or> d = 4 \<or> d = 5 \<or> d = 6 \<or> d = 7 \<or> d = 8 \<or> d = 9")
     (auto simp: digit_of_def digit_char_def char_of_def bit_0)

lemma decimal_show [code]: "show_nat n = decimal (int n)"
proof (induction n rule: show_nat.induct)
  case (1 n)
  show ?case
  proof (cases "n < 10")
    case True
    then show ?thesis by (simp add: show_nat.simps decimal.simps [of "int n"] digit_of_char)
  next
    case False
    then have "decimal (int n) = decimal (int (n div 10)) @ [digit_of (int (n mod 10))]"
      by (subst decimal.simps) (simp add: zdiv_int zmod_int)
    then show ?thesis using False 1 by (subst show_nat.simps) (simp add: digit_of_char)
  qed
qed

lemma show_int_code [code]: "show_int i = (if i < 0 then CHR ''-'' # decimal (- i) else decimal i)"
  by (simp add: show_int_def decimal_show)

lemma digits_val_snoc: "digits_val (ds @ [c]) = 10 * digits_val ds + digit_val c"
  by (simp add: digits_val_def)

lemma digits_val_show_nat: "digits_val (show_nat n) = n"
proof (induction n rule: show_nat.induct)
  case (1 n)
  show ?case
  proof (cases "n < 10")
    case True
    then show ?thesis by (subst show_nat.simps) (simp add: digits_val_def digit_char_props)
  next
    case False
    then show ?thesis
      using 1 by (subst show_nat.simps) (simp add: digits_val_snoc digit_char_props)
  qed
qed

lemma show_nat_nonempty: "show_nat n \<noteq> []"
  by (subst show_nat.simps) simp

lemma show_nat_inj: "show_nat m = show_nat n \<Longrightarrow> m = n"
  by (metis digits_val_show_nat)

lemma parseInt10_show_nat:
  assumes "n \<le> 2 ^ 53"
  shows "parseInt10 (show_nat n) = Num (of_nat n)"
proof -
  obtain c cs where s: "show_nat n = c # cs" using show_nat_nonempty by (meson list.exhaust)
  then have c: "is_digit c" using show_nat_digits [of n] by simp
  then have ns: "\<not> is_space c" "c \<noteq> CHR ''-''" "c \<noteq> CHR ''+''" by auto
  have tw: "takeWhile is_digit (show_nat n) = show_nat n"
    using show_nat_digits [of n] by (simp add: takeWhile_eq_all_conv del: is_digit.simps)
  have "dropWhile is_space (show_nat n) = show_nat n" using s ns by simp
  then have "parseInt10 (show_nat n) = norm_num (of_int (int n))"
    using s ns tw digits_val_show_nat [of n] show_nat_nonempty [of n]
    by (simp add: parseInt10_def Let_def del: is_digit.simps is_space.simps)
  also have "\<dots> = Num (of_nat n)"
    using assms by (subst norm_num_int) auto
  finally show ?thesis .
qed

text \<open>A parsed number is an integer, an infinity or \<open>NaN\<close>.\<close>

lemma norm_num_of_int_cases: "norm_num (of_int k) = Num x \<Longrightarrow> x \<in> \<int>"
  by (auto simp: norm_num_def Let_def fl_of_int_Ints split: if_splits)

lemma parseInt10_cases: "parseInt10 s = NaN \<or> (\<exists>k. parseInt10 s = norm_num (of_int k))"
  unfolding parseInt10_def Let_def by metis

lemma parseInt10_Ints: "parseInt10 s = Num x \<Longrightarrow> x \<in> \<int>"
  using parseInt10_cases [of s] norm_num_of_int_cases by auto

end
