(* ===== verification/Pagination.thy ===== *)
theory Pagination
  imports JsString
begin

text \<open>
  The pagination arithmetic shared by the order and the product listings: the query
  parameters as the controllers read them, and the slice and page counters as the services
  compute them, on ECMAScript numbers.
\<close>

section \<open>Query parameters\<close>

text \<open>\<open>Math.max(1, parseInt(page ?? '1', 10) || 1)\<close>.\<close>

definition pageNum :: "string option \<Rightarrow> jsnum" where
  "pageNum page =
     math_max (Num 1) (js_or (parseInt10 (case page of None \<Rightarrow> ''1'' | Some s \<Rightarrow> s)) (Num 1))"

text \<open>\<open>Math.max(1, Math.min(100, parseInt(perPage ?? '10', 10) || 10))\<close>.\<close>

definition perPageNum :: "string option \<Rightarrow> jsnum" where
  "perPageNum perPage =
     math_max (Num 1) (math_min (Num 100)
       (js_or (parseInt10 (case perPage of None \<Rightarrow> ''10'' | Some s \<Rightarrow> s)) (Num 10)))"

section \<open>Pages\<close>

record 'a page_result =
  pg_page :: jsnum
  pg_per_page :: jsnum
  pg_total :: nat
  pg_total_pages :: jsnum
  pg_data :: "'a list"

text \<open>\<open>Array.prototype.slice\<close>: a relative index of a list of the given length.\<close>

definition slice_index :: "nat \<Rightarrow> jsnum \<Rightarrow> nat" where
  "slice_index len v = (case v of
      NaN \<Rightarrow> 0 | NegInf \<Rightarrow> 0 | Inf \<Rightarrow> len
    | Num r \<Rightarrow> let k = (if 0 \<le> r then \<lfloor>r\<rfloor> else \<lceil>r\<rceil>) in
        if k < 0 then nat (max 0 (int len + k)) else min (nat k) len)"

definition js_slice :: "'a list \<Rightarrow> jsnum \<Rightarrow> jsnum \<Rightarrow> 'a list" where
  "js_slice xs a b = (let i = slice_index (length xs) a; j = slice_index (length xs) b in
     take (j - i) (drop i xs))"

definition totalPages :: "nat \<Rightarrow> jsnum \<Rightarrow> jsnum" where
  "totalPages tot perPage = math_max (Num 1) (math_ceil (js_div (Num (of_nat tot)) perPage))"

text \<open>The tail of \<open>OrderService.findAll\<close>.\<close>

definition paginate :: "'a list \<Rightarrow> jsnum \<Rightarrow> jsnum \<Rightarrow> 'a page_result" where
  "paginate xs page perPage =
    (let tot = length xs;
         tp = totalPages tot perPage;
         currentPage = math_min page tp;
         start = js_mul (js_sub currentPage (Num 1)) perPage;
         dat = js_slice xs start (js_add start perPage)
     in \<lparr>pg_page = currentPage, pg_per_page = perPage, pg_total = tot,
         pg_total_pages = tp, pg_data = dat\<rparr>)"

section \<open>The parameters are in range\<close>

lemma pageNum_cases: "pageNum p = Inf \<or> (\<exists>n \<ge> 1. pageNum p = Num (of_nat n))"
proof -
  define v where "v = js_or (parseInt10 (case p of None \<Rightarrow> ''1'' | Some s \<Rightarrow> s)) (Num 1)"
  have v: "x \<in> \<int>" if "v = Num x" for x
    using that by (auto simp: v_def js_or_def parseInt10_Ints split: if_splits)
  have "v \<noteq> NaN" by (auto simp: v_def js_or_def)
  show ?thesis
  proof (cases v)
    case (Num x)
    show ?thesis
    proof (cases "x \<le> 1")
      case True
      then show ?thesis by (auto simp: pageNum_def v_def [symmetric] Num math_max_def intro!: exI [of _ 1])
    next
      case False
      obtain k where k: "x = of_int k" using v [OF Num] by (auto elim: Ints_cases)
      then have "x = of_nat (nat k)" "1 \<le> nat k" using False by auto
      then show ?thesis
        using False by (auto simp: pageNum_def v_def [symmetric] Num math_max_def)
    qed
  qed (use \<open>v \<noteq> NaN\<close> in \<open>auto simp: pageNum_def v_def [symmetric] math_max_def intro!: exI [of _ 1]\<close>)
qed

lemma perPageNum_range: "\<exists>k. 1 \<le> k \<and> k \<le> 100 \<and> perPageNum p = Num (of_nat k)"
proof -
  define v where "v = js_or (parseInt10 (case p of None \<Rightarrow> ''10'' | Some s \<Rightarrow> s)) (Num 10)"
  have v: "x \<in> \<int>" if "v = Num x" for x
    using that by (auto simp: v_def js_or_def parseInt10_Ints split: if_splits)
  have nan: "v \<noteq> NaN" by (auto simp: v_def js_or_def)
  show ?thesis
  proof (cases v)
    case (Num x)
    obtain k where k: "x = of_int k" using v [OF Num] by (auto elim: Ints_cases)
    define n where "n = nat (max 1 (min 100 k))"
    have "1 \<le> n" "n \<le> 100" by (auto simp: n_def)
    moreover have "perPageNum p = Num (of_nat n)"
      by (auto simp: perPageNum_def v_def [symmetric] Num k n_def math_max_def math_min_def
          min_def max_def)
    ultimately show ?thesis by blast
  next
    case Inf
    then show ?thesis
      by (intro exI [of _ 100]) (simp add: perPageNum_def v_def [symmetric] math_max_def math_min_def)
  next
    case NegInf
    then show ?thesis
      by (intro exI [of _ 1]) (simp add: perPageNum_def v_def [symmetric] math_max_def math_min_def)
  qed (use nan in simp)
qed

section \<open>Pages partition the list\<close>

text \<open>The number of pages, exactly.\<close>

definition page_count :: "nat \<Rightarrow> nat \<Rightarrow> nat" where
  "page_count n k = max 1 ((n + k - 1) div k)"

lemma ceiling_of_nat_div:
  assumes "0 < k"
  shows "\<lceil>of_nat n / of_nat k :: rat\<rceil> = int ((n + k - 1) div k)"
proof (rule ceiling_unique)
  define m where "m = (n + k - 1) div k"
  have lo: "m * k \<le> n + k - 1" and hi: "n + k - 1 < (m + 1) * k"
    using assms by (auto simp: m_def) (metis dividend_less_div_times mult.commute mult_Suc add.commute)
  have "m * k < n + k" using lo assms by linarith
  then have "of_nat (m * k) < (of_nat (n + k) :: rat)" by (simp only: of_nat_less_iff)
  then show "of_int (int m) - 1 < (of_nat n / of_nat k :: rat)"
    using assms by (simp add: field_simps)
  have "n \<le> m * k" using hi assms by (simp add: algebra_simps)
  then have "of_nat n \<le> (of_nat (m * k) :: rat)" by (simp only: of_nat_le_iff)
  then show "(of_nat n / of_nat k :: rat) \<le> of_int (int m)"
    using assms by (simp add: field_simps)
qed

lemma totalPages_eq:
  assumes "0 < k" and "n < 2 ^ 53"
  shows "totalPages n (Num (of_nat k)) = Num (of_nat (page_count n k))"
proof -
  define q :: rat where "q = of_nat n / of_nat k"
  have "q \<le> of_nat n / 1"
    unfolding q_def using assms(1) by (intro divide_left_mono) auto
  then have "q \<le> of_nat n" by simp
  moreover have "(of_nat n :: rat) < 2 ^ 53" using assms(2) by (metis of_nat_less_iff of_nat_numeral of_nat_power)
  moreover have "0 \<le> q" by (simp add: q_def)
  ultimately have "\<bar>fl q\<bar> < 2 * 2 ^ 53" using fl_le_double [of q] by linarith
  also have "\<dots> \<le> 2 ^ 1024" by simp
  finally have "norm_num q = Num (fl q)"
    by (simp add: norm_num_def Let_def abs_less_iff)
  moreover have "\<lceil>fl q\<rceil> = int ((n + k - 1) div k)"
    using ceil_fl_div [of "int n" "int k"] ceiling_of_nat_div [OF assms(1), of n] assms
    by (simp add: q_def)
  ultimately show ?thesis
    using assms(1)
    by (auto simp: totalPages_def q_def [symmetric] math_max_def page_count_def max_def not_less
        simp flip: of_nat_less_iff)
qed

text \<open>Every page as an exact slice: \<open>nth_page\<close> is the page the counters name.\<close>

definition nth_page :: "'a list \<Rightarrow> nat \<Rightarrow> nat \<Rightarrow> 'a list" where
  "nth_page xs c k = take k (drop ((c - 1) * k) xs)"

lemma page_count_upper: "0 < k \<Longrightarrow> n \<le> page_count n k * k"
proof -
  assume k: "0 < k"
  have "n + k - 1 < ((n + k - 1) div k + 1) * k"
    using k by (metis Suc_eq_plus1 dividend_less_div_times mult.commute mult_Suc add.commute)
  then have "n \<le> (n + k - 1) div k * k" using k by (simp add: algebra_simps)
  also have "\<dots> \<le> page_count n k * k" by (simp add: page_count_def)
  finally show ?thesis .
qed

lemma page_count_lower: "0 < k \<Longrightarrow> c \<le> page_count n k \<Longrightarrow> (c - 1) * k \<le> n"
proof -
  assume k: "0 < k" and c: "c \<le> page_count n k"
  show ?thesis
  proof (cases "c \<le> 1")
    case False
    then have "c \<le> (n + k - 1) div k" using c by (auto simp: page_count_def max_def split: if_splits)
    then have "c * k \<le> (n + k - 1) div k * k" by simp
    also have "\<dots> \<le> n + k - 1" by simp
    finally show ?thesis using k False by (simp add: diff_mult_distrib)
  qed simp
qed

lemma slice_index_nat: "slice_index len (Num (of_nat i)) = min i len"
  by (simp add: slice_index_def)

lemma norm_num_nat: "n \<le> 2 ^ 53 \<Longrightarrow> norm_num (of_nat n) = Num (of_nat n)"
  using norm_num_int [of "int n"] by (simp add: zero_le_power)

lemma paginate_eq:
  assumes k: "0 < k" and len: "length xs + k \<le> 2 ^ 53" and c: "1 \<le> c" "c \<le> page_count (length xs) k"
    and page: "math_min page (Num (of_nat (page_count (length xs) k))) = Num (of_nat c)"
  shows "paginate xs page (Num (of_nat k)) =
    \<lparr>pg_page = Num (of_nat c), pg_per_page = Num (of_nat k), pg_total = length xs,
     pg_total_pages = Num (of_nat (page_count (length xs) k)), pg_data = nth_page xs c k\<rparr>"
proof -
  have le: "(c - 1) * k \<le> length xs" using page_count_lower k c(2) by blast
  have c1: "c - 1 \<le> (c - 1) * k" using k by simp
  have tp: "totalPages (length xs) (Num (of_nat k)) = Num (of_nat (page_count (length xs) k))"
    using k len by (intro totalPages_eq) linarith+
  define i where "i = (c - 1) * k"
  have b: "c - 1 \<le> 2 ^ 53" "i \<le> 2 ^ 53" "i + k \<le> 2 ^ 53"
    using le len c1 unfolding i_def by linarith+
  have "of_nat c - 1 = (of_nat (c - 1) :: rat)" using c(1) by (simp add: of_nat_diff)
  then have s1: "js_sub (Num (of_nat c)) (Num 1) = Num (of_nat (c - 1))"
    by (simp only: js_sub.simps norm_num_nat [OF b(1)])
  have s2: "js_mul (Num (of_nat (c - 1))) (Num (of_nat k)) = Num (of_nat i)"
    using norm_num_nat [OF b(2)] by (simp add: i_def)
  have s3: "js_add (Num (of_nat i)) (Num (of_nat k)) = Num (of_nat (i + k))"
    using norm_num_nat [OF b(3)] by (simp add: js_add_def)
  have "i \<le> length xs" using le by (simp add: i_def)
  then have sl: "js_slice xs (Num (of_nat i)) (Num (of_nat (i + k))) = nth_page xs c k"
    unfolding js_slice_def slice_index_nat nth_page_def i_def [symmetric] by (simp add: min_def)
  show ?thesis
    by (simp only: paginate_def Let_def tp page s1 s2 s3 sl)
qed

lemma concat_nth_page: "concat (map (\<lambda>c. nth_page xs c k) [1..<Suc m]) = take (m * k) xs"
proof (induction m)
  case 0
  then show ?case by simp
next
  case (Suc m)
  then show ?case
    by (simp add: nth_page_def add.commute [of k] take_add)
qed

lemma concat_all_pages:
  assumes "0 < k"
  shows "concat (map (\<lambda>c. nth_page xs c k) [1..<Suc (page_count (length xs) k)]) = xs"
  using page_count_upper [OF assms, of "length xs"] by (simp only: concat_nth_page take_all)

section \<open>Requests\<close>

text \<open>
  C36: Whatever the \<open>page\<close> and \<open>per_page\<close> query strings are (absent, negative, not numbers, huge), the
  service answers with a page that exists: between 1 and 100 rows per page, a page number between
  1 and the number of pages, and exactly the rows of that page.
\<close>

theorem any_request_served:
  assumes "length xs + 100 \<le> 2 ^ 53"
  shows "\<exists>k c. 1 \<le> k \<and> k \<le> 100 \<and> 1 \<le> c \<and> c \<le> page_count (length xs) k \<and>
    paginate xs (pageNum p) (perPageNum pp) =
      \<lparr>pg_page = Num (of_nat c), pg_per_page = Num (of_nat k), pg_total = length xs,
       pg_total_pages = Num (of_nat (page_count (length xs) k)), pg_data = nth_page xs c k\<rparr>"
proof -
  obtain k where k: "1 \<le> k" "k \<le> 100" "perPageNum pp = Num (of_nat k)" using perPageNum_range by blast
  have pc: "1 \<le> page_count (length xs) k" by (simp add: page_count_def)
  obtain c where c: "1 \<le> c" "c \<le> page_count (length xs) k"
    "math_min (pageNum p) (Num (of_nat (page_count (length xs) k))) = Num (of_nat c)"
  proof (cases "pageNum p = Inf")
    case True
    then show ?thesis using pc by (intro that [of "page_count (length xs) k"]) (auto simp: math_min_def)
  next
    case False
    then obtain n where "1 \<le> n" "pageNum p = Num (of_nat n)" using pageNum_cases by blast
    then show ?thesis
      using pc by (intro that [of "min n (page_count (length xs) k)"]) (auto simp: math_min_def min_def)
  qed
  have "0 < k" and "length xs + k \<le> 2 ^ 53" using k(1,2) assms by linarith+
  from paginate_eq [OF this c] k c(1,2) show ?thesis by metis
qed

theorem any_request_served_witness:
  "\<exists>k c. 1 \<le> k \<and> k \<le> 100 \<and> 1 \<le> c \<and> c \<le> page_count (length [10 :: nat, 20, 30]) k \<and>
    paginate [10 :: nat, 20, 30] (pageNum (Some ''-7'')) (perPageNum (Some ''abc'')) =
      \<lparr>pg_page = Num (of_nat c), pg_per_page = Num (of_nat k), pg_total = length [10 :: nat, 20, 30],
       pg_total_pages = Num (of_nat (page_count (length [10 :: nat, 20, 30]) k)), pg_data = nth_page [10 :: nat, 20, 30] c k\<rparr>"
  by (rule any_request_served) simp

lemma pageNum_show:
  assumes "1 \<le> n" and "n \<le> 2 ^ 53"
  shows "pageNum (Some (show_nat n)) = Num (of_nat n)"
  using assms by (auto simp: pageNum_def parseInt10_show_nat js_or_def math_max_def)

lemma perPageNum_show:
  assumes "1 \<le> k" and "k \<le> 100"
  shows "perPageNum (Some (show_nat k)) = Num (of_nat k)"
proof -
  have "k \<le> 2 ^ 53" using assms(2) by (rule order_trans) simp
  then show ?thesis
    using assms by (auto simp: perPageNum_def parseInt10_show_nat js_or_def math_max_def math_min_def)
qed

text \<open>
  C37: Requesting the pages \<open>1, 2, ..., total_pages\<close> in turn, with any page size from 1 to 100, yields
  every row exactly once and in order.
\<close>

theorem pages_partition:
  assumes "1 \<le> k" and "k \<le> 100" and "length xs + 100 \<le> 2 ^ 53"
  shows "concat (map (\<lambda>n. pg_data (paginate xs (pageNum (Some (show_nat n))) (perPageNum (Some (show_nat k)))))
    [1..<Suc (page_count (length xs) k)]) = xs"
proof -
  have k: "0 < k" and len: "length xs + k \<le> 2 ^ 53" using assms by linarith+
  have "(length xs + k - 1) div k \<le> length xs + k - 1" by (rule div_le_dividend)
  then have pc: "page_count (length xs) k \<le> 2 ^ 53" using len k unfolding page_count_def by linarith
  have "pg_data (paginate xs (pageNum (Some (show_nat n))) (perPageNum (Some (show_nat k)))) = nth_page xs n k"
    if "n \<in> set [1..<Suc (page_count (length xs) k)]" for n
  proof -
    have n: "1 \<le> n" "n \<le> page_count (length xs) k" using that by auto
    have p: "pageNum (Some (show_nat n)) = Num (of_nat n)" using n pc by (intro pageNum_show) linarith+
    have "math_min (Num (of_nat n)) (Num (of_nat (page_count (length xs) k))) = Num (of_nat n)"
      using n(2) by (auto simp: math_min_def)
    from paginate_eq [OF k len n this] show ?thesis by (simp add: p perPageNum_show [OF assms(1,2)])
  qed
  then have "map (\<lambda>n. pg_data (paginate xs (pageNum (Some (show_nat n))) (perPageNum (Some (show_nat k)))))
      [1..<Suc (page_count (length xs) k)] = map (\<lambda>n. nth_page xs n k) [1..<Suc (page_count (length xs) k)]"
    by (intro map_cong refl)
  then show ?thesis using concat_all_pages [OF k] by (simp only:)
qed

theorem pages_partition_witness:
  "concat (map (\<lambda>n. pg_data (paginate ''abcde'' (pageNum (Some (show_nat n))) (perPageNum (Some (show_nat 2)))))
    [1..<Suc (page_count (length ''abcde'') 2)]) = ''abcde''"
  by (rule pages_partition) simp_all

end
