(* ===== verification/Async.thy ===== *)
theory Async
  imports Prelude
begin

text \<open>
  Asynchronous programs. A TypeScript \<open>async\<close> method runs without interruption from one
  \<open>await\<close> to the next; at an \<open>await\<close> the event loop, or another process on the same database,
  may run anything else. \<open>('s, 'a) async\<close> is such a program over a shared state \<open>'s\<close>: it is
  done, or it is suspended before one atomic section. The theory holds the monad of these
  programs with exceptions, their execution alone (\<open>run\<close>), their interleaved execution
  (\<open>cstep\<close>), and a guarantee judgement that carries a two-state property from every atomic
  section to every interleaving.
\<close>

section \<open>Programs\<close>

datatype (dead 's, 'a) async =
    Done 'a
  | Await "'s \<Rightarrow> ('s, 'a) async \<times> 's"

primrec bindA :: "('s, 'a) async \<Rightarrow> ('a \<Rightarrow> ('s, 'b) async) \<Rightarrow> ('s, 'b) async" where
  "bindA (Done x) f = f x"
| "bindA (Await g) f = Await (map_prod (\<lambda>m. bindA m f) id \<circ> g)"

text \<open>A handler is a program that returns or throws.\<close>

type_synonym ('s, 'a) handler = "('s, exn + 'a) async"

definition ret :: "'a \<Rightarrow> ('s, 'a) handler" where
  "ret x = Done (Inr x)"

definition throw :: "exn \<Rightarrow> ('s, 'a) handler" where
  "throw e = Done (Inl e)"

text \<open>\<open>const x = await m; ...\<close>: an exception of \<open>m\<close> skips the rest.\<close>

definition bindE :: "('s, 'a) handler \<Rightarrow> ('a \<Rightarrow> ('s, 'b) handler) \<Rightarrow> ('s, 'b) handler" where
  "bindE m f = bindA m (case_sum throw f)"

lemma bindA_assoc: "bindA (bindA m f) g = bindA m (\<lambda>x. bindA (f x) g)"
proof (induction m)
  case (Await h)
  have "bindA (bindA (fst (h s)) f) g = bindA (fst (h s)) (\<lambda>x. bindA (f x) g)" for s
    by (rule Await) (auto simp: fsts.simps intro!: rangeI)
  then show ?case by (auto simp: fun_eq_iff map_prod_def split_beta)
qed simp

lemma bindE_assoc: "bindE (bindE m f) g = bindE m (\<lambda>x. bindE (f x) g)"
  unfolding bindE_def bindA_assoc
  by (rule arg_cong [where f = "bindA m"]) (auto simp: fun_eq_iff throw_def split: sum.split)

lemma bindE_ret: "bindE (ret x) f = f x"
  by (simp add: bindE_def ret_def)

text \<open>\<open>try { m } catch (error) { h(error) }\<close>.\<close>

definition tryCatch :: "('s, 'a) handler \<Rightarrow> (exn \<Rightarrow> ('s, 'a) handler) \<Rightarrow> ('s, 'a) handler" where
  "tryCatch m h = bindA m (case_sum h ret)"

text \<open>\<open>for (const x of xs) { await body(x); }\<close>.\<close>

primrec forEach :: "'x list \<Rightarrow> ('x \<Rightarrow> ('s, unit) handler) \<Rightarrow> ('s, unit) handler" where
  "forEach [] body = ret ()"
| "forEach (x # xs) body = bindE (body x) (\<lambda>_. forEach xs body)"

text \<open>One atomic section: a call of a third-party client that resolves or rejects.\<close>

definition await_call :: "('s \<Rightarrow> (string + 'a) \<times> 's) \<Rightarrow> ('s, 'a) handler" where
  "await_call f = Await (\<lambda>s. (Done (map_sum RaisedError id (fst (f s))), snd (f s)))"

text \<open>One atomic section on in-process state, which cannot reject.\<close>

definition sync :: "('s \<Rightarrow> 'a \<times> 's) \<Rightarrow> ('s, 'a) handler" where
  "sync f = Await (\<lambda>s. (Done (Inr (fst (f s))), snd (f s)))"

section \<open>Execution alone\<close>

primrec run :: "('s, 'a) async \<Rightarrow> 's \<Rightarrow> 'a \<times> 's" where
  "run (Done x) = (\<lambda>s. (x, s))"
| "run (Await g) = (\<lambda>s. let p = (map_prod run id \<circ> g) s in fst p (snd p))"

lemma run_Await: "run (Await g) s = run (fst (g s)) (snd (g s))"
  by (simp add: Let_def)

declare run.simps(2) [simp del]
declare run_Await [simp]

lemma run_bindA: "run (bindA m f) s = (case run m s of (x, s') \<Rightarrow> run (f x) s')"
proof (induction m arbitrary: s)
  case (Done x)
  then show ?case by simp
next
  case (Await g)
  have "run (bindA (fst (g s)) f) (snd (g s)) =
    (case run (fst (g s)) (snd (g s)) of (x, s') \<Rightarrow> run (f x) s')"
    by (rule Await) (auto simp: fsts.simps intro!: rangeI)
  then show ?case by simp
qed

lemma run_ret [async_simps]: "run (ret x) s = (Inr x, s)"
  by (simp add: ret_def)

lemma run_throw [async_simps]: "run (throw e) s = (Inl e, s)"
  by (simp add: throw_def)

lemma run_bindE [async_simps]:
  "run (bindE m f) s = (case run m s of (Inl e, s') \<Rightarrow> (Inl e, s') | (Inr x, s') \<Rightarrow> run (f x) s')"
  by (auto simp: bindE_def run_bindA throw_def split: prod.split sum.split)

lemma run_tryCatch [async_simps]:
  "run (tryCatch m h) s = (case run m s of (Inl e, s') \<Rightarrow> run (h e) s' | (Inr x, s') \<Rightarrow> (Inr x, s'))"
  by (auto simp: tryCatch_def run_bindA ret_def split: prod.split sum.split)

lemma run_await_call [async_simps]:
  "run (await_call f) s = (map_sum RaisedError id (fst (f s)), snd (f s))"
  by (simp add: await_call_def)

lemma run_sync [async_simps]: "run (sync f) s = (Inr (fst (f s)), snd (f s))"
  by (simp add: sync_def)

section \<open>Weakest preconditions\<close>

text \<open>
  \<open>wp m Q E s\<close>: run alone from \<open>s\<close>, the handler \<open>m\<close> ends in a state satisfying \<open>Q\<close> with its
  result, or throws in a state satisfying \<open>E\<close> with its exception.
\<close>

definition wp :: "('s, 'a) handler \<Rightarrow> ('a \<Rightarrow> 's \<Rightarrow> bool) \<Rightarrow> (exn \<Rightarrow> 's \<Rightarrow> bool) \<Rightarrow> 's \<Rightarrow> bool" where
  "wp m Q E s = (case run m s of (Inl e, s') \<Rightarrow> E e s' | (Inr x, s') \<Rightarrow> Q x s')"

named_theorems wp_simps \<open>weakest preconditions of the program constructs\<close>

lemma wp_ret [wp_simps]: "wp (ret x) Q E = Q x"
  by (simp add: wp_def run_ret fun_eq_iff)

lemma wp_throw [wp_simps]: "wp (throw e) Q E = E e"
  by (simp add: wp_def run_throw fun_eq_iff)

lemma wp_bindE [wp_simps]: "wp (bindE m f) Q E = wp m (\<lambda>x. wp (f x) Q E) E"
  by (auto simp: wp_def run_bindE fun_eq_iff split: prod.split sum.split)

lemma wp_tryCatch [wp_simps]: "wp (tryCatch m h) Q E = wp m Q (\<lambda>e. wp (h e) Q E)"
  by (auto simp: wp_def run_tryCatch fun_eq_iff split: prod.split sum.split)

lemma wp_sync [wp_simps]: "wp (sync f) Q E = (\<lambda>s. Q (fst (f s)) (snd (f s)))"
  by (simp add: wp_def run_sync fun_eq_iff)

lemma wp_await_call:
  "wp (await_call f) Q E =
    (\<lambda>s. case fst (f s) of Inl m \<Rightarrow> E (RaisedError m) (snd (f s)) | Inr x \<Rightarrow> Q x (snd (f s)))"
  by (simp add: wp_def run_await_call fun_eq_iff split: sum.split)

lemma wp_if [wp_simps]: "wp (if b then m else n) Q E = (if b then wp m Q E else wp n Q E)"
  by simp

lemma wp_case_option [wp_simps]:
  "wp (case v of None \<Rightarrow> m | Some x \<Rightarrow> f x) Q E =
    (case v of None \<Rightarrow> wp m Q E | Some x \<Rightarrow> wp (f x) Q E)"
  by (simp split: option.split)

lemma wp_conseq:
  "wp m Q E s \<Longrightarrow> (\<And>x s'. Q x s' \<Longrightarrow> Q' x s') \<Longrightarrow> (\<And>e s'. E e s' \<Longrightarrow> E' e s') \<Longrightarrow> wp m Q' E' s"
  by (auto simp: wp_def split: prod.splits sum.splits)

lemma wp_seq:
  "wp m R E s \<Longrightarrow> (\<And>x s'. R x s' \<Longrightarrow> wp (f x) Q E s') \<Longrightarrow> wp (bindE m f) Q E s"
  unfolding wp_bindE by (rule wp_conseq)

lemma wp_run_Inr: "wp m Q E s \<Longrightarrow> run m s = (Inr x, s') \<Longrightarrow> Q x s'"
  by (simp add: wp_def)

lemma wp_run_Inl: "wp m Q E s \<Longrightarrow> run m s = (Inl e, s') \<Longrightarrow> E e s'"
  by (simp add: wp_def)

lemma wp_run_case:
  assumes "wp m Q E s" and "run m s = (r, s')"
  shows "case r of Inl e \<Rightarrow> E e s' | Inr x \<Rightarrow> Q x s'"
  using assms by (simp add: wp_def)

text \<open>A loop keeps an invariant indexed by the elements already handled.\<close>

lemma wp_forEach:
  assumes "J [] s"
    and "\<And>ys x zs s. xs = ys @ x # zs \<Longrightarrow> J ys s \<Longrightarrow> wp (body x) (\<lambda>_. J (ys @ [x])) E s"
    and "\<And>s. J xs s \<Longrightarrow> Q () s"
  shows "wp (forEach xs body) Q E s"
proof -
  have "wp (forEach zs body) Q E s" if "xs = ys @ zs" "J ys s" for ys zs s
    using that
  proof (induction zs arbitrary: ys s)
    case Nil
    then show ?case using assms(3) by (simp add: wp_simps)
  next
    case (Cons x zs)
    have "wp (body x) (\<lambda>_. J (ys @ [x])) E s" using assms(2) Cons.prems by blast
    then have "wp (bindE (body x) (\<lambda>_. forEach zs body)) Q E s"
      by (rule wp_seq) (use Cons.IH [of "ys @ [x]"] Cons.prems(1) in simp)
    then show ?case by simp
  qed
  from this [of "[]" xs s] assms(1) show ?thesis by simp
qed

section \<open>Interleaved execution\<close>

text \<open>
  A configuration is the list of programs in flight and the shared state. A step starts a new
  program out of the set \<open>H\<close> of the system's handlers, or lets one suspended program run its
  next atomic section.
\<close>

inductive cstep :: "('s, 'a) async set \<Rightarrow> ('s, 'a) async list \<times> 's \<Rightarrow> ('s, 'a) async list \<times> 's \<Rightarrow> bool"
  for H where
  spawn: "h \<in> H \<Longrightarrow> cstep H (ts, s) (ts @ [h], s)"
| resume: "i < length ts \<Longrightarrow> ts ! i = Await g \<Longrightarrow> cstep H (ts, s) (ts[i := fst (g s)], snd (g s))"

inductive_cases cstep_cases: "cstep H (ts, s) (ts', s')"

text \<open>Forgetting a handler's result, so that handlers of different types share one system.\<close>

definition detach :: "('s, 'a) async \<Rightarrow> ('s, unit) async" where
  "detach m = bindA m (\<lambda>_. Done ())"

section \<open>The guarantee judgement\<close>

text \<open>
  \<open>guar I G Q m\<close>: from states satisfying \<open>I\<close>, every atomic section of \<open>m\<close> changes the state
  only as \<open>G\<close> allows, whatever other programs did in between, and the result satisfies \<open>Q\<close>.
\<close>

inductive guar :: "('s \<Rightarrow> bool) \<Rightarrow> ('s \<Rightarrow> 's \<Rightarrow> bool) \<Rightarrow> ('a \<Rightarrow> bool) \<Rightarrow> ('s, 'a) async \<Rightarrow> bool"
  for I G Q where
  Done: "Q x \<Longrightarrow> guar I G Q (Done x)"
| Await: "(\<And>s. I s \<Longrightarrow> G s (snd (g s)) \<and> guar I G Q (fst (g s))) \<Longrightarrow> guar I G Q (Await g)"

inductive_simps guar_Done [simp]: "guar I G Q (Done x)"
inductive_simps guar_Await: "guar I G Q (Await g)"

lemma guar_bindA:
  assumes "guar I G R m" and "\<And>x. R x \<Longrightarrow> guar I G Q (f x)"
  shows "guar I G Q (bindA m f)"
  using assms(1)
proof (induction rule: guar.induct)
  case (Done x)
  then show ?case by (simp add: assms(2))
next
  case (Await g)
  then show ?case by (auto intro!: guar.Await)
qed

lemma guar_weaken: "guar I G R m \<Longrightarrow> (\<And>x. R x \<Longrightarrow> Q x) \<Longrightarrow> guar I G Q m"
  by (induction rule: guar.induct) (auto intro: guar.intros)

lemma guar_ret [guar_rules]: "Q (Inr x) \<Longrightarrow> guar I G Q (ret x)"
  by (simp add: ret_def)

lemma guar_throw [guar_rules]: "Q (Inl e) \<Longrightarrow> guar I G Q (throw e)"
  by (simp add: throw_def)

lemma map_sum_Inr_cases:
  assumes "map_sum f id r = Inr x"
  obtains "r = Inr x"
  using assms by (cases r) auto

text \<open>Results of handlers are described by a predicate on the returned value only.\<close>

definition onRet :: "('a \<Rightarrow> bool) \<Rightarrow> exn + 'a \<Rightarrow> bool" where
  "onRet P r = (case r of Inl _ \<Rightarrow> True | Inr x \<Rightarrow> P x)"

lemma onRet_simps [simp]: "onRet P (Inl e)" "onRet P (Inr x) = P x"
  by (simp_all add: onRet_def)

lemma guar_bindE [guar_rules]:
  assumes "guar I G (onRet R) m" and "\<And>x. R x \<Longrightarrow> guar I G (onRet Q) (f x)"
  shows "guar I G (onRet Q) (bindE m f)"
  unfolding bindE_def using assms
  by (auto intro!: guar_bindA [where R = "onRet R"] guar_throw split: sum.split)

lemma guar_tryCatch [guar_rules]:
  assumes "guar I G (onRet Q) m" and "\<And>e. guar I G (onRet Q) (h e)"
  shows "guar I G (onRet Q) (tryCatch m h)"
  unfolding tryCatch_def using assms
  by (auto intro!: guar_bindA [where R = "onRet Q"] guar_ret split: sum.split)

lemma guar_forEach [guar_rules]:
  assumes "\<And>x. x \<in> set xs \<Longrightarrow> guar I G (onRet (\<lambda>_. True)) (body x)"
  shows "guar I G (onRet (\<lambda>_. True)) (forEach xs body)"
  using assms by (induction xs) (auto intro!: guar_rules)

lemma guar_await_call [guar_rules]:
  assumes "\<And>s. I s \<Longrightarrow> G s (snd (f s))" and "\<And>s x. I s \<Longrightarrow> fst (f s) = Inr x \<Longrightarrow> Q x"
  shows "guar I G (onRet Q) (await_call f)"
  unfolding await_call_def using assms
  by (intro guar.Await) (auto simp: onRet_def split: sum.splits elim!: map_sum_Inr_cases)

lemma guar_sync [guar_rules]:
  assumes "\<And>s. I s \<Longrightarrow> G s (snd (f s))" and "\<And>s. I s \<Longrightarrow> Q (fst (f s))"
  shows "guar I G (onRet Q) (sync f)"
  unfolding sync_def using assms by (intro guar.Await) auto

lemma guar_detach: "guar I G Q m \<Longrightarrow> guar I G (\<lambda>_. True) (detach m)"
  unfolding detach_def by (rule guar_bindA [where R = Q]) auto

text \<open>A guarantee kept by every handler holds across every interleaving of them.\<close>

locale guarantee =
  fixes I :: "'s \<Rightarrow> bool" and G :: "'s \<Rightarrow> 's \<Rightarrow> bool" and H :: "('s, 'a) async set"
  assumes G_refl: "G s s"
    and G_trans: "G s t \<Longrightarrow> G t u \<Longrightarrow> G s u"
    and I_step: "I s \<Longrightarrow> G s t \<Longrightarrow> I t"
    and H_guar: "h \<in> H \<Longrightarrow> guar I G (\<lambda>_. True) h"
begin

lemma cstep_keeps:
  assumes "cstep H (ts, s) (ts', s')" and "I s" and "\<forall>t\<in>set ts. guar I G (\<lambda>_. True) t"
  shows "I s' \<and> G s s' \<and> (\<forall>t\<in>set ts'. guar I G (\<lambda>_. True) t)"
proof -
  from assms(1) show ?thesis
  proof (rule cstep_cases)
    fix h assume "h \<in> H" and "ts' = ts @ [h]" and "s' = s"
    then show ?thesis using assms(2,3) H_guar G_refl by auto
  next
    fix i g assume i: "i < length ts" "ts ! i = Await g" and eq: "ts' = ts[i := fst (g s)]" "s' = snd (g s)"
    then have "guar I G (\<lambda>_. True) (Await g)" using assms(3) by (metis nth_mem)
    then have "G s (snd (g s)) \<and> guar I G (\<lambda>_. True) (fst (g s))"
      using assms(2) by (simp add: guar_Await)
    then show ?thesis using eq assms(2,3) I_step
      by (auto dest!: set_update_subset_insert [THEN subsetD])
  qed
qed

lemma interleaving_keeps:
  assumes "(cstep H)\<^sup>*\<^sup>* ([], s) (ts, s')" and "I s"
  shows "I s' \<and> G s s'"
proof -
  have "I s' \<and> G s s' \<and> (\<forall>t\<in>set ts. guar I G (\<lambda>_. True) t)"
    using assms(1)
  proof (induction rule: rtranclp_induct2)
    case refl
    then show ?case using assms(2) G_refl by simp
  next
    case (step ts1 s1 ts2 s2)
    then show ?case using cstep_keeps [of ts1 s1 ts2 s2] G_trans by blast
  qed
  then show ?thesis by simp
qed

end

end
