(* ===== verification/Schema.thy ===== *)
theory Schema
  imports Pagination Async
begin

text \<open>
  The data model of \<open>prisma/schema.prisma\<close> and the interface of the generated Prisma client.
  Rows are records with the schema's columns; \<open>Decimal(10,2)\<close> columns are exact rationals,
  \<open>Int\<close> columns integers, \<open>DateTime\<close> columns milliseconds. The client is not part of the
  repository: it is the parameter \<open>'s prisma_api\<close>, one function per query the source issues,
  over an unspecified world \<open>'s\<close>. A call resolves with a value or rejects with a message.
\<close>

section \<open>Models\<close>

datatype Role = ADMIN | CUSTOMER

datatype OrderStatus = PENDING | WAITING_FOR_PAYMENT | PAID | COMPLETE | CANCELLED

record user_row =
  u_id :: string
  u_email :: string
  u_username :: string
  u_password :: string
  u_role :: Role
  u_tenantCode :: "string option"
  u_isDatabaseCreated :: bool
  u_createdAt :: int
  u_updatedAt :: int

record product_row =
  p_id :: string
  p_name :: string
  p_description :: "string option"
  p_price :: rat
  p_stock :: int
  p_createdAt :: int
  p_updatedAt :: int

record order_row =
  o_id :: string
  o_userId :: string
  o_status :: OrderStatus
  o_total :: rat
  o_paymentId :: "string option"
  o_transactionId :: "string option"
  o_createdAt :: int
  o_updatedAt :: int

record item_row =
  i_id :: string
  i_orderId :: string
  i_productId :: string
  i_quantity :: int
  i_price :: rat
  i_createdAt :: int
  i_updatedAt :: int

text \<open>
  The tables of one database. Primary keys index the rows; \<open>db_wf\<close> is what the keys and the
  foreign keys of \<open>order_items\<close> enforce.
\<close>

record db =
  products :: "string \<rightharpoonup> product_row"
  orders :: "string \<rightharpoonup> order_row"
  items :: "string \<rightharpoonup> item_row"

definition db_wf :: "db \<Rightarrow> bool" where
  "db_wf d \<longleftrightarrow>
     (\<forall>i p. products d i = Some p \<longrightarrow> p_id p = i) \<and>
     (\<forall>i r. orders d i = Some r \<longrightarrow> o_id r = i) \<and>
     (\<forall>i r. items d i = Some r \<longrightarrow>
        i_id r = i \<and> i_orderId r \<in> dom (orders d) \<and> i_productId r \<in> dom (products d))"

definition order_items :: "db \<Rightarrow> string \<Rightarrow> item_row set" where
  "order_items d oid = {r. \<exists>i. items d i = Some r \<and> i_orderId r = oid}"

section \<open>The Prisma client\<close>

text \<open>\<open>new PrismaClient()\<close> and \<open>new PrismaClient({datasources: {db: {url}}})\<close>.\<close>

datatype prisma_client = DefaultClient | UrlClient string

type_synonym ('s, 'a) call = "'s \<Rightarrow> (string + 'a) \<times> 's"

text \<open>\<open>data\<close> of an order update; an absent key leaves the column alone.\<close>

record order_data =
  od_status :: "OrderStatus option"
  od_total :: "rat option"
  od_paymentId :: "string option"
  od_transactionId :: "string option"

definition no_order_data :: order_data where
  "no_order_data = \<lparr>od_status = None, od_total = None, od_paymentId = None, od_transactionId = None\<rparr>"

record product_data =
  pd_name :: "string option"
  pd_description :: "string option option"
  pd_price :: "rat option"
  pd_stock :: "int option"

text \<open>\<open>select: {id, name, description, price}\<close>.\<close>

record product_info =
  pi_id :: string
  pi_name :: string
  pi_description :: "string option"
  pi_price :: rat

type_synonym item_full = "item_row \<times> product_info"
type_synonym order_full = "order_row \<times> item_full list"

record 's prisma_api =
  order_create :: "prisma_client \<Rightarrow> string \<Rightarrow> OrderStatus \<Rightarrow> rat \<Rightarrow> ('s, order_row) call"
  order_findUnique :: "prisma_client \<Rightarrow> string \<Rightarrow> ('s, order_row option) call"
  order_findUnique_items :: "prisma_client \<Rightarrow> string \<Rightarrow> ('s, (order_row \<times> item_row list) option) call"
  order_findFirst_full :: "prisma_client \<Rightarrow> string \<Rightarrow> string \<Rightarrow> ('s, order_full option) call"
  order_findMany_full :: "prisma_client \<Rightarrow> string \<Rightarrow> ('s, order_full list) call"
  order_update :: "prisma_client \<Rightarrow> string \<Rightarrow> order_data \<Rightarrow> ('s, order_row) call"
  order_update_full :: "prisma_client \<Rightarrow> string \<Rightarrow> order_data \<Rightarrow> ('s, order_full) call"
  item_findFirst :: "prisma_client \<Rightarrow> string \<Rightarrow> string \<Rightarrow> ('s, item_row option) call"
  item_findMany :: "prisma_client \<Rightarrow> string \<Rightarrow> ('s, item_row list) call"
  item_create :: "prisma_client \<Rightarrow> string \<Rightarrow> string \<Rightarrow> int \<Rightarrow> rat \<Rightarrow> ('s, item_row \<times> product_row) call"
  item_update_quantity :: "prisma_client \<Rightarrow> string \<Rightarrow> int \<Rightarrow> ('s, item_row \<times> product_row) call"
  product_findUnique :: "prisma_client \<Rightarrow> string \<Rightarrow> ('s, product_row option) call"
  product_decrement :: "prisma_client \<Rightarrow> string \<Rightarrow> int \<Rightarrow> ('s, product_row) call"
  product_create :: "prisma_client \<Rightarrow> string \<Rightarrow> string option \<Rightarrow> rat \<Rightarrow> int \<Rightarrow> ('s, product_row) call"
  product_count :: "prisma_client \<Rightarrow> ('s, nat) call"
  product_findMany :: "prisma_client \<Rightarrow> jsnum \<Rightarrow> jsnum \<Rightarrow> ('s, product_row list) call"
  product_update :: "prisma_client \<Rightarrow> string \<Rightarrow> product_data \<Rightarrow> ('s, product_row) call"
  product_delete :: "prisma_client \<Rightarrow> string \<Rightarrow> ('s, product_row) call"
  mkDecimal :: "rat \<Rightarrow> rat"

text \<open>\<open>data\<close> of \<open>user.create\<close> and \<open>user.update\<close>.\<close>

record user_new =
  un_email :: string
  un_username :: string
  un_password :: string
  un_role :: Role
  un_tenantCode :: "string option"
  un_isDatabaseCreated :: bool

record user_data =
  ud_email :: "string option"
  ud_username :: "string option"
  ud_password :: "string option"
  ud_role :: "Role option"
  ud_isDatabaseCreated :: "bool option"

text \<open>
  The queries on \<open>users\<close>, by the \<open>where\<close> clause they use; \<open>user_findMany_ready\<close> selects the
  tenant codes of the users with a tenant code whose database is created.
\<close>

record 's user_api =
  user_findFirst_login :: "prisma_client \<Rightarrow> string \<Rightarrow> string \<Rightarrow> ('s, user_row option) call"
  user_findFirst_tenant :: "prisma_client \<Rightarrow> string \<Rightarrow> ('s, user_row option) call"
  user_create :: "prisma_client \<Rightarrow> user_new \<Rightarrow> ('s, user_row) call"
  user_findMany :: "prisma_client \<Rightarrow> ('s, user_row list) call"
  user_findMany_ready :: "prisma_client \<Rightarrow> ('s, string list) call"
  user_findUnique_id :: "prisma_client \<Rightarrow> string \<Rightarrow> ('s, user_row option) call"
  user_findUnique_email :: "prisma_client \<Rightarrow> string \<Rightarrow> ('s, user_row option) call"
  user_findUnique_username :: "prisma_client \<Rightarrow> string \<Rightarrow> ('s, user_row option) call"
  user_update :: "prisma_client \<Rightarrow> string \<Rightarrow> user_data \<Rightarrow> ('s, user_row) call"
  user_delete :: "prisma_client \<Rightarrow> string \<Rightarrow> ('s, user_row) call"

section \<open>What the client promises\<close>

text \<open>
  \<open>Decimal(10,2)\<close>: PostgreSQL stores a numeric rounded to two places, halves away from zero.
\<close>

definition round2 :: "rat \<Rightarrow> rat" where
  "round2 x = (if 0 \<le> x then of_int \<lfloor>x * 100 + 1/2\<rfloor> / 100 else - (of_int \<lfloor>- x * 100 + 1/2\<rfloor> / 100))"

definition upd_opt :: "'a option \<Rightarrow> 'a \<Rightarrow> 'a" where
  "upd_opt v x = (case v of None \<Rightarrow> x | Some y \<Rightarrow> y)"

text \<open>The row after \<open>order.update\<close>, up to its \<open>updatedAt\<close> time stamp \<open>t\<close>.\<close>

definition apply_order_data :: "order_data \<Rightarrow> int \<Rightarrow> order_row \<Rightarrow> order_row" where
  "apply_order_data u t r = r\<lparr>
     o_status := upd_opt (od_status u) (o_status r),
     o_total := upd_opt (map_option round2 (od_total u)) (o_total r),
     o_paymentId := (case od_paymentId u of None \<Rightarrow> o_paymentId r | Some v \<Rightarrow> Some v),
     o_transactionId := (case od_transactionId u of None \<Rightarrow> o_transactionId r | Some v \<Rightarrow> Some v),
     o_updatedAt := t\<rparr>"

definition apply_product_data :: "product_data \<Rightarrow> int \<Rightarrow> product_row \<Rightarrow> product_row" where
  "apply_product_data u t p = p\<lparr>
     p_name := upd_opt (pd_name u) (p_name p),
     p_description := upd_opt (pd_description u) (p_description p),
     p_price := upd_opt (map_option round2 (pd_price u)) (p_price p),
     p_stock := upd_opt (pd_stock u) (p_stock p),
     p_updatedAt := t\<rparr>"

definition apply_user_data :: "user_data \<Rightarrow> int \<Rightarrow> user_row \<Rightarrow> user_row" where
  "apply_user_data w t u = u\<lparr>
     u_email := upd_opt (ud_email w) (u_email u),
     u_username := upd_opt (ud_username w) (u_username u),
     u_password := upd_opt (ud_password w) (u_password u),
     u_role := upd_opt (ud_role w) (u_role u),
     u_isDatabaseCreated := upd_opt (ud_isDatabaseCreated w) (u_isDatabaseCreated u),
     u_updatedAt := t\<rparr>"

definition info_of :: "product_row \<Rightarrow> product_info" where
  "info_of p = \<lparr>pi_id = p_id p, pi_name = p_name p, pi_description = p_description p, pi_price = p_price p\<rparr>"

text \<open>\<open>xs\<close> lists the items of order \<open>oid\<close>, each once.\<close>

definition lists_items :: "db \<Rightarrow> string \<Rightarrow> item_row list \<Rightarrow> bool" where
  "lists_items d oid xs \<longleftrightarrow> distinct (map i_id xs) \<and> set xs = order_items d oid"

definition full_of :: "db \<Rightarrow> order_row \<Rightarrow> order_full \<Rightarrow> bool" where
  "full_of d r f \<longleftrightarrow> fst f = r \<and> lists_items d (o_id r) (map fst (snd f)) \<and>
     (\<forall>x\<in>set (snd f). \<exists>p. products d (i_productId (fst x)) = Some p \<and> snd x = info_of p)"

text \<open>
  A query never changes a table and, when it resolves, answers from the tables. A write either
  rejects and changes nothing, or resolves and makes exactly the described change in the one
  database its client is connected to.
\<close>

definition query_ok ::
  "('s \<Rightarrow> bool) \<Rightarrow> ('s \<Rightarrow> 'k \<Rightarrow> 'd) \<Rightarrow> 'k \<Rightarrow> ('s, 'a) call \<Rightarrow> ('d \<Rightarrow> 'a \<Rightarrow> bool) \<Rightarrow> bool" where
  "query_ok Inv T k f A \<longleftrightarrow> (\<forall>s. Inv s \<longrightarrow> Inv (snd (f s)) \<and> T (snd (f s)) = T s \<and>
     (\<forall>x. fst (f s) = Inr x \<longrightarrow> A (T s k) x))"

definition write_ok ::
  "('s \<Rightarrow> bool) \<Rightarrow> ('s \<Rightarrow> 'k \<Rightarrow> 'd) \<Rightarrow> 'k \<Rightarrow> ('s, 'a) call \<Rightarrow> ('d \<Rightarrow> 'a \<Rightarrow> 'd \<Rightarrow> bool) \<Rightarrow> bool" where
  "write_ok Inv T k f R \<longleftrightarrow> (\<forall>s. Inv s \<longrightarrow> Inv (snd (f s)) \<and>
     (case fst (f s) of
        Inl _ \<Rightarrow> T (snd (f s)) = T s
      | Inr x \<Rightarrow> \<exists>d. R (T s k) x d \<and> T (snd (f s)) = (T s)(k := d)))"

locale prisma_store =
  fixes P :: "'s prisma_api" and Inv :: "'s \<Rightarrow> bool" and T :: "'s \<Rightarrow> 'k \<Rightarrow> db"
    and loc :: "prisma_client \<Rightarrow> 'k"
  assumes tables_wf: "Inv s \<Longrightarrow> db_wf (T s k)"
    and order_create_ok: "write_ok Inv T (loc c) (order_create P c u st t)
      (\<lambda>d r d'. orders d (o_id r) = None \<and> o_userId r = u \<and> o_status r = st \<and> o_total r = round2 t \<and>
         o_paymentId r = None \<and> o_transactionId r = None \<and> d' = d\<lparr>orders := (orders d)(o_id r \<mapsto> r)\<rparr>)"
    and order_findUnique_ok: "query_ok Inv T (loc c) (order_findUnique P c oid) (\<lambda>d x. x = orders d oid)"
    and order_findUnique_items_ok: "query_ok Inv T (loc c) (order_findUnique_items P c oid)
      (\<lambda>d x. case x of None \<Rightarrow> orders d oid = None
         | Some (r, xs) \<Rightarrow> orders d oid = Some r \<and> lists_items d oid xs)"
    and order_findFirst_full_ok: "query_ok Inv T (loc c) (order_findFirst_full P c oid u)
      (\<lambda>d x. case x of None \<Rightarrow> (\<forall>r. orders d oid = Some r \<longrightarrow> o_userId r \<noteq> u)
         | Some f \<Rightarrow> \<exists>r. orders d oid = Some r \<and> o_userId r = u \<and> full_of d r f)"
    and order_findMany_full_ok: "query_ok Inv T (loc c) (order_findMany_full P c u)
      (\<lambda>d xs. distinct (map (o_id \<circ> fst) xs) \<and>
         fst ` set xs = {r. \<exists>i. orders d i = Some r \<and> o_userId r = u} \<and>
         (\<forall>f\<in>set xs. full_of d (fst f) f) \<and> sorted_wrt (\<ge>) (map (o_createdAt \<circ> fst) xs))"
    and order_update_ok: "write_ok Inv T (loc c) (order_update P c oid w)
      (\<lambda>d r' d'. \<exists>r t. orders d oid = Some r \<and> r' = apply_order_data w t r \<and>
         d' = d\<lparr>orders := (orders d)(oid \<mapsto> r')\<rparr>)"
    and order_update_full_ok: "write_ok Inv T (loc c) (order_update_full P c oid w)
      (\<lambda>d f d'. \<exists>r t. orders d oid = Some r \<and> fst f = apply_order_data w t r \<and>
         d' = d\<lparr>orders := (orders d)(oid \<mapsto> fst f)\<rparr> \<and> full_of d' (fst f) f)"
    and item_findFirst_ok: "query_ok Inv T (loc c) (item_findFirst P c oid pid)
      (\<lambda>d x. case x of None \<Rightarrow> (\<forall>r\<in>order_items d oid. i_productId r \<noteq> pid)
         | Some r \<Rightarrow> r \<in> order_items d oid \<and> i_productId r = pid)"
    and item_findMany_ok: "query_ok Inv T (loc c) (item_findMany P c oid) (\<lambda>d xs. lists_items d oid xs)"
    and item_create_ok: "write_ok Inv T (loc c) (item_create P c oid pid q pr)
      (\<lambda>d x d'. case x of (r, p) \<Rightarrow> items d (i_id r) = None \<and> oid \<in> dom (orders d) \<and>
         products d pid = Some p \<and> i_orderId r = oid \<and> i_productId r = pid \<and> i_quantity r = q \<and>
         i_price r = round2 pr \<and> d' = d\<lparr>items := (items d)(i_id r \<mapsto> r)\<rparr>)"
    and item_update_ok: "write_ok Inv T (loc c) (item_update_quantity P c iid q)
      (\<lambda>d x d'. case x of (r', p) \<Rightarrow> \<exists>r t. items d iid = Some r \<and>
         r' = r\<lparr>i_quantity := q, i_updatedAt := t\<rparr> \<and> products d (i_productId r) = Some p \<and>
         d' = d\<lparr>items := (items d)(iid \<mapsto> r')\<rparr>)"
    and product_findUnique_ok: "query_ok Inv T (loc c) (product_findUnique P c pid) (\<lambda>d x. x = products d pid)"
    and product_decrement_ok: "write_ok Inv T (loc c) (product_decrement P c pid q)
      (\<lambda>d p' d'. \<exists>p t. products d pid = Some p \<and> p' = p\<lparr>p_stock := p_stock p - q, p_updatedAt := t\<rparr> \<and>
         d' = d\<lparr>products := (products d)(pid \<mapsto> p')\<rparr>)"
    and product_create_ok: "write_ok Inv T (loc c) (product_create P c nm ds pr sk)
      (\<lambda>d p d'. products d (p_id p) = None \<and> p_name p = nm \<and> p_description p = ds \<and>
         p_price p = round2 pr \<and> p_stock p = sk \<and> d' = d\<lparr>products := (products d)(p_id p \<mapsto> p)\<rparr>)"
    and product_count_ok: "query_ok Inv T (loc c) (product_count P c) (\<lambda>d n. n = card (dom (products d)))"
    and product_findMany_ok: "query_ok Inv T (loc c) (product_findMany P c (Num (of_nat skp)) (Num (of_nat tk)))
      (\<lambda>d xs. \<exists>ys. xs = take tk (drop skp ys) \<and> distinct (map p_id ys) \<and> set ys = ran (products d) \<and>
         sorted_wrt (\<ge>) (map p_createdAt ys))"
    and product_update_ok: "write_ok Inv T (loc c) (product_update P c pid pw)
      (\<lambda>d p' d'. \<exists>p t. products d pid = Some p \<and> p' = apply_product_data pw t p \<and>
         d' = d\<lparr>products := (products d)(pid \<mapsto> p')\<rparr>)"
    and product_delete_ok: "write_ok Inv T (loc c) (product_delete P c pid)
      (\<lambda>d p d'. products d pid = Some p \<and> (\<forall>i r. items d i = Some r \<longrightarrow> i_productId r \<noteq> pid) \<and>
         d' = d\<lparr>products := (products d)(pid := None)\<rparr>)"

end
