(* ===== verification/Tenancy.thy ===== *)
theory Tenancy
  imports Schema
begin

text \<open>
  Tenant routing: the request and its authenticated user, \<open>TenantContextService\<close>,
  \<open>TenantInterceptor\<close>, the \<open>TenantCode\<close> parameter decorator, \<open>DatabaseManagerService\<close> and the
  lazily bound client of \<open>PrismaService\<close>. \<open>DatabaseManagerService.connections\<close> is a map from
  keys to clients; the parser behind \<open>new URL\<close> is a parameter of the configuration.
\<close>

section \<open>Requests\<close>

text \<open>The user that \<open>JwtStrategy.validate\<close> puts on the request.\<close>

record auth_user =
  au_id :: string
  au_email :: string
  au_username :: string
  au_role :: Role
  au_tenantCode :: "string option"

record request =
  rq_ip :: string
  rq_params :: "(string \<times> string) list"
  rq_query :: "(string \<times> string) list"
  rq_user :: "auth_user option"

definition truthy :: "string option \<Rightarrow> bool" where
  "truthy v = (v \<noteq> None \<and> v \<noteq> Some [])"

section \<open>Tenant context\<close>

type_synonym tenant_context = "string option"

definition setTenantCode :: "string option \<Rightarrow> tenant_context \<Rightarrow> tenant_context" where
  "setTenantCode code ctx = code"

definition getTenantCode :: "tenant_context \<Rightarrow> string option" where
  "getTenantCode ctx = ctx"

definition hasTenant :: "tenant_context \<Rightarrow> bool" where
  "hasTenant ctx = (ctx \<noteq> None)"

text \<open>\<open>TenantInterceptor.intercept\<close>: path, then query, then the administrator's own tenant.\<close>

definition tenantIntercept :: "request \<Rightarrow> tenant_context \<Rightarrow> tenant_context" where
  "tenantIntercept req ctx =
    (let pathTenantCode = map_of (rq_params req) ''tenantCode'';
         queryTenantCode = map_of (rq_query req) ''tenantCode''
     in if truthy pathTenantCode then setTenantCode pathTenantCode ctx
        else if truthy queryTenantCode then setTenantCode queryTenantCode ctx
        else (case rq_user req of
            None \<Rightarrow> ctx
          | Some u \<Rightarrow> if au_role u = ADMIN \<and> truthy (au_tenantCode u) then setTenantCode (au_tenantCode u) ctx
                      else ctx))"

text \<open>The \<open>@TenantCode()\<close> parameter decorator.\<close>

definition tenantCodeParam :: "request \<Rightarrow> exn + string" where
  "tenantCodeParam req =
    (case map_of (rq_params req) ''tenantCode'' of
       Some (c # cs) \<Rightarrow> Inr (c # cs)
     | _ \<Rightarrow> (case map_of (rq_query req) ''tenantCode'' of
         Some (c # cs) \<Rightarrow> Inr (c # cs)
       | _ \<Rightarrow> Inl (BadRequestException ''tenantCode path parameter is required'')))"

section \<open>Database manager\<close>

text \<open>The parts of a parsed URL that the source reads.\<close>

record url_parts =
  url_protocol :: string
  url_username :: string
  url_password :: string
  url_host :: string

record config =
  cf_DATABASE_URL :: "string option"
  cf_DATABASE_PREFIX :: "string option"
  cf_parseUrl :: "string \<Rightarrow> url_parts option"

text \<open>\<open>v || dflt\<close> on an environment variable.\<close>

definition env_or :: "string option \<Rightarrow> string \<Rightarrow> string" where
  "env_or v dflt = (case v of Some (c # cs) \<Rightarrow> c # cs | _ \<Rightarrow> dflt)"

definition databasePrefix :: "config \<Rightarrow> string" where
  "databasePrefix cfg = env_or (cf_DATABASE_PREFIX cfg) ''tenant''"

text \<open>
  The fallback of \<open>extractBaseUrl\<close>, the match of \<open>/^(postgresql:\/\/[^\/]+)\//\<close>.
\<close>

definition baseUrlMatch :: "string \<Rightarrow> string option" where
  "baseUrlMatch dbUrl =
    (let scheme = ''postgresql://''; rest = drop (length scheme) dbUrl;
         host = takeWhile (\<lambda>c. c \<noteq> CHR ''/'') rest
     in if startsWith dbUrl scheme \<and> host \<noteq> [] \<and> dropWhile (\<lambda>c. c \<noteq> CHR ''/'') rest \<noteq> []
        then Some (scheme @ host) else None)"

definition extractBaseUrl :: "config \<Rightarrow> string \<Rightarrow> string" where
  "extractBaseUrl cfg dbUrl =
    (case cf_parseUrl cfg dbUrl of
       Some u \<Rightarrow> url_protocol u @ ''//'' @ url_username u @
         (if url_password u \<noteq> [] then CHR '':'' # url_password u else []) @ CHR ''@'' # url_host u
     | None \<Rightarrow> (case baseUrlMatch dbUrl of Some b \<Rightarrow> b | None \<Rightarrow> dbUrl))"

definition baseDatabaseUrl :: "config \<Rightarrow> string" where
  "baseDatabaseUrl cfg = extractBaseUrl cfg (env_or (cf_DATABASE_URL cfg) [])"

definition queryParams :: "config \<Rightarrow> string" where
  "queryParams cfg = (let originalUrl = env_or (cf_DATABASE_URL cfg) [] in
     if CHR ''?'' \<in> set originalUrl then from_char (CHR ''?'') originalUrl else [])"

definition databaseName :: "config \<Rightarrow> string \<Rightarrow> string" where
  "databaseName cfg tenantCode = databasePrefix cfg @ toLowerCase tenantCode"

definition databaseUrl :: "config \<Rightarrow> string \<Rightarrow> string" where
  "databaseUrl cfg tenantCode = baseDatabaseUrl cfg @ CHR ''/'' # databaseName cfg tenantCode @ queryParams cfg"

definition getDatabaseUrl :: "config \<Rightarrow> string option \<Rightarrow> string" where
  "getDatabaseUrl cfg tenantCode =
    (case tenantCode of
       Some (c # cs) \<Rightarrow> databaseUrl cfg (c # cs)
     | _ \<Rightarrow> env_or (cf_DATABASE_URL cfg) ''default'')"

type_synonym connections = "string \<rightharpoonup> prisma_client"

definition defaultKey :: string where "defaultKey = ''_default_''"

definition getDefaultClient :: "connections \<Rightarrow> prisma_client \<times> connections" where
  "getDefaultClient cs =
    (case cs defaultKey of
       None \<Rightarrow> (DefaultClient, cs(defaultKey \<mapsto> DefaultClient))
     | Some c \<Rightarrow> (c, cs))"

definition getClient :: "config \<Rightarrow> string option \<Rightarrow> connections \<Rightarrow> prisma_client \<times> connections" where
  "getClient cfg tenantCode cs =
    (case tenantCode of
       Some (a # as) \<Rightarrow>
         (case cs (a # as) of
            Some c \<Rightarrow> (c, cs)
          | None \<Rightarrow> let c = UrlClient (databaseUrl cfg (a # as)) in (c, cs(a # as \<mapsto> c)))
     | _ \<Rightarrow> getDefaultClient cs)"

text \<open>\<open>disconnectTenant\<close> and \<open>onModuleDestroy\<close>: the entries left once the clients are closed.\<close>

definition disconnectTenant :: "string \<Rightarrow> connections \<Rightarrow> connections" where
  "disconnectTenant tenantCode cs = (case cs tenantCode of None \<Rightarrow> cs | Some _ \<Rightarrow> cs(tenantCode := None))"

definition closeAll :: "connections \<Rightarrow> connections" where
  "closeAll cs = Map.empty"

text \<open>
  The manager as an object of a process: its configuration and where its connections live in
  the world.
\<close>

record 's manager =
  mg_config :: config
  mg_get :: "'s \<Rightarrow> connections"
  mg_put :: "connections \<Rightarrow> 's \<Rightarrow> 's"

definition clientFor :: "'s manager \<Rightarrow> string option \<Rightarrow> ('s, prisma_client) handler" where
  "clientFor M tenantCode = sync (\<lambda>s.
     case getClient (mg_config M) tenantCode (mg_get M s) of (c, cs) \<Rightarrow> (c, mg_put M cs s))"

definition defaultClient :: "'s manager \<Rightarrow> ('s, prisma_client) handler" where
  "defaultClient M = sync (\<lambda>s. case getDefaultClient (mg_get M s) of (c, cs) \<Rightarrow> (c, mg_put M cs s))"

section \<open>The request-scoped client\<close>

text \<open>
  \<open>PrismaService.client\<close>: bound on first use from the tenant context, then kept for the
  request. The state is \<open>_client\<close> and the manager's connections.
\<close>

definition prismaServiceClient ::
  "config \<Rightarrow> tenant_context \<Rightarrow> prisma_client option \<times> connections \<Rightarrow> prisma_client \<times> prisma_client option \<times> connections" where
  "prismaServiceClient cfg ctx st =
    (case st of
       (Some c, cs) \<Rightarrow> (c, Some c, cs)
     | (None, cs) \<Rightarrow> (case getClient cfg (getTenantCode ctx) cs of (c, cs') \<Rightarrow> (c, Some c, cs')))"

section \<open>Facts\<close>

text \<open>Every connection is the one its key asks for.\<close>

definition conns_ok :: "config \<Rightarrow> connections \<Rightarrow> bool" where
  "conns_ok cfg cs \<longleftrightarrow> (\<forall>k c. cs k = Some c \<longrightarrow> k \<noteq> defaultKey \<longrightarrow> c = UrlClient (databaseUrl cfg k))"

lemma conns_ok_empty: "conns_ok cfg Map.empty"
  by (simp add: conns_ok_def)

lemma getDefaultClient_ok: "conns_ok cfg cs \<Longrightarrow> conns_ok cfg (snd (getDefaultClient cs))"
  by (auto simp: getDefaultClient_def conns_ok_def split: option.splits)

lemma getClient_ok: "conns_ok cfg cs \<Longrightarrow> conns_ok cfg (snd (getClient cfg tc cs))"
  by (auto simp: getClient_def conns_ok_def Let_def getDefaultClient_ok [unfolded conns_ok_def]
      split: option.splits list.splits)

lemma disconnectTenant_ok: "conns_ok cfg cs \<Longrightarrow> conns_ok cfg (disconnectTenant tc cs)"
  by (auto simp: disconnectTenant_def conns_ok_def split: option.splits)

lemma getClient_tenant:
  assumes "conns_ok cfg cs" and "tc \<noteq> []" and "tc \<noteq> defaultKey"
  shows "fst (getClient cfg (Some tc) cs) = UrlClient (databaseUrl cfg tc)"
  using assms by (cases tc) (auto simp: getClient_def conns_ok_def Let_def split: option.splits)

lemma databaseUrl_eq_iff:
  "databaseUrl cfg t1 = databaseUrl cfg t2 \<longleftrightarrow> toLowerCase t1 = toLowerCase t2"
  by (simp add: databaseUrl_def databaseName_def)

text \<open>
  Once a request has used its client, later uses see the same client whatever the connections
  and the tenant context have become.
\<close>

lemma prismaServiceClient_stable:
  assumes "prismaServiceClient cfg ctx st = (c, st')"
  shows "fst (prismaServiceClient cfg ctx' (fst st', cs')) = c"
  using assms by (cases st; cases "fst st") (auto simp: prismaServiceClient_def split: prod.splits)

end
