(* ===== verification/JsJson.thy ===== *)
theory JsJson
  imports JsString
begin

text \<open>
  \<open>JSON.stringify\<close> and \<open>JSON.parse\<close> on the values the program serialises: strings, integers,
  booleans, \<open>null\<close>, arrays and objects (as lists of properties in enumeration order). The parser
  is a recursive descent with fuel; \<open>json_parse\<close> gives it the length of the text, which
  \<open>json_roundtrip\<close> shows to be enough for every serialised value.
\<close>

datatype json =
    JNull
  | JBool bool
  | JInt int
  | JStr string
  | JArr "json list"
  | JObj "(string \<times> json) list"

section \<open>Serialisation\<close>

definition dquote :: char where "dquote = CHR 0x22"
definition backslash :: char where "backslash = CHR 0x5C"

definition hex_digit :: "nat \<Rightarrow> char" where
  "hex_digit n = (if n < 10 then char_of (48 + n) else char_of (87 + n))"

definition esc_char :: "char \<Rightarrow> string" where
  "esc_char c =
    (if c = dquote \<or> c = backslash then [backslash, c]
     else if c = CHR 0x08 then [backslash, CHR ''b'']
     else if c = CHR 0x0C then [backslash, CHR ''f'']
     else if c = CHR 0x0A then [backslash, CHR ''n'']
     else if c = CHR 0x0D then [backslash, CHR ''r'']
     else if c = CHR 0x09 then [backslash, CHR ''t'']
     else if of_char c < (32 :: nat) then
       backslash # ''u00'' @ [hex_digit (of_char c div 16), hex_digit (of_char c mod 16)]
     else [c])"

lemma esc_char_code [code]:
  "esc_char c =
    (if digit6 c \<and> c \<noteq> backslash then [c]
     else if c = dquote \<or> c = backslash then [backslash, c]
     else if digit5 c \<or> digit7 c then [c]
     else if c = CHR 0x08 then [backslash, CHR ''b'']
     else if c = CHR 0x0C then [backslash, CHR ''f'']
     else if c = CHR 0x0A then [backslash, CHR ''n'']
     else if c = CHR 0x0D then [backslash, CHR ''r'']
     else if c = CHR 0x09 then [backslash, CHR ''t'']
     else backslash # ''u00'' @ [hex_digit (of_char c div 16), hex_digit (of_char c mod 16)])"
  unfolding esc_char_def control_bits by (cases c) (auto simp: dquote_def backslash_def)

definition json_quote :: "string \<Rightarrow> string" where
  "json_quote s = dquote # concat (map esc_char s) @ [dquote]"

fun join_comma :: "string list \<Rightarrow> string" where
  "join_comma [] = []"
| "join_comma [x] = x"
| "join_comma (x # y # xs) = x @ CHR '','' # join_comma (y # xs)"

fun stringify :: "json \<Rightarrow> string" where
  "stringify JNull = ''null''"
| "stringify (JBool b) = (if b then ''true'' else ''false'')"
| "stringify (JInt i) = show_int i"
| "stringify (JStr s) = json_quote s"
| "stringify (JArr js) = CHR ''['' # join_comma (map stringify js) @ '']''"
| "stringify (JObj kvs) =
     CHR ''{'' # join_comma (map (\<lambda>(k, v). json_quote k @ CHR '':'' # stringify v) kvs) @ ''}''"

section \<open>Parsing\<close>

definition hex_val :: "char \<Rightarrow> nat option" where
  "hex_val c = (let n = of_char c in
     if 48 \<le> n \<and> n \<le> 57 then Some (n - 48)
     else if 97 \<le> n \<and> n \<le> 102 then Some (n - 87)
     else if 65 \<le> n \<and> n \<le> 70 then Some (n - 55) else None)"

definition unescape :: "char \<Rightarrow> char option" where
  "unescape e =
    (if e = dquote \<or> e = backslash \<or> e = CHR ''/'' then Some e
     else if e = CHR ''b'' then Some (CHR 0x08)
     else if e = CHR ''f'' then Some (CHR 0x0C)
     else if e = CHR ''n'' then Some (CHR 0x0A)
     else if e = CHR ''r'' then Some (CHR 0x0D)
     else if e = CHR ''t'' then Some (CHR 0x09) else None)"

text \<open>A \<open>\u00xy\<close> escape; code units beyond \<open>0xFF\<close> are outside the character range of the model.\<close>

definition unicode_escape :: "string \<Rightarrow> (char \<times> string) option" where
  "unicode_escape s = (case s of
      a # b # x # y # r \<Rightarrow>
        (case (hex_val x, hex_val y) of
           (Some h, Some l) \<Rightarrow> if a = CHR ''0'' \<and> b = CHR ''0'' then Some (char_of (16 * h + l), r) else None
         | _ \<Rightarrow> None)
    | _ \<Rightarrow> None)"

lemma unicode_escape_length: "unicode_escape s = Some (c, r) \<Longrightarrow> length r < length s"
  by (auto simp: unicode_escape_def split: list.splits option.splits if_splits)

text \<open>The characters of a string literal up to and including its closing quote.\<close>

function parse_chars :: "string \<Rightarrow> (string \<times> string) option" where
  "parse_chars [] = None"
| "parse_chars (c # s) =
    (if c = dquote then Some ([], s)
     else if c = backslash then
       (case s of
          [] \<Rightarrow> None
        | e # r \<Rightarrow>
            if e = CHR ''u'' then
              (case unicode_escape r of
                 None \<Rightarrow> None
               | Some (d, r') \<Rightarrow> map_option (apfst (Cons d)) (parse_chars r'))
            else
              (case unescape e of
                 None \<Rightarrow> None
               | Some d \<Rightarrow> map_option (apfst (Cons d)) (parse_chars r)))
     else if of_char c < (32 :: nat) then None
     else map_option (apfst (Cons c)) (parse_chars s))"
  by pat_completeness auto
termination
  by (relation "measure length") (auto dest!: unicode_escape_length)

definition is_json_space :: "char \<Rightarrow> bool" where
  "is_json_space c = (c = CHR 0x20 \<or> c = CHR 0x09 \<or> c = CHR 0x0A \<or> c = CHR 0x0D)"

abbreviation "skip \<equiv> dropWhile is_json_space"

definition parse_int :: "string \<Rightarrow> (json \<times> string) option" where
  "parse_int s =
    (let neg = (s \<noteq> [] \<and> hd s = CHR ''-''); u = (if neg then tl s else s); ds = takeWhile is_digit u in
     if ds = [] \<or> (hd ds = CHR ''0'' \<and> tl ds \<noteq> []) then None
     else Some (JInt (if neg then - int (digits_val ds) else int (digits_val ds)), dropWhile is_digit u))"

fun parse_value :: "nat \<Rightarrow> string \<Rightarrow> (json \<times> string) option"
  and parse_elems :: "nat \<Rightarrow> string \<Rightarrow> (json list \<times> string) option"
  and parse_members :: "nat \<Rightarrow> string \<Rightarrow> ((string \<times> json) list \<times> string) option" where
  "parse_value 0 s = None"
| "parse_value (Suc n) s =
    (case skip s of
       [] \<Rightarrow> None
     | c # r \<Rightarrow>
        if startsWith (c # r) ''null'' then Some (JNull, drop 4 (c # r))
        else if startsWith (c # r) ''true'' then Some (JBool True, drop 4 (c # r))
        else if startsWith (c # r) ''false'' then Some (JBool False, drop 5 (c # r))
        else if c = dquote then map_option (apfst JStr) (parse_chars r)
        else if c = CHR ''['' then
          (case skip r of
             [] \<Rightarrow> None
           | e # r' \<Rightarrow> if e = CHR '']'' then Some (JArr [], r')
                      else map_option (apfst JArr) (parse_elems n (e # r')))
        else if c = CHR ''{'' then
          (case skip r of
             [] \<Rightarrow> None
           | e # r' \<Rightarrow> if e = CHR ''}'' then Some (JObj [], r')
                      else map_option (apfst JObj) (parse_members n (e # r')))
        else parse_int (c # r))"
| "parse_elems 0 s = None"
| "parse_elems (Suc n) s =
    (case parse_value n s of
       None \<Rightarrow> None
     | Some (v, r) \<Rightarrow>
        (case skip r of
           [] \<Rightarrow> None
         | c # r' \<Rightarrow> if c = CHR '']'' then Some ([v], r')
                    else if c = CHR '','' then map_option (apfst (Cons v)) (parse_elems n r')
                    else None))"
| "parse_members 0 s = None"
| "parse_members (Suc n) s =
    (case skip s of
       [] \<Rightarrow> None
     | c # r \<Rightarrow>
        if c \<noteq> dquote then None
        else (case parse_chars r of
           None \<Rightarrow> None
         | Some (k, r1) \<Rightarrow>
            (case skip r1 of
               [] \<Rightarrow> None
             | e # r2 \<Rightarrow>
                if e \<noteq> CHR '':'' then None
                else (case parse_value n r2 of
                   None \<Rightarrow> None
                 | Some (v, r3) \<Rightarrow>
                    (case skip r3 of
                       [] \<Rightarrow> None
                     | f # r4 \<Rightarrow>
                        if f = CHR ''}'' then Some ([(k, v)], r4)
                        else if f = CHR '','' then map_option (apfst (Cons (k, v))) (parse_members n r4)
                        else None)))))"

definition json_parse :: "string \<Rightarrow> json option" where
  "json_parse s = (case parse_value (Suc (length s)) s of
      Some (j, r) \<Rightarrow> if skip r = [] then Some j else None
    | None \<Rightarrow> None)"

section \<open>Round trip\<close>

lemma hex_val_digit: "n < 16 \<Longrightarrow> hex_val (hex_digit n) = Some n"
  by (auto simp: hex_val_def hex_digit_def Let_def)

lemma dquote_code [simp]: "(of_char dquote :: nat) = 34" "(of_char backslash :: nat) = 92"
  by (simp_all add: dquote_def backslash_def)

lemma parse_chars_esc: "parse_chars (esc_char c @ s) = map_option (apfst (Cons c)) (parse_chars s)"
proof -
  consider "c = dquote \<or> c = backslash"
    | "c \<in> {CHR 0x08, CHR 0x0C, CHR 0x0A, CHR 0x0D, CHR 0x09}"
    | "c \<noteq> dquote" "c \<noteq> backslash" "c \<notin> {CHR 0x08, CHR 0x0C, CHR 0x0A, CHR 0x0D, CHR 0x09}" "of_char c < (32 :: nat)"
    | "c \<noteq> dquote" "c \<noteq> backslash" "\<not> of_char c < (32 :: nat)"
    by blast
  then show ?thesis
  proof cases
    case 3
    define n :: nat where "n = of_char c"
    have "16 * (n div 16) + n mod 16 = n" by simp
    then have u: "unicode_escape (''00'' @ hex_digit (n div 16) # hex_digit (n mod 16) # s) = Some (c, s)"
      using 3(4) by (simp add: unicode_escape_def hex_val_digit n_def)
    have "esc_char c = backslash # CHR ''u'' # ''00'' @ [hex_digit (n div 16), hex_digit (n mod 16)]"
      using 3 by (simp add: esc_char_def n_def)
    then have eq: "esc_char c @ s = backslash # CHR ''u'' # ''00'' @ hex_digit (n div 16) # hex_digit (n mod 16) # s"
      by simp
    show ?thesis
      unfolding eq by (subst parse_chars.simps) (simp add: u [simplified] dquote_def backslash_def)
  next
    case 4
    then have "esc_char c = [c]" by (auto simp: esc_char_def)
    then show ?thesis using 4 by simp
  qed (auto simp: esc_char_def unescape_def dquote_def backslash_def)
qed

lemma parse_chars_quoted: "parse_chars (concat (map esc_char s) @ dquote # r) = Some (s, r)"
  by (induction s) (simp_all add: parse_chars_esc)

lemma show_nat_leading: "hd (show_nat n) = CHR ''0'' \<Longrightarrow> tl (show_nat n) = [] \<and> n = 0"
proof (induction n rule: show_nat.induct)
  case (1 n)
  show ?case
  proof (cases "n < 10")
    case True
    then have "show_nat n = [digit_char n]" by (subst show_nat.simps) simp
    moreover have "n = 0" if "digit_char n = CHR ''0''"
      using digit_char_props(2) [OF True] that by (simp add: digit_val_def)
    ultimately show ?thesis using 1(2) by simp
  next
    case False
    then have eq: "show_nat n = show_nat (n div 10) @ [digit_char (n mod 10)]"
      by (subst show_nat.simps) simp
    then have "hd (show_nat (n div 10)) = CHR ''0''"
      using 1(2) show_nat_nonempty by simp
    with 1(1) False have "n div 10 = 0" by blast
    with False show ?thesis by auto
  qed
qed

definition no_digit :: "string \<Rightarrow> bool" where
  "no_digit r = (case r of [] \<Rightarrow> True | c # _ \<Rightarrow> \<not> is_digit c)"

lemma takeWhile_digits:
  assumes "\<forall>c\<in>set ds. is_digit c" and "no_digit r"
  shows "takeWhile is_digit (ds @ r) = ds" and "dropWhile is_digit (ds @ r) = r"
  using assms by (induction ds) (auto simp: no_digit_def split: list.splits simp del: is_digit.simps)

lemma parse_int_show: "no_digit r \<Longrightarrow> parse_int (show_int i @ r) = Some (JInt i, r)"
proof -
  assume r: "no_digit r"
  define n where "n = nat \<bar>i\<bar>"
  note tw = takeWhile_digits [OF show_nat_digits r, of n]
  obtain c cs where s: "show_nat n = c # cs" using show_nat_nonempty by (meson list.exhaust)
  then have "is_digit c" using show_nat_digits [of n] by simp
  then have c: "c \<noteq> CHR ''-''" by auto
  have lead: "\<not> (hd (show_nat n) = CHR ''0'' \<and> tl (show_nat n) \<noteq> [])"
    using show_nat_leading [of n] by blast
  show ?thesis
  proof (cases "i < 0")
    case True
    then have "show_int i @ r = CHR ''-'' # show_nat n @ r" by (simp add: show_int_def n_def)
    moreover have "i = - int n" using True by (simp add: n_def)
    ultimately show ?thesis
      using lead show_nat_nonempty [of n] digits_val_show_nat [of n]
      by (simp add: parse_int_def tw Let_def del: is_digit.simps)
  next
    case False
    then have eq: "show_int i @ r = show_nat n @ r" by (simp add: show_int_def n_def)
    have "hd (show_nat n @ r) \<noteq> CHR ''-''" using s c by simp
    moreover have "i = int n" using False by (simp add: n_def)
    ultimately show ?thesis
      unfolding parse_int_def eq
      using lead show_nat_nonempty [of n] digits_val_show_nat [of n]
      by (simp add: tw Let_def del: is_digit.simps)
  qed
qed

text \<open>The first character of a serialised value decides the parser's branch.\<close>

definition starts_value :: "string \<Rightarrow> bool" where
  "starts_value s = (s \<noteq> [] \<and> \<not> is_json_space (hd s) \<and> hd s \<noteq> CHR '']'' \<and> hd s \<noteq> CHR ''}'')"

lemma show_int_starts:
  obtains c cs where "show_int i = c # cs" "is_digit c \<or> c = CHR ''-''"
proof -
  obtain c cs where s: "show_nat (nat \<bar>i\<bar>) = c # cs" using show_nat_nonempty by (meson list.exhaust)
  moreover have "is_digit c" using show_nat_digits [of "nat \<bar>i\<bar>"] s by simp
  ultimately show thesis
    using that by (cases "i < 0") (auto simp: show_int_def simp del: is_digit.simps)
qed

lemma stringify_starts: "starts_value (stringify j)"
proof (cases j)
  case (JInt i)
  obtain c cs where "show_int i = c # cs" "is_digit c \<or> c = CHR ''-''" by (rule show_int_starts)
  then show ?thesis using JInt by (auto simp: starts_value_def is_json_space_def)
qed (auto simp: starts_value_def is_json_space_def json_quote_def dquote_def)

lemma skip_stringify [simp]: "skip (stringify j @ r) = stringify j @ r"
  using stringify_starts [of j] by (cases "stringify j") (auto simp: starts_value_def)

lemma skip_nonspace [simp]: "\<not> is_json_space c \<Longrightarrow> skip (c # r) = c # r"
  by simp

lemma stringify_nonempty: "0 < length (stringify j)"
  using stringify_starts [of j] by (auto simp: starts_value_def)

lemma no_digit_consts [simp]: "no_digit []" "no_digit (CHR '','' # r)" "no_digit (CHR '']'' # r)"
  "no_digit (CHR ''}'' # r)"
  by (simp_all add: no_digit_def)

lemma json_space_consts [simp]: "\<not> is_json_space (CHR '','')" "\<not> is_json_space (CHR '']'')"
  "\<not> is_json_space (CHR ''}'')" "\<not> is_json_space (CHR '':'')" "\<not> is_json_space (CHR ''['')"
  "\<not> is_json_space (CHR ''{'')" "\<not> is_json_space dquote"
  by (simp_all add: is_json_space_def dquote_def)

definition parses :: "json \<Rightarrow> bool" where
  "parses j = (\<forall>n r. length (stringify j) \<le> n \<longrightarrow> no_digit r \<longrightarrow> parse_value n (stringify j @ r) = Some (j, r))"

lemma parses_elems:
  assumes "js \<noteq> []" and "\<forall>j\<in>set js. parses j"
    and "length (join_comma (map stringify js)) < n"
  shows "parse_elems n (join_comma (map stringify js) @ CHR '']'' # r) = Some (js, r)"
  using assms
proof (induction js arbitrary: n)
  case (Cons j js)
  obtain m where n: "n = Suc m" using Cons.prems(3) by (cases n) auto
  show ?case
  proof (cases js)
    case Nil
    have "parse_value m (stringify j @ CHR '']'' # r) = Some (j, CHR '']'' # r)"
      using Cons.prems n Nil by (simp add: parses_def)
    then show ?thesis using Nil n by simp
  next
    case (Cons j' js')
    define rest where "rest = join_comma (map stringify js)"
    have jc: "join_comma (map stringify (j # js)) = stringify j @ CHR '','' # rest"
      by (simp add: Cons rest_def)
    have "parse_value m (stringify j @ CHR '','' # rest @ CHR '']'' # r) = Some (j, CHR '','' # rest @ CHR '']'' # r)"
      using Cons.prems n jc by (simp add: parses_def)
    moreover have "parse_elems m (rest @ CHR '']'' # r) = Some (js, r)"
      unfolding rest_def using Cons.prems n jc stringify_nonempty [of j] Cons
      by (intro Cons.IH) (auto simp: rest_def)
    ultimately show ?thesis using n jc by simp
  qed
qed simp

definition member_text :: "string \<times> json \<Rightarrow> string" where
  "member_text kv = json_quote (fst kv) @ CHR '':'' # stringify (snd kv)"

lemma parse_members_one:
  assumes "parses v" and "length (member_text (k, v)) \<le> Suc m" and "no_digit rest"
  shows "parse_members (Suc m) (member_text (k, v) @ rest) =
    (case skip rest of
       [] \<Rightarrow> None
     | f # r4 \<Rightarrow> if f = CHR ''}'' then Some ([(k, v)], r4)
                else if f = CHR '','' then map_option (apfst (Cons (k, v))) (parse_members m r4) else None)"
proof -
  have "parse_value m (stringify v @ rest) = Some (v, rest)"
    using assms by (auto simp: parses_def member_text_def json_quote_def)
  then show ?thesis
    by (simp add: member_text_def json_quote_def parse_chars_quoted)
qed

lemma parses_members:
  assumes "kvs \<noteq> []" and "\<forall>kv\<in>set kvs. parses (snd kv)"
    and "length (join_comma (map member_text kvs)) < n"
  shows "parse_members n (join_comma (map member_text kvs) @ CHR ''}'' # r) = Some (kvs, r)"
  using assms
proof (induction kvs arbitrary: n)
  case (Cons kv kvs)
  obtain k v where kv: "kv = (k, v)" by fastforce
  obtain m where n: "n = Suc m" using Cons.prems(3) by (cases n) auto
  show ?case
  proof (cases kvs)
    case Nil
    then show ?thesis
      using Cons.prems n kv by (simp add: parse_members_one del: parse_members.simps)
  next
    case (Cons kv' kvs')
    define rest where "rest = join_comma (map member_text kvs)"
    have jc: "join_comma (map member_text (kv # kvs)) = member_text (k, v) @ CHR '','' # rest"
      by (simp add: Cons rest_def kv)
    have "parse_members m (rest @ CHR ''}'' # r) = Some (kvs, r)"
      unfolding rest_def using Cons.prems n jc Cons
      by (intro Cons.IH) (auto simp: rest_def member_text_def json_quote_def)
    moreover have "length (member_text (k, v)) \<le> Suc m" using Cons.prems(3) n jc by simp
    ultimately show ?thesis
      using n jc Cons.prems(2) kv by (simp add: parse_members_one del: parse_members.simps)
  qed
qed simp

lemma stringify_obj: "stringify (JObj kvs) = CHR ''{'' # join_comma (map member_text kvs) @ ''}''"
  by (simp add: member_text_def [abs_def] case_prod_unfold)

lemma parse_value_int:
  assumes "no_digit r"
  shows "parse_value (Suc n) (show_int i @ r) = Some (JInt i, r)"
proof -
  obtain c cs where s: "show_int i = c # cs" and c: "is_digit c \<or> c = CHR ''-''" by (rule show_int_starts)
  have "c \<noteq> CHR ''n''" "c \<noteq> CHR ''t''" "c \<noteq> CHR ''f''" "c \<noteq> dquote" "c \<noteq> CHR ''[''" "c \<noteq> CHR ''{''"
    "\<not> is_json_space c"
    using c by (auto simp: dquote_def is_json_space_def)
  then show ?thesis
    using s parse_int_show [OF assms, of i] by (simp add: startsWith_def)
qed

lemma parsesI:
  assumes "\<And>m r. length (stringify j) \<le> Suc m \<Longrightarrow> no_digit r \<Longrightarrow> parse_value (Suc m) (stringify j @ r) = Some (j, r)"
  shows "parses j"
  unfolding parses_def
proof (intro allI impI)
  fix n r assume len: "length (stringify j) \<le> n" and r: "no_digit r"
  then obtain m where "n = Suc m" using stringify_nonempty [of j] by (cases n) auto
  then show "parse_value n (stringify j @ r) = Some (j, r)" using assms len r by simp
qed

lemma starts_valueE:
  assumes "starts_value s"
  obtains c cs where "s = c # cs" "\<not> is_json_space c" "c \<noteq> CHR '']''" "c \<noteq> CHR ''}''"
  using assms by (cases s) (auto simp: starts_value_def)

lemma join_starts: "x \<noteq> [] \<Longrightarrow> starts_value (hd x) \<Longrightarrow> starts_value (join_comma x)"
  by (cases x rule: join_comma.cases) (auto simp: starts_value_def)

lemma parses_JArr:
  assumes "\<And>j. j \<in> set js \<Longrightarrow> parses j"
  shows "parses (JArr js)"
proof (rule parsesI)
  fix m r assume len: "length (stringify (JArr js)) \<le> Suc m" and r: "no_digit r"
  show "parse_value (Suc m) (stringify (JArr js) @ r) = Some (JArr js, r)"
  proof (cases "js = []")
    case True
    then show ?thesis by (simp add: startsWith_def dquote_def)
  next
    case False
    define t where "t = join_comma (map stringify js)"
    have "starts_value t"
      unfolding t_def using False stringify_starts by (intro join_starts) (auto simp: hd_map)
    then obtain c cs where t: "t = c # cs" "\<not> is_json_space c" "c \<noteq> CHR '']''" by (rule starts_valueE)
    have "parse_elems m (t @ CHR '']'' # r) = Some (js, r)"
      unfolding t_def using False assms len by (intro parses_elems) auto
    then show ?thesis
      using t by (simp add: t_def [symmetric] startsWith_def dquote_def)
  qed
qed

lemma parses_JObj:
  assumes "\<And>kv. kv \<in> set kvs \<Longrightarrow> parses (snd kv)"
  shows "parses (JObj kvs)"
proof (rule parsesI)
  fix m r assume len: "length (stringify (JObj kvs)) \<le> Suc m" and r: "no_digit r"
  show "parse_value (Suc m) (stringify (JObj kvs) @ r) = Some (JObj kvs, r)"
  proof (cases "kvs = []")
    case True
    then show ?thesis by (simp add: startsWith_def dquote_def)
  next
    case False
    define t where "t = join_comma (map member_text kvs)"
    have "starts_value t"
      unfolding t_def using False
      by (intro join_starts) (auto simp: hd_map member_text_def json_quote_def starts_value_def dquote_def is_json_space_def)
    then obtain c cs where t: "t = c # cs" "\<not> is_json_space c" "c \<noteq> CHR ''}''" by (rule starts_valueE)
    have "parse_members m (t @ CHR ''}'' # r) = Some (kvs, r)"
      unfolding t_def using False assms len by (intro parses_members) (auto simp: stringify_obj simp del: stringify.simps)
    then show ?thesis
      unfolding stringify_obj t_def [symmetric]
      using t by (simp add: startsWith_def dquote_def)
  qed
qed

lemma parses_all: "parses j"
proof (induction j)
  case (JInt i)
  show ?case using parse_value_int by (intro parsesI) simp
next
  case (JStr s)
  show ?case
    by (intro parsesI) (simp add: json_quote_def parse_chars_quoted startsWith_def dquote_def [symmetric], simp add: dquote_def)
next
  case (JArr js)
  then show ?case by (intro parses_JArr) auto
next
  case (JObj kvs)
  then show ?case by (intro parses_JObj) (auto intro: snds.intros)
next
  case JNull
  show ?case by (intro parsesI) (simp add: startsWith_def is_json_space_def)
next
  case (JBool b)
  show ?case by (intro parsesI) (simp add: startsWith_def is_json_space_def)
qed

lemma json_roundtrip: "json_parse (stringify j) = Some j"
proof -
  have "parse_value (Suc (length (stringify j))) (stringify j @ []) = Some (j, [])"
    using parses_all [of j] unfolding parses_def by (metis le_SucI no_digit_consts(1) order_refl)
  then show ?thesis by (simp add: json_parse_def)
qed

lemma stringify_inj: "stringify j = stringify k \<Longrightarrow> j = k"
  by (metis json_roundtrip option.inject)

end
