(* ===== verification/Broker.thy ===== *)
theory Broker
  imports JsJson Async
begin

text \<open>
  \<open>RabbitMQService\<close> (\<open>src/rabbitmq/rabbitmq.service.ts\<close>): connection with retry, publishers and
  the delivery loop of the three queues. \<open>amqplib\<close> and the broker are the parameter
  \<open>'s amqp_api\<close>; the two fields of the service object (\<open>connection\<close>, \<open>channel\<close>) live in the
  memory of the process, reached by \<open>rmq_get\<close> and \<open>rmq_put\<close>.
\<close>

section \<open>Interface of amqplib\<close>

record rmq_state =
  rq_connection :: bool
  rq_channel :: bool

record 's amqp_api =
  amqp_connect :: "string \<Rightarrow> 's \<Rightarrow> (string + unit) \<times> 's"
  amqp_createChannel :: "'s \<Rightarrow> (string + unit) \<times> 's"
  amqp_assertQueue :: "string \<Rightarrow> 's \<Rightarrow> (string + unit) \<times> 's"
  amqp_sendToQueue :: "string \<Rightarrow> string \<Rightarrow> 's \<Rightarrow> (string + bool) \<times> 's"
  amqp_consume :: "string \<Rightarrow> 's \<Rightarrow> (string + unit) \<times> 's"
  amqp_ack :: "nat \<Rightarrow> 's \<Rightarrow> (string + unit) \<times> 's"
  amqp_nack :: "nat \<Rightarrow> 's \<Rightarrow> (string + unit) \<times> 's"
  rmq_get :: "'s \<Rightarrow> rmq_state"
  rmq_put :: "rmq_state \<Rightarrow> 's \<Rightarrow> 's"
  rabbitmq_url :: "string option"

section \<open>The service\<close>

definition queueName :: string where "queueName = ''database-creation''"
definition orderProcessingQueue :: string where "orderProcessingQueue = ''order-processing''"
definition orderCompletedQueue :: string where "orderCompletedQueue = ''order-completed''"

text \<open>\<open>process.env.RABBITMQ_URL || 'amqp://127.0.0.1:5672'\<close>.\<close>

definition rabbitmqUrl :: "'s amqp_api \<Rightarrow> string" where
  "rabbitmqUrl A = (case rabbitmq_url A of
      Some u \<Rightarrow> if u = [] then ''amqp://127.0.0.1:5672'' else u
    | None \<Rightarrow> ''amqp://127.0.0.1:5672'')"

text \<open>\<open>this.connection = ...\<close> and \<open>this.channel = ...\<close>.\<close>

definition set_connection :: "'s amqp_api \<Rightarrow> ('s, unit) handler" where
  "set_connection A = sync (\<lambda>s. ((), rmq_put A ((rmq_get A s)\<lparr>rq_connection := True\<rparr>) s))"

definition set_channel :: "'s amqp_api \<Rightarrow> ('s, unit) handler" where
  "set_channel A = sync (\<lambda>s. ((), rmq_put A ((rmq_get A s)\<lparr>rq_channel := True\<rparr>) s))"

definition attemptConnection :: "'s amqp_api \<Rightarrow> ('s, unit) handler" where
  "attemptConnection A =
    bindE (await_call (amqp_connect A (rabbitmqUrl A))) (\<lambda>_.
    bindE (set_connection A) (\<lambda>_.
    bindE (await_call (amqp_createChannel A)) (\<lambda>_.
    bindE (set_channel A) (\<lambda>_.
    bindE (await_call (amqp_assertQueue A queueName)) (\<lambda>_.
    bindE (await_call (amqp_assertQueue A orderProcessingQueue)) (\<lambda>_.
    await_call (amqp_assertQueue A orderCompletedQueue)))))))"

text \<open>The same steps at start-up; a failure is logged, not thrown.\<close>

definition onModuleInit :: "'s amqp_api \<Rightarrow> ('s, unit) handler" where
  "onModuleInit A = tryCatch (attemptConnection A) (\<lambda>_. ret ())"

text \<open>\<open>await new Promise(resolve => setTimeout(resolve, retryDelay))\<close>.\<close>

definition sleep :: "('s, unit) handler" where
  "sleep = sync (\<lambda>s. ((), s))"

text \<open>The retry loop with the given number of rounds left.\<close>

primrec waitLoop :: "'s amqp_api \<Rightarrow> nat \<Rightarrow> ('s, unit) handler" where
  "waitLoop A 0 = throw (RaisedError ''Failed to establish RabbitMQ connection after maximum retries'')"
| "waitLoop A (Suc n) =
    bindE (sync (\<lambda>s. (rmq_get A s, s))) (\<lambda>q.
    if rq_channel q then ret ()
    else bindE (if \<not> rq_connection q then tryCatch (attemptConnection A) (\<lambda>_. ret ()) else ret ()) (\<lambda>_.
         bindE sleep (\<lambda>_. waitLoop A n)))"

definition waitForConnection :: "'s amqp_api \<Rightarrow> ('s, unit) handler" where
  "waitForConnection A = waitLoop A 10"

section \<open>Messages\<close>

record db_msg =
  dm_userId :: string
  dm_tenantCode :: string

record order_msg =
  om_orderId :: string
  om_userId :: string
  om_tenantCode :: string

record completed_msg =
  cm_orderId :: string
  cm_userId :: string
  cm_tenantCode :: string
  cm_transactionId :: string

definition db_msg_json :: "db_msg \<Rightarrow> json" where
  "db_msg_json d = JObj [(''userId'', JStr (dm_userId d)), (''tenantCode'', JStr (dm_tenantCode d))]"

definition order_msg_json :: "order_msg \<Rightarrow> json" where
  "order_msg_json d = JObj [(''orderId'', JStr (om_orderId d)), (''userId'', JStr (om_userId d)),
     (''tenantCode'', JStr (om_tenantCode d))]"

definition completed_msg_json :: "completed_msg \<Rightarrow> json" where
  "completed_msg_json d = JObj [(''orderId'', JStr (cm_orderId d)), (''userId'', JStr (cm_userId d)),
     (''tenantCode'', JStr (cm_tenantCode d)), (''transactionId'', JStr (cm_transactionId d))]"

text \<open>\<open>data.k\<close> of a parsed message, when it is a string.\<close>

definition str_field :: "json \<Rightarrow> string \<Rightarrow> string option" where
  "str_field j k = (case j of
      JObj kvs \<Rightarrow> (case map_of kvs k of Some (JStr s) \<Rightarrow> Some s | _ \<Rightarrow> None)
    | _ \<Rightarrow> None)"

definition db_msg_of :: "json \<Rightarrow> db_msg option" where
  "db_msg_of j = (case (str_field j ''userId'', str_field j ''tenantCode'') of
      (Some u, Some t) \<Rightarrow> Some \<lparr>dm_userId = u, dm_tenantCode = t\<rparr> | _ \<Rightarrow> None)"

definition order_msg_of :: "json \<Rightarrow> order_msg option" where
  "order_msg_of j = (case (str_field j ''orderId'', str_field j ''userId'', str_field j ''tenantCode'') of
      (Some i, Some u, Some t) \<Rightarrow> Some \<lparr>om_orderId = i, om_userId = u, om_tenantCode = t\<rparr> | _ \<Rightarrow> None)"

definition completed_msg_of :: "json \<Rightarrow> completed_msg option" where
  "completed_msg_of j =
    (case (str_field j ''orderId'', str_field j ''userId'', str_field j ''tenantCode'', str_field j ''transactionId'') of
      (Some i, Some u, Some t, Some x) \<Rightarrow>
        Some \<lparr>cm_orderId = i, cm_userId = u, cm_tenantCode = t, cm_transactionId = x\<rparr> | _ \<Rightarrow> None)"

section \<open>Publishing\<close>

definition rethrow :: "('s, 'a) handler \<Rightarrow> ('s, 'a) handler" where
  "rethrow m = tryCatch m throw"

definition publishDatabaseCreationMessage :: "'s amqp_api \<Rightarrow> db_msg \<Rightarrow> ('s, unit) handler" where
  "publishDatabaseCreationMessage A d = rethrow (
    bindE (waitForConnection A) (\<lambda>_.
    bindE (await_call (amqp_sendToQueue A queueName (stringify (db_msg_json d)))) (\<lambda>_. ret ())))"

definition publishOrderProcessingMessage :: "'s amqp_api \<Rightarrow> order_msg \<Rightarrow> ('s, unit) handler" where
  "publishOrderProcessingMessage A d = rethrow (
    bindE (waitForConnection A) (\<lambda>_.
    bindE (await_call (amqp_assertQueue A orderProcessingQueue)) (\<lambda>_.
    bindE (await_call (amqp_sendToQueue A orderProcessingQueue (stringify (order_msg_json d)))) (\<lambda>_. ret ()))))"

definition publishOrderCompletedMessage :: "'s amqp_api \<Rightarrow> completed_msg \<Rightarrow> ('s, unit) handler" where
  "publishOrderCompletedMessage A d = rethrow (
    bindE (waitForConnection A) (\<lambda>_.
    bindE (await_call (amqp_assertQueue A orderCompletedQueue)) (\<lambda>_.
    bindE (await_call (amqp_sendToQueue A orderCompletedQueue (stringify (completed_msg_json d)))) (\<lambda>_. ret ()))))"

section \<open>Consuming\<close>

text \<open>
  The callback given to \<open>channel.consume\<close>, on a message with the given delivery tag and
  content. A message whose fields are missing makes the callback reject; none is published.
\<close>

definition onDelivery ::
  "'s amqp_api \<Rightarrow> (json \<Rightarrow> 'd option) \<Rightarrow> ('d \<Rightarrow> ('s, unit) handler) \<Rightarrow> nat \<Rightarrow> string \<Rightarrow> ('s, unit) handler" where
  "onDelivery A decode callback tag content =
    tryCatch
      (bindE (case Option.bind (json_parse content) decode of
                None \<Rightarrow> throw (RaisedError ''Unexpected message'')
              | Some d \<Rightarrow> callback d) (\<lambda>_.
       await_call (amqp_ack A tag)))
      (\<lambda>_. await_call (amqp_nack A tag))"

text \<open>Registering the three consumers.\<close>

definition consumeDatabaseCreationMessages :: "'s amqp_api \<Rightarrow> ('s, unit) handler" where
  "consumeDatabaseCreationMessages A = rethrow (
    bindE (waitForConnection A) (\<lambda>_. await_call (amqp_consume A queueName)))"

definition consumeOrderProcessingMessages :: "'s amqp_api \<Rightarrow> ('s, unit) handler" where
  "consumeOrderProcessingMessages A = rethrow (
    bindE (waitForConnection A) (\<lambda>_.
    bindE (await_call (amqp_assertQueue A orderProcessingQueue)) (\<lambda>_.
    await_call (amqp_consume A orderProcessingQueue))))"

definition consumeOrderCompletedMessages :: "'s amqp_api \<Rightarrow> ('s, unit) handler" where
  "consumeOrderCompletedMessages A = rethrow (
    bindE (waitForConnection A) (\<lambda>_.
    bindE (await_call (amqp_assertQueue A orderCompletedQueue)) (\<lambda>_.
    await_call (amqp_consume A orderCompletedQueue))))"

section \<open>Facts\<close>

lemma msg_roundtrip [simp]:
  "db_msg_of (db_msg_json d) = Some d" "order_msg_of (order_msg_json m) = Some m"
  "completed_msg_of (completed_msg_json c) = Some c"
  by (simp_all add: db_msg_of_def db_msg_json_def order_msg_of_def order_msg_json_def
      completed_msg_of_def completed_msg_json_def str_field_def)

text \<open>Whatever amqplib does, the retry loop ends: with a channel, or with the final error.\<close>

lemma waitLoop_channel: "rq_channel (rmq_get A s) \<Longrightarrow> run (waitLoop A (Suc n)) s = (Inr (), s)"
  by (simp add: async_simps)

text \<open>
  A connection without a channel is never repaired: every round only sleeps.
\<close>

lemma waitLoop_half_open:
  assumes "rq_connection (rmq_get A s)" and "\<not> rq_channel (rmq_get A s)"
  shows "run (waitLoop A n) s =
    (Inl (RaisedError ''Failed to establish RabbitMQ connection after maximum retries''), s)"
  using assms by (induction n) (simp_all add: async_simps sleep_def)

lemma rethrow_run: "run (rethrow m) s = run m s"
  by (auto simp: rethrow_def async_simps split: prod.split sum.split)

lemma rethrow_wp [wp_simps]: "wp (rethrow m) Q E = wp m Q E"
  by (simp add: wp_def rethrow_run fun_eq_iff)

section \<open>The broker's contract\<close>

text \<open>
  \<open>Q s q\<close> is the content of queue \<open>q\<close>. Publishing appends one message to one queue; no other
  call of the service changes a queue, and the service's own fields are only memory.
\<close>

locale broker_store =
  fixes A :: "'s amqp_api" and Inv :: "'s \<Rightarrow> bool" and Q :: "'s \<Rightarrow> string \<Rightarrow> string list"
  assumes connect_Q: "Inv s \<Longrightarrow> Q (snd (amqp_connect A url s)) = Q s \<and> Inv (snd (amqp_connect A url s))"
    and createChannel_Q: "Inv s \<Longrightarrow> Q (snd (amqp_createChannel A s)) = Q s \<and> Inv (snd (amqp_createChannel A s))"
    and assertQueue_Q: "Inv s \<Longrightarrow> Q (snd (amqp_assertQueue A q s)) = Q s \<and> Inv (snd (amqp_assertQueue A q s))"
    and sendToQueue_Inv: "Inv s \<Longrightarrow> Inv (snd (amqp_sendToQueue A q m s))"
    and sendToQueue_Inr: "Inv s \<Longrightarrow> fst (amqp_sendToQueue A q m s) = Inr b \<Longrightarrow>
      Q (snd (amqp_sendToQueue A q m s)) = (Q s)(q := Q s q @ [m])"
    and sendToQueue_Inl: "Inv s \<Longrightarrow> fst (amqp_sendToQueue A q m s) = Inl e \<Longrightarrow>
      Q (snd (amqp_sendToQueue A q m s)) = Q s"
    and rmq_put_Q: "Inv s \<Longrightarrow> Q (rmq_put A v s) = Q s \<and> Inv (rmq_put A v s)"
begin

lemma attemptConnection_wp:
  "Inv s \<Longrightarrow> wp (attemptConnection A) (\<lambda>_ s'. Inv s' \<and> Q s' = Q s) (\<lambda>_ s'. Inv s' \<and> Q s' = Q s) s"
  using connect_Q createChannel_Q assertQueue_Q rmq_put_Q
  by (auto simp: attemptConnection_def set_connection_def set_channel_def wp_simps wp_await_call
      split: sum.split)

lemma waitLoop_wp:
  "Inv s \<Longrightarrow> wp (waitLoop A n) (\<lambda>_ s'. Inv s' \<and> Q s' = Q s) (\<lambda>_ s'. Inv s' \<and> Q s' = Q s) s"
proof (induction n arbitrary: s)
  case 0
  then show ?case by (simp add: wp_simps)
next
  case (Suc n)
  have later: "wp (waitLoop A n) (\<lambda>_ s'. Inv s' \<and> Q s' = Q s) (\<lambda>_ s'. Inv s' \<and> Q s' = Q s) s1"
    if "Inv s1" "Q s1 = Q s" for s1
    using Suc.IH [OF that(1)] that(2) by simp
  show ?case
    using Suc.prems later attemptConnection_wp [OF Suc.prems]
    by (auto simp: wp_simps sleep_def intro: wp_conseq)
qed

text \<open>A publisher that returns has appended its message; one that throws has appended nothing.\<close>

lemma publish_wp:
  assumes "Inv s" and pre: "\<And>s. Inv s \<Longrightarrow> wp pre (\<lambda>_ s'. Inv s' \<and> Q s' = Q s) (\<lambda>_ s'. Inv s' \<and> Q s' = Q s) s"
  shows "wp (bindE (waitForConnection A) (\<lambda>_. bindE pre (\<lambda>_.
      bindE (await_call (amqp_sendToQueue A q m)) (\<lambda>_. ret ()))))
    (\<lambda>_ s'. Inv s' \<and> Q s' = (Q s)(q := Q s q @ [m])) (\<lambda>_ s'. Inv s' \<and> Q s' = Q s) s"
proof -
  have send: "wp (await_call (amqp_sendToQueue A q m)) (\<lambda>_ s'. Inv s' \<and> Q s' = (Q s)(q := Q s q @ [m]))
      (\<lambda>_ s'. Inv s' \<and> Q s' = Q s) s1" if "Inv s1" "Q s1 = Q s" for s1
    using that sendToQueue_Inv sendToQueue_Inr sendToQueue_Inl
    by (auto simp: wp_await_call split: sum.split)
  have rest: "wp (bindE pre (\<lambda>_. bindE (await_call (amqp_sendToQueue A q m)) (\<lambda>_. ret ())))
      (\<lambda>_ s'. Inv s' \<and> Q s' = (Q s)(q := Q s q @ [m])) (\<lambda>_ s'. Inv s' \<and> Q s' = Q s) s1"
    if "Inv s1" "Q s1 = Q s" for s1
    by (rule wp_seq [where R = "\<lambda>_ s'. Inv s' \<and> Q s' = Q s"])
       (use pre [OF that(1)] that(2) send in \<open>auto simp: wp_simps\<close>)
  show ?thesis
    by (rule wp_seq [where R = "\<lambda>_ s'. Inv s' \<and> Q s' = Q s"])
       (use waitLoop_wp [OF assms(1), of 10] rest in \<open>auto simp: waitForConnection_def\<close>)
qed

lemma publishOrderProcessing_wp:
  assumes "Inv s"
  shows "wp (publishOrderProcessingMessage A d)
    (\<lambda>_ s'. Inv s' \<and> Q s' = (Q s)(orderProcessingQueue := Q s orderProcessingQueue @ [stringify (order_msg_json d)]))
    (\<lambda>_ s'. Inv s' \<and> Q s' = Q s) s"
  unfolding publishOrderProcessingMessage_def rethrow_wp using assms
  by (rule publish_wp) (use assertQueue_Q in \<open>auto simp: wp_await_call split: sum.split\<close>)

lemma publishOrderCompleted_wp:
  assumes "Inv s"
  shows "wp (publishOrderCompletedMessage A d)
    (\<lambda>_ s'. Inv s' \<and> Q s' = (Q s)(orderCompletedQueue := Q s orderCompletedQueue @ [stringify (completed_msg_json d)]))
    (\<lambda>_ s'. Inv s' \<and> Q s' = Q s) s"
  unfolding publishOrderCompletedMessage_def rethrow_wp using assms
  by (rule publish_wp) (use assertQueue_Q in \<open>auto simp: wp_await_call split: sum.split\<close>)

lemma publishDatabaseCreation_wp:
  assumes "Inv s"
  shows "wp (publishDatabaseCreationMessage A d)
    (\<lambda>_ s'. Inv s' \<and> Q s' = (Q s)(queueName := Q s queueName @ [stringify (db_msg_json d)]))
    (\<lambda>_ s'. Inv s' \<and> Q s' = Q s) s"
  unfolding publishDatabaseCreationMessage_def rethrow_wp
  using publish_wp [OF assms, of "ret ()" queueName "stringify (db_msg_json d)"]
  by (simp add: wp_simps)

end

end
