(* ===== verification/Orders.thy ===== *)
theory Orders
  imports Tenancy Broker
begin

text \<open>
  \<open>OrderService\<close> (\<open>src/order/order.service.ts\<close>) and \<open>OrderController\<close>
  (\<open>src/order/order.controller.ts\<close>). \<open>this.prisma\<close> is the request's client \<open>c\<close>, the one
  \<open>PrismaService\<close> binds (theory \<open>Tenancy\<close>); every \<open>await\<close> is one atomic section.
\<close>

section \<open>Errors\<close>

definition quoted :: "string \<Rightarrow> string" where
  "quoted s = CHR 0x27 # s @ [CHR 0x27]"

text \<open>
  The \<open>catch\<close> clause around the service's queries: a missing database is reported as a bad
  request, every other error is rethrown.
\<close>

definition tenantDbError :: "string \<Rightarrow> exn \<Rightarrow> exn" where
  "tenantDbError tenantCode e =
    (if message e \<noteq> [] \<and> str_includes (message e) ''does not exist''
     then BadRequestException (''Tenant database for '' @ quoted tenantCode @
       '' does not exist. Please ensure the tenant is properly set up.'')
     else e)"

definition catchTenant :: "string \<Rightarrow> ('s, 'a) handler \<Rightarrow> ('s, 'a) handler" where
  "catchTenant tenantCode m = tryCatch m (\<lambda>e. throw (tenantDbError tenantCode e))"

definition orderNotFound :: "string \<Rightarrow> exn" where
  "orderNotFound oid = NotFoundException (''Order with ID '' @ oid @ '' not found'')"

definition productNotFound :: "string \<Rightarrow> exn" where
  "productNotFound pid = NotFoundException (''Product with ID '' @ pid @ '' not found'')"

section \<open>The service\<close>

record add_item =
  ai_productId :: string
  ai_quantity :: int

definition createOrder ::
  "'s prisma_api \<Rightarrow> prisma_client \<Rightarrow> string \<Rightarrow> string \<Rightarrow> ('s, order_row) handler" where
  "createOrder P c userId tenantCode = catchTenant tenantCode (await_call (order_create P c userId PENDING 0))"

definition enqueueOrderProcessing ::
  "'s amqp_api \<Rightarrow> string \<Rightarrow> string \<Rightarrow> string \<Rightarrow> ('s, unit) handler" where
  "enqueueOrderProcessing A orderId userId tenantCode =
    publishOrderProcessingMessage A \<lparr>om_orderId = orderId, om_userId = userId, om_tenantCode = tenantCode\<rparr>"

definition enqueueOrderCompleted ::
  "'s prisma_api \<Rightarrow> 's amqp_api \<Rightarrow> prisma_client \<Rightarrow> string \<Rightarrow> string \<Rightarrow> string \<Rightarrow> string \<Rightarrow> ('s, bool) handler" where
  "enqueueOrderCompleted P A c orderId userId tenantCode transactionId =
    bindE (await_call (order_findUnique P c orderId)) (\<lambda>order.
    case order of
      None \<Rightarrow> throw (orderNotFound orderId)
    | Some r \<Rightarrow>
        if o_userId r \<noteq> userId
        then throw (ForbiddenException ''You do not have permission to complete this order'')
        else bindE (publishOrderCompletedMessage A \<lparr>cm_orderId = orderId, cm_userId = userId,
               cm_tenantCode = tenantCode, cm_transactionId = transactionId\<rparr>) (\<lambda>_.
             ret True))"

text \<open>
  \<open>items.reduce((sum, item) => sum + Number(item.price) * item.quantity, 0)\<close>, in binary64.
\<close>

definition js_total :: "item_row list \<Rightarrow> rat" where
  "js_total xs = foldl (\<lambda>sum it. fl (sum + fl (fl (i_price it) * of_int (i_quantity it)))) 0 xs"

definition recalculateOrderTotal :: "'s prisma_api \<Rightarrow> prisma_client \<Rightarrow> string \<Rightarrow> ('s, unit) handler" where
  "recalculateOrderTotal P c orderId =
    bindE (await_call (item_findMany P c orderId)) (\<lambda>xs.
    bindE (await_call (order_update P c orderId
      (no_order_data\<lparr>od_total := Some (mkDecimal P (js_total xs))\<rparr>))) (\<lambda>_. ret ()))"

definition addItemToOrder ::
  "'s prisma_api \<Rightarrow> prisma_client \<Rightarrow> string \<Rightarrow> string \<Rightarrow> add_item \<Rightarrow> string \<Rightarrow> ('s, item_row \<times> product_row) handler" where
  "addItemToOrder P c orderId userId dto tenantCode =
    bindE (await_call (order_findUnique P c orderId)) (\<lambda>order.
    case order of
      None \<Rightarrow> throw (orderNotFound orderId)
    | Some r \<Rightarrow>
      if o_userId r \<noteq> userId
      then throw (ForbiddenException ''You do not have permission to modify this order'')
      else if o_status r \<noteq> PENDING
      then throw (BadRequestException ''Cannot add items to an order that is not pending'')
      else
        bindE (catchTenant tenantCode (await_call (product_findUnique P c (ai_productId dto)))) (\<lambda>product.
        case product of
          None \<Rightarrow> throw (productNotFound (ai_productId dto))
        | Some p \<Rightarrow>
          if p_stock p < ai_quantity dto
          then throw (BadRequestException (''Insufficient stock. Available: '' @ show_int (p_stock p)))
          else
            bindE (await_call (item_findFirst P c orderId (ai_productId dto))) (\<lambda>existingItem.
            bindE
              (case existingItem of
                 Some it \<Rightarrow> catchTenant tenantCode
                   (await_call (item_update_quantity P c (i_id it) (i_quantity it + ai_quantity dto)))
               | None \<Rightarrow> catchTenant tenantCode
                   (await_call (item_create P c orderId (ai_productId dto) (ai_quantity dto) (p_price p))))
              (\<lambda>orderItem.
            bindE (recalculateOrderTotal P c orderId) (\<lambda>_.
            ret orderItem)))))"

text \<open>The stock check of one item in \<open>checkoutOrder\<close>.\<close>

definition checkStock :: "'s prisma_api \<Rightarrow> prisma_client \<Rightarrow> string \<Rightarrow> item_row \<Rightarrow> ('s, unit) handler" where
  "checkStock P c tenantCode it =
    bindE (catchTenant tenantCode (await_call (product_findUnique P c (i_productId it)))) (\<lambda>product.
    case product of
      None \<Rightarrow> throw (productNotFound (i_productId it))
    | Some p \<Rightarrow>
        if p_stock p < i_quantity it
        then throw (BadRequestException (''Insufficient stock for product '' @ p_name p @
          ''. Available: '' @ show_int (p_stock p) @ '', Required: '' @ show_int (i_quantity it)))
        else ret ())"

definition setStatus :: "OrderStatus \<Rightarrow> order_data" where
  "setStatus st = no_order_data\<lparr>od_status := Some st\<rparr>"

definition checkoutOrder ::
  "'s prisma_api \<Rightarrow> prisma_client \<Rightarrow> string \<Rightarrow> string \<Rightarrow> string \<Rightarrow> ('s, order_full) handler" where
  "checkoutOrder P c orderId userId tenantCode =
    bindE (await_call (order_findUnique_items P c orderId)) (\<lambda>order.
    case order of
      None \<Rightarrow> throw (orderNotFound orderId)
    | Some ri \<Rightarrow>
      if o_userId (fst ri) \<noteq> userId
      then throw (ForbiddenException ''You do not have permission to checkout this order'')
      else if o_status (fst ri) \<noteq> PENDING
      then throw (BadRequestException ''Order is not in pending status'')
      else if snd ri = []
      then throw (BadRequestException ''Cannot checkout an order with no items'')
      else
        bindE (forEach (snd ri) (checkStock P c tenantCode)) (\<lambda>_.
        catchTenant tenantCode (await_call (order_update_full P c orderId (setStatus WAITING_FOR_PAYMENT)))))"

definition paymentReceived ::
  "'s prisma_api \<Rightarrow> prisma_client \<Rightarrow> string \<Rightarrow> string \<Rightarrow> string \<Rightarrow> ('s, order_full) handler" where
  "paymentReceived P c orderId userId tenantCode =
    bindE (await_call (order_findUnique_items P c orderId)) (\<lambda>order.
    case order of
      None \<Rightarrow> throw (orderNotFound orderId)
    | Some ri \<Rightarrow>
      if o_userId (fst ri) \<noteq> userId
      then throw (ForbiddenException ''You do not have permission to update this order'')
      else if o_status (fst ri) \<noteq> WAITING_FOR_PAYMENT
      then throw (BadRequestException ''Order is not waiting for payment'')
      else
        bindE (forEach (snd ri) (\<lambda>it.
          catchTenant tenantCode
            (bindE (await_call (product_decrement P c (i_productId it) (i_quantity it))) (\<lambda>_. ret ())))) (\<lambda>_.
        catchTenant tenantCode (await_call (order_update_full P c orderId (setStatus PAID)))))"

definition completeOrder ::
  "'s prisma_api \<Rightarrow> prisma_client \<Rightarrow> string \<Rightarrow> string \<Rightarrow> string \<Rightarrow> ('s, order_full) handler" where
  "completeOrder P c orderId userId tenantCode =
    bindE (await_call (order_findUnique P c orderId)) (\<lambda>order.
    case order of
      None \<Rightarrow> throw (orderNotFound orderId)
    | Some r \<Rightarrow>
      if o_userId r \<noteq> userId
      then throw (ForbiddenException ''You do not have permission to complete this order'')
      else if o_status r \<noteq> PAID
      then throw (BadRequestException ''Order must be paid before it can be completed'')
      else catchTenant tenantCode (await_call (order_update_full P c orderId (setStatus COMPLETE))))"

definition findOne :: "'s prisma_api \<Rightarrow> prisma_client \<Rightarrow> string \<Rightarrow> string \<Rightarrow> ('s, order_full) handler" where
  "findOne P c oid userId =
    bindE (await_call (order_findFirst_full P c oid userId)) (\<lambda>order.
    case order of None \<Rightarrow> throw (orderNotFound oid) | Some f \<Rightarrow> ret f)"

text \<open>The loop over the tenants of \<open>findAll\<close>; a tenant that fails is logged and skipped.\<close>

primrec collectOrders ::
  "'s prisma_api \<Rightarrow> 's manager \<Rightarrow> string \<Rightarrow> string list \<Rightarrow> (order_full \<times> string) list \<Rightarrow>
   ('s, (order_full \<times> string) list) handler" where
  "collectOrders P M userId [] allOrders = ret allOrders"
| "collectOrders P M userId (tenant # tenants) allOrders =
    bindE
      (tryCatch
        (bindE (clientFor M (Some tenant)) (\<lambda>c.
         bindE (await_call (order_findMany_full P c userId)) (\<lambda>tenantOrders.
         ret (allOrders @ map (\<lambda>f. (f, tenant)) tenantOrders))))
        (\<lambda>_. ret allOrders))
      (\<lambda>allOrders'. collectOrders P M userId tenants allOrders')"

text \<open>\<open>sort\<close> is stable; the comparator is the difference of creation times.\<close>

definition sortOrders :: "(order_full \<times> string) list \<Rightarrow> (order_full \<times> string) list" where
  "sortOrders xs = sort_key (\<lambda>x. - o_createdAt (fst (fst x))) xs"

definition findAll ::
  "'s prisma_api \<Rightarrow> 's user_api \<Rightarrow> 's manager \<Rightarrow> string \<Rightarrow> jsnum \<Rightarrow> jsnum \<Rightarrow>
   ('s, (order_full \<times> string) page_result) handler" where
  "findAll P U M userId page perPage =
    bindE (defaultClient M) (\<lambda>d.
    bindE (await_call (user_findMany_ready U d)) (\<lambda>tenants.
    bindE (collectOrders P M userId tenants []) (\<lambda>allOrders.
    ret (paginate (sortOrders allOrders) page perPage))))"

section \<open>The controller\<close>

record create_item =
  ci_product_id :: string
  ci_qty :: int

definition item_dto :: "create_item \<Rightarrow> add_item" where
  "item_dto item = \<lparr>ai_productId = ci_product_id item, ai_quantity = ci_qty item\<rparr>"

definition controllerCreate ::
  "'s prisma_api \<Rightarrow> 's amqp_api \<Rightarrow> prisma_client \<Rightarrow> auth_user \<Rightarrow> string \<Rightarrow> create_item list option \<Rightarrow>
   ('s, order_full) handler" where
  "controllerCreate P A c user tenantCode body =
    (if body = None \<or> body = Some []
     then throw (BadRequestException ''items is required and must be a non-empty array'')
     else
       bindE (createOrder P c (au_id user) tenantCode) (\<lambda>order.
       bindE (forEach (the body) (\<lambda>item.
         bindE (addItemToOrder P c (o_id order) (au_id user) (item_dto item) tenantCode) (\<lambda>_. ret ()))) (\<lambda>_.
       bindE (enqueueOrderProcessing A (o_id order) (au_id user) tenantCode) (\<lambda>_.
       findOne P c (o_id order) (au_id user)))))"

text \<open>
  \<open>findAll\<close> also rebinds the request's tenant context for an administrator, which the cache
  interceptor reads afterwards; the new context is part of the result.
\<close>

definition controllerFindAll ::
  "'s prisma_api \<Rightarrow> 's user_api \<Rightarrow> 's manager \<Rightarrow> auth_user \<Rightarrow> tenant_context \<Rightarrow> string option \<Rightarrow> string option \<Rightarrow>
   ('s, tenant_context \<times> (order_full \<times> string) page_result) handler" where
  "controllerFindAll P U M user ctx page perPage =
    (let ctx' = (if au_role user = ADMIN \<and> truthy (au_tenantCode user)
                 then setTenantCode (au_tenantCode user) ctx else ctx)
     in bindE (findAll P U M (au_id user) (pageNum page) (perPageNum perPage)) (\<lambda>r. ret (ctx', r)))"

definition controllerFindOne :: "'s prisma_api \<Rightarrow> prisma_client \<Rightarrow> string \<Rightarrow> auth_user \<Rightarrow> ('s, order_full) handler" where
  "controllerFindOne P c oid user = findOne P c oid (au_id user)"

definition controllerPaymentReceived ::
  "'s prisma_api \<Rightarrow> prisma_client \<Rightarrow> string \<Rightarrow> auth_user \<Rightarrow> string \<Rightarrow> ('s, order_full) handler" where
  "controllerPaymentReceived P c oid user tenantCode = paymentReceived P c oid (au_id user) tenantCode"

text \<open>\<open>completeOrder\<close>; the body's \<open>transaction_id\<close> is \<open>None\<close> when it is absent or not a string.\<close>

definition controllerComplete ::
  "'s prisma_api \<Rightarrow> 's amqp_api \<Rightarrow> prisma_client \<Rightarrow> string \<Rightarrow> auth_user \<Rightarrow> string \<Rightarrow> string option \<Rightarrow>
   ('s, bool) handler" where
  "controllerComplete P A c oid user tenantCode transactionId =
    (case transactionId of
       None \<Rightarrow> throw (BadRequestException ''transaction_id is required'')
     | Some x \<Rightarrow>
         if trim x = [] then throw (BadRequestException ''transaction_id is required'')
         else enqueueOrderCompleted P A c oid (au_id user) tenantCode x)"

end
