(* ===== verification/Consumers.thy ===== *)
theory Consumers
  imports Orders
begin

text \<open>
  The order consumers of the worker process: \<open>OrderProcessingConsumer\<close> and
  \<open>OrderCompletedConsumer\<close>. The payment link and the e-mails are stubs that only log.
  \<open>crypto.randomUUID\<close> is the parameter \<open>gen\<close>.
\<close>

definition handleOrderProcessing ::
  "'s prisma_api \<Rightarrow> 's manager \<Rightarrow> ('s \<Rightarrow> string \<times> 's) \<Rightarrow> order_msg \<Rightarrow> ('s, unit) handler" where
  "handleOrderProcessing P M gen d =
    bindE (clientFor M (Some (om_tenantCode d))) (\<lambda>tenantPrisma.
    bindE (sync gen) (\<lambda>paymentId.
    bindE (await_call (order_update P tenantPrisma (om_orderId d)
      (no_order_data\<lparr>od_status := Some WAITING_FOR_PAYMENT, od_paymentId := Some paymentId\<rparr>))) (\<lambda>_.
    ret ())))"

definition handleOrderCompleted ::
  "'s prisma_api \<Rightarrow> 's manager \<Rightarrow> completed_msg \<Rightarrow> ('s, unit) handler" where
  "handleOrderCompleted P M d =
    bindE (clientFor M (Some (cm_tenantCode d))) (\<lambda>tenantPrisma.
    bindE (await_call (order_update P tenantPrisma (cm_orderId d)
      (no_order_data\<lparr>od_status := Some COMPLETE, od_transactionId := Some (cm_transactionId d)\<rparr>))) (\<lambda>_.
    ret ()))"

text \<open>One delivery from each queue, with its acknowledgement.\<close>

definition deliverOrderProcessing ::
  "'s prisma_api \<Rightarrow> 's amqp_api \<Rightarrow> 's manager \<Rightarrow> ('s \<Rightarrow> string \<times> 's) \<Rightarrow> nat \<Rightarrow> string \<Rightarrow> ('s, unit) handler" where
  "deliverOrderProcessing P A M gen tag content =
    onDelivery A order_msg_of (handleOrderProcessing P M gen) tag content"

definition deliverOrderCompleted ::
  "'s prisma_api \<Rightarrow> 's amqp_api \<Rightarrow> 's manager \<Rightarrow> nat \<Rightarrow> string \<Rightarrow> ('s, unit) handler" where
  "deliverOrderCompleted P A M tag content =
    onDelivery A completed_msg_of (handleOrderCompleted P M) tag content"

end
