(* ===== verification/OrderFacts.thy ===== *)
theory OrderFacts
  imports Consumers
begin

text \<open>
  What the order operations do to the tables, run alone, for every client that keeps the
  contract \<open>prisma_store\<close>, and whatever of its calls reject.
\<close>

lemma wp_catchTenant [wp_simps]:
  "wp (catchTenant tc m) Q E = wp m Q (\<lambda>e. E (tenantDbError tc e))"
  by (simp add: catchTenant_def wp_simps)

lemma query_wp:
  assumes "query_ok Inv T k f A" and "Inv s"
    and "\<And>e s'. Inv s' \<Longrightarrow> T s' = T s \<Longrightarrow> E (RaisedError e) s'"
    and "\<And>x s'. Inv s' \<Longrightarrow> T s' = T s \<Longrightarrow> A (T s k) x \<Longrightarrow> Q x s'"
  shows "wp (await_call f) Q E s"
  using assms by (auto simp: query_ok_def wp_await_call split: sum.split)

lemma write_wp:
  assumes "write_ok Inv T k f R" and "Inv s"
    and "\<And>e s'. Inv s' \<Longrightarrow> T s' = T s \<Longrightarrow> E (RaisedError e) s'"
    and "\<And>x d s'. Inv s' \<Longrightarrow> T s' = (T s)(k := d) \<Longrightarrow> R (T s k) x d \<Longrightarrow> Q x s'"
  shows "wp (await_call f) Q E s"
proof -
  from assms(1,2) have "Inv (snd (f s))"
    and "case fst (f s) of Inl _ \<Rightarrow> T (snd (f s)) = T s
      | Inr x \<Rightarrow> \<exists>d. R (T s k) x d \<and> T (snd (f s)) = (T s)(k := d)"
    by (auto simp: write_ok_def)
  then show ?thesis
    using assms(3,4) by (auto simp: wp_await_call split: sum.splits)
qed

lemma full_of_fst: "full_of d r (a, b) \<Longrightarrow> r = a"
  by (simp add: full_of_def)

lemma round2_0 [simp]: "round2 0 = 0"
  by (simp add: round2_def floor_eq_iff)

section \<open>Effects\<close>

text \<open>The items table after adding \<open>dto\<close> to order \<open>oid\<close> at unit price \<open>pr\<close>.\<close>

definition item_written :: "db \<Rightarrow> string \<Rightarrow> add_item \<Rightarrow> rat \<Rightarrow> (string \<rightharpoonup> item_row) \<Rightarrow> bool" where
  "item_written d oid dto pr its \<longleftrightarrow>
    (\<exists>it t. it \<in> order_items d oid \<and> i_productId it = ai_productId dto \<and>
       its = (items d)(i_id it \<mapsto> it\<lparr>i_quantity := i_quantity it + ai_quantity dto, i_updatedAt := t\<rparr>)) \<or>
    ((\<forall>it\<in>order_items d oid. i_productId it \<noteq> ai_productId dto) \<and>
     (\<exists>it. items d (i_id it) = None \<and> i_orderId it = oid \<and> i_productId it = ai_productId dto \<and>
        i_quantity it = ai_quantity dto \<and> i_price it = round2 pr \<and> its = (items d)(i_id it \<mapsto> it)))"

text \<open>The guards of \<open>addItemToOrder\<close>.\<close>

definition can_add :: "db \<Rightarrow> string \<Rightarrow> string \<Rightarrow> add_item \<Rightarrow> order_row \<Rightarrow> product_row \<Rightarrow> bool" where
  "can_add d oid uid dto r p \<longleftrightarrow> orders d oid = Some r \<and> o_userId r = uid \<and> o_status r = PENDING \<and>
     products d (ai_productId dto) = Some p \<and> ai_quantity dto \<le> p_stock p"

text \<open>The orders table after the total of \<open>oid\<close> is recomputed from the items table.\<close>

definition total_updated :: "(rat \<Rightarrow> rat) \<Rightarrow> db \<Rightarrow> string \<Rightarrow> (string \<rightharpoonup> order_row) \<Rightarrow> bool" where
  "total_updated mk d oid os \<longleftrightarrow>
    (\<exists>r t xs. orders d oid = Some r \<and> lists_items d oid xs \<and>
       os = (orders d)(oid \<mapsto> r\<lparr>o_total := round2 (mk (js_total xs)), o_updatedAt := t\<rparr>))"

text \<open>The whole effect: the item, and the order's total.\<close>

definition item_added :: "(rat \<Rightarrow> rat) \<Rightarrow> db \<Rightarrow> string \<Rightarrow> string \<Rightarrow> add_item \<Rightarrow> db \<Rightarrow> bool" where
  "item_added mk d oid uid dto d' \<longleftrightarrow>
    (\<exists>r p. can_add d oid uid dto r p \<and> item_written d oid dto (p_price p) (items d')) \<and>
    products d' = products d \<and> total_updated mk (d\<lparr>items := items d'\<rparr>) oid (orders d')"

lemma item_written_updateI:
  "it \<in> order_items d oid \<Longrightarrow> i_productId it = ai_productId dto \<Longrightarrow>
   item_written d oid dto pr
     ((items d)(i_id it \<mapsto> it\<lparr>i_quantity := i_quantity it + ai_quantity dto, i_updatedAt := t\<rparr>))"
  unfolding item_written_def by blast

lemma item_written_createI:
  "\<forall>it\<in>order_items d oid. i_productId it \<noteq> ai_productId dto \<Longrightarrow> items d (i_id it) = None \<Longrightarrow>
   i_orderId it = oid \<Longrightarrow> i_productId it = ai_productId dto \<Longrightarrow> i_quantity it = ai_quantity dto \<Longrightarrow>
   i_price it = round2 pr \<Longrightarrow> item_written d oid dto pr ((items d)(i_id it \<mapsto> it))"
  unfolding item_written_def by blast

lemma total_updatedI:
  "orders d oid = Some r \<Longrightarrow> lists_items d oid xs \<Longrightarrow>
   total_updated mk d oid ((orders d)(oid \<mapsto> r\<lparr>o_total := round2 (mk (js_total xs)), o_updatedAt := t\<rparr>))"
  unfolding total_updated_def by blast

lemma total_updated_cong:
  "orders d' = orders d \<Longrightarrow> items d' = items d \<Longrightarrow> total_updated mk d' oid os = total_updated mk d oid os"
  by (simp add: total_updated_def lists_items_def order_items_def)

text \<open>The rejections of \<open>addItemToOrder\<close> that leave the tables alone, in the order of its guards.\<close>

definition add_rejects :: "db \<Rightarrow> string \<Rightarrow> string \<Rightarrow> add_item \<Rightarrow> exn \<Rightarrow> bool" where
  "add_rejects d oid uid dto e \<longleftrightarrow>
    (case orders d oid of
       None \<Rightarrow> e = orderNotFound oid
     | Some r \<Rightarrow>
         if o_userId r \<noteq> uid then e = ForbiddenException ''You do not have permission to modify this order''
         else if o_status r \<noteq> PENDING then e = BadRequestException ''Cannot add items to an order that is not pending''
         else (case products d (ai_productId dto) of
             None \<Rightarrow> e = productNotFound (ai_productId dto)
           | Some p \<Rightarrow> p_stock p < ai_quantity dto \<and>
               e = BadRequestException (''Insufficient stock. Available: '' @ show_int (p_stock p))))"

text \<open>A rejection that comes from the client, as thrown or as mapped by \<open>catchTenant\<close>.\<close>

definition client_error :: "string \<Rightarrow> exn \<Rightarrow> bool" where
  "client_error tc e \<longleftrightarrow> (\<exists>m. e = RaisedError m \<or> e = tenantDbError tc (RaisedError m))"

lemma client_error_intros [simp, intro]:
  "client_error tc (RaisedError m)" "client_error tc (tenantDbError tc (RaisedError m))"
  by (auto simp: client_error_def)

text \<open>No database but \<open>k\<close> differs.\<close>

definition same_but :: "'k \<Rightarrow> ('k \<Rightarrow> 'd) \<Rightarrow> ('k \<Rightarrow> 'd) \<Rightarrow> bool" where
  "same_but k t t' \<longleftrightarrow> (\<forall>j. j \<noteq> k \<longrightarrow> t' j = t j)"

lemma same_but_simps [simp]: "same_but k t t" "same_but k t (t(k := d))"
  by (auto simp: same_but_def)

lemma same_but_trans: "same_but k t u \<Longrightarrow> same_but k u v \<Longrightarrow> same_but k t v"
  by (simp add: same_but_def)

lemma lists_items_cong: "items d' = items d \<Longrightarrow> lists_items d' oid xs = lists_items d oid xs"
  by (simp add: lists_items_def order_items_def)

section \<open>Stock\<close>

text \<open>The quantity of product \<open>pid\<close> in a list of items, and in an order.\<close>

definition qty_of :: "item_row list \<Rightarrow> string \<Rightarrow> int" where
  "qty_of xs pid = sum_list (map i_quantity (filter (\<lambda>it. i_productId it = pid) xs))"

definition ordered :: "db \<Rightarrow> string \<Rightarrow> string \<Rightarrow> int" where
  "ordered d oid pid = sum i_quantity {it \<in> order_items d oid. i_productId it = pid}"

lemma qty_of_simps [simp]:
  "qty_of [] = (\<lambda>_. 0)"
  "qty_of [it] = (\<lambda>_. 0)(i_productId it := i_quantity it)"
  by (auto simp: qty_of_def fun_eq_iff)

lemma qty_of_append: "qty_of (xs @ ys) pid = qty_of xs pid + qty_of ys pid"
  by (simp add: qty_of_def)

lemma qty_of_ordered: "lists_items d oid xs \<Longrightarrow> qty_of xs = ordered d oid"
proof
  fix pid assume "lists_items d oid xs"
  then have "distinct xs" and "set xs = order_items d oid"
    by (auto simp: lists_items_def distinct_map)
  then show "qty_of xs pid = ordered d oid pid"
    using sum_list_distinct_conv_sum_set [of "filter (\<lambda>it. i_productId it = pid) xs" i_quantity]
    by (auto simp: qty_of_def ordered_def intro: sum.cong)
qed

text \<open>The products after \<open>f pid\<close> units of every product \<open>pid\<close> left the stock.\<close>

definition stock_taken :: "(string \<rightharpoonup> product_row) \<Rightarrow> (string \<Rightarrow> int) \<Rightarrow> (string \<rightharpoonup> product_row) \<Rightarrow> bool" where
  "stock_taken ps f ps' \<longleftrightarrow> (\<forall>pid. rel_option
     (\<lambda>p p'. p' = p\<lparr>p_stock := p_stock p - f pid, p_updatedAt := p_updatedAt p'\<rparr>) (ps pid) (ps' pid))"

lemma stock_taken_refl [simp]: "stock_taken ps (\<lambda>_. 0) ps"
  by (auto simp: stock_taken_def intro: option.rel_refl)

lemma stock_taken_step:
  assumes "stock_taken ps (qty_of ys) ps'" and "ps' (i_productId it) = Some p"
  shows "stock_taken ps (qty_of (ys @ [it]))
    (ps'(i_productId it \<mapsto> p\<lparr>p_stock := p_stock p - i_quantity it, p_updatedAt := t\<rparr>))"
  unfolding stock_taken_def
proof
  fix pid
  have old: "rel_option (\<lambda>p p'. p' = p\<lparr>p_stock := p_stock p - qty_of ys pid, p_updatedAt := p_updatedAt p'\<rparr>)
      (ps pid) (ps' pid)"
    using assms(1) by (simp add: stock_taken_def)
  show "rel_option (\<lambda>p p'. p' = p\<lparr>p_stock := p_stock p - qty_of (ys @ [it]) pid, p_updatedAt := p_updatedAt p'\<rparr>)
     (ps pid) ((ps'(i_productId it \<mapsto> p\<lparr>p_stock := p_stock p - i_quantity it, p_updatedAt := t\<rparr>)) pid)"
  proof (cases "pid = i_productId it")
    case True
    then obtain q where "ps pid = Some q" and "p = q\<lparr>p_stock := p_stock q - qty_of ys pid, p_updatedAt := p_updatedAt p\<rparr>"
      using old assms(2) by (auto simp: option_rel_Some2)
    then show ?thesis using True by (cases p; cases q) (simp add: qty_of_append)
  next
    case False
    then show ?thesis using old by (simp add: qty_of_append)
  qed
qed

text \<open>Some of the items of order \<open>oid\<close>, in the order they were read, have left the stock.\<close>

definition partly_taken :: "db \<Rightarrow> string \<Rightarrow> (string \<rightharpoonup> product_row) \<Rightarrow> bool" where
  "partly_taken d oid ps' \<longleftrightarrow> (\<exists>ys zs. lists_items d oid (ys @ zs) \<and> stock_taken (products d) (qty_of ys) ps')"

lemma partly_takenI:
  "lists_items d oid xs \<Longrightarrow> xs = ys @ zs \<Longrightarrow> stock_taken (products d) (qty_of ys) ps' \<Longrightarrow> partly_taken d oid ps'"
  by (auto simp: partly_taken_def)

text \<open>Only the status of order \<open>oid\<close> differs (and its time stamp).\<close>

definition status_set :: "OrderStatus \<Rightarrow> (string \<rightharpoonup> order_row) \<Rightarrow> string \<Rightarrow> (string \<rightharpoonup> order_row) \<Rightarrow> bool" where
  "status_set st os oid os' \<longleftrightarrow>
    (\<exists>r t. os oid = Some r \<and> os' = os(oid \<mapsto> r\<lparr>o_status := st, o_updatedAt := t\<rparr>))"

lemma status_setI:
  "os oid = Some r \<Longrightarrow> status_set st os oid (os(oid \<mapsto> apply_order_data (setStatus st) t r))"
  by (auto simp: status_set_def apply_order_data_def setStatus_def no_order_data_def upd_opt_def intro!: exI)

text \<open>
  The guards shared by checkout, payment and completion: the order exists, belongs to the
  caller and has the status the transition starts from.
\<close>

definition guarded :: "db \<Rightarrow> string \<Rightarrow> string \<Rightarrow> OrderStatus \<Rightarrow> bool" where
  "guarded d oid uid st \<longleftrightarrow> (\<exists>r. orders d oid = Some r \<and> o_userId r = uid \<and> o_status r = st)"

definition guard_rejects :: "db \<Rightarrow> string \<Rightarrow> string \<Rightarrow> OrderStatus \<Rightarrow> string \<Rightarrow> string \<Rightarrow> exn \<Rightarrow> bool" where
  "guard_rejects d oid uid st forbidden bad e \<longleftrightarrow>
    (case orders d oid of
       None \<Rightarrow> e = orderNotFound oid
     | Some r \<Rightarrow> if o_userId r \<noteq> uid then e = ForbiddenException forbidden
                 else o_status r \<noteq> st \<and> e = BadRequestException bad)"

text \<open>A checkout is refused for an order with no items, or one whose product is short.\<close>

definition short_stock :: "db \<Rightarrow> string \<Rightarrow> exn \<Rightarrow> bool" where
  "short_stock d oid e \<longleftrightarrow> (\<exists>it\<in>order_items d oid. \<exists>p. products d (i_productId it) = Some p \<and>
     p_stock p < i_quantity it \<and> e = BadRequestException (''Insufficient stock for product '' @ p_name p @
       ''. Available: '' @ show_int (p_stock p) @ '', Required: '' @ show_int (i_quantity it)))"

lemma short_stockI:
  "it \<in> order_items d oid \<Longrightarrow> products d (i_productId it) = Some p \<Longrightarrow> p_stock p < i_quantity it \<Longrightarrow>
   short_stock d oid (BadRequestException (''Insufficient stock for product '' @ p_name p @
     ''. Available: '' @ show_int (p_stock p) @ '', Required: '' @ show_int (i_quantity it)))"
  unfolding short_stock_def by blast

definition in_stock :: "db \<Rightarrow> string \<Rightarrow> bool" where
  "in_stock d oid \<longleftrightarrow> (\<forall>it\<in>order_items d oid. \<exists>p. products d (i_productId it) = Some p \<and> i_quantity it \<le> p_stock p)"

definition checkout_rejects :: "db \<Rightarrow> string \<Rightarrow> string \<Rightarrow> exn \<Rightarrow> bool" where
  "checkout_rejects d oid uid e \<longleftrightarrow>
     guard_rejects d oid uid PENDING ''You do not have permission to checkout this order''
       ''Order is not in pending status'' e \<or>
     guarded d oid uid PENDING \<and>
       (order_items d oid = {} \<and> e = BadRequestException ''Cannot checkout an order with no items'' \<or>
        short_stock d oid e)"

text \<open>A new, empty order of user \<open>uid\<close>.\<close>

definition created :: "string \<Rightarrow> db \<Rightarrow> order_row \<Rightarrow> db \<Rightarrow> bool" where
  "created uid d r d' \<longleftrightarrow> orders d (o_id r) = None \<and> o_userId r = uid \<and> o_status r = PENDING \<and> o_total r = 0 \<and>
     o_paymentId r = None \<and> o_transactionId r = None \<and> d' = d\<lparr>orders := (orders d)(o_id r \<mapsto> r)\<rparr>"

section \<open>The operations\<close>

context prisma_store
begin

lemma recalculate_wp:
  assumes "Inv s" and "T s (loc c) = d"
  shows "wp (recalculateOrderTotal P c oid)
    (\<lambda>_ s'. Inv s' \<and> same_but (loc c) (T s) (T s') \<and> items (T s' (loc c)) = items d \<and>
       products (T s' (loc c)) = products d \<and> total_updated (mkDecimal P) d oid (orders (T s' (loc c))))
    (\<lambda>e s'. Inv s' \<and> T s' = T s \<and> client_error tc e) s"
  unfolding recalculateOrderTotal_def wp_bindE wp_ret
  by (rule query_wp [OF item_findMany_ok assms(1)], use assms in simp,
      rule write_wp [OF order_update_ok],
      use assms in \<open>auto simp: apply_order_data_def no_order_data_def upd_opt_def intro!: total_updatedI\<close>)

text \<open>Writing the item: an existing line grows, a new line is created.\<close>

lemma write_item_wp:
  assumes "Inv s" and "T s (loc c) = d"
  shows "wp (bindE (await_call (item_findFirst P c oid (ai_productId dto))) (\<lambda>existing.
      case existing of
        Some it \<Rightarrow> catchTenant tc (await_call (item_update_quantity P c (i_id it) (i_quantity it + ai_quantity dto)))
      | None \<Rightarrow> catchTenant tc (await_call (item_create P c oid (ai_productId dto) (ai_quantity dto) pr))))
    (\<lambda>_ s'. Inv s' \<and> same_but (loc c) (T s) (T s') \<and> item_written d oid dto pr (items (T s' (loc c))) \<and>
       orders (T s' (loc c)) = orders d \<and> products (T s' (loc c)) = products d)
    (\<lambda>e s'. Inv s' \<and> T s' = T s \<and> client_error tc e) s"
    (is "wp (bindE _ ?f) ?Q ?E s")
  unfolding wp_bindE
proof (rule query_wp [OF item_findFirst_ok assms(1)], simp)
  fix x s1
  assume s1: "Inv s1" "T s1 = T s"
    and x: "case x of None \<Rightarrow> \<forall>r\<in>order_items (T s (loc c)) oid. i_productId r \<noteq> ai_productId dto
      | Some r \<Rightarrow> r \<in> order_items (T s (loc c)) oid \<and> i_productId r = ai_productId dto"
  show "wp (?f x) ?Q ?E s1"
  proof (cases x)
    case None
    then show ?thesis
      using s1 x assms(2)
      by (auto simp: wp_catchTenant intro!: write_wp [OF item_create_ok s1(1)] item_written_createI)
  next
    case (Some it)
    have "db_wf (T s (loc c))" using tables_wf assms(1) .
    then have "items d (i_id it) = Some it"
      using Some x assms(2) by (auto simp: order_items_def db_wf_def)
    then show ?thesis
      using s1 x assms(2) Some
      by (auto simp: wp_catchTenant intro!: write_wp [OF item_update_ok s1(1)] item_written_updateI)
  qed
qed

text \<open>\<open>addItemToOrder\<close>, on every branch.\<close>

lemma addItem_wp:
  assumes "Inv s" and "T s (loc c) = d"
  shows "wp (addItemToOrder P c oid uid dto tc)
    (\<lambda>_ s'. Inv s' \<and> same_but (loc c) (T s) (T s') \<and> item_added (mkDecimal P) d oid uid dto (T s' (loc c)))
    (\<lambda>e s'. Inv s' \<and> same_but (loc c) (T s) (T s') \<and> products (T s' (loc c)) = products d \<and>
       orders (T s' (loc c)) = orders d \<and>
       (T s' = T s \<and> (add_rejects d oid uid dto e \<or> client_error tc e) \<or>
        client_error tc e \<and>
          (\<exists>r p. can_add d oid uid dto r p \<and> item_written d oid dto (p_price p) (items (T s' (loc c)))))) s"
    (is "wp _ ?Q ?E s")
proof -
  have finish: "wp (recalculateOrderTotal P c oid) (\<lambda>_. ?Q x) ?E s3"
    if s3: "Inv s3" "same_but (loc c) (T s) (T s3)" "item_written d oid dto (p_price p) (items (T s3 (loc c)))"
      "orders (T s3 (loc c)) = orders d" "products (T s3 (loc c)) = products d"
      and ca: "can_add d oid uid dto r p" for x :: "item_row \<times> product_row" and s3 r p
  proof (rule wp_conseq [OF recalculate_wp [OF s3(1) refl, where tc = tc]])
    fix y s' assume "Inv s' \<and> same_but (loc c) (T s3) (T s') \<and> items (T s' (loc c)) = items (T s3 (loc c)) \<and>
       products (T s' (loc c)) = products (T s3 (loc c)) \<and>
       total_updated (mkDecimal P) (T s3 (loc c)) oid (orders (T s' (loc c)))"
    then show "?Q x s'"
      using s3 ca same_but_trans [of "loc c" "T s" "T s3" "T s'"]
        total_updated_cong [of "d\<lparr>items := items (T s' (loc c))\<rparr>" "T s3 (loc c)"]
      by (auto simp: item_added_def)
  next
    fix e s' assume "Inv s' \<and> T s' = T s3 \<and> client_error tc e"
    then show "?E e s'" using s3 ca by auto
  qed
  have body: "wp (bindE (await_call (item_findFirst P c oid (ai_productId dto))) (\<lambda>existing.
      bindE (case existing of
        Some it \<Rightarrow> catchTenant tc (await_call (item_update_quantity P c (i_id it) (i_quantity it + ai_quantity dto)))
      | None \<Rightarrow> catchTenant tc (await_call (item_create P c oid (ai_productId dto) (ai_quantity dto) (p_price p))))
      (\<lambda>orderItem. bindE (recalculateOrderTotal P c oid) (\<lambda>_. ret orderItem)))) ?Q ?E s2"
    if s2: "Inv s2" "T s2 = T s" and ca: "can_add d oid uid dto r p" for s2 r p
    unfolding bindE_assoc [symmetric]
  proof (rule wp_seq)
    show "wp (bindE (await_call (item_findFirst P c oid (ai_productId dto))) (\<lambda>existing.
      case existing of
        Some it \<Rightarrow> catchTenant tc (await_call (item_update_quantity P c (i_id it) (i_quantity it + ai_quantity dto)))
      | None \<Rightarrow> catchTenant tc (await_call (item_create P c oid (ai_productId dto) (ai_quantity dto) (p_price p)))))
      (\<lambda>_ s'. Inv s' \<and> same_but (loc c) (T s) (T s') \<and> item_written d oid dto (p_price p) (items (T s' (loc c))) \<and>
         orders (T s' (loc c)) = orders d \<and> products (T s' (loc c)) = products d) ?E s2"
      by (rule wp_conseq [OF write_item_wp [OF s2(1), of c d oid dto tc "p_price p"]])
         (use s2(2) assms(2) in auto)
  next
    fix x s3 assume "Inv s3 \<and> same_but (loc c) (T s) (T s3) \<and>
      item_written d oid dto (p_price p) (items (T s3 (loc c))) \<and>
      orders (T s3 (loc c)) = orders d \<and> products (T s3 (loc c)) = products d"
    then show "wp (bindE (recalculateOrderTotal P c oid) (\<lambda>_. ret x)) ?Q ?E s3"
      using finish [OF _ _ _ _ _ ca, of s3] by (simp add: wp_simps)
  qed
  show ?thesis
    unfolding addItemToOrder_def wp_bindE [of "await_call (order_findUnique P c oid)"]
    by (rule query_wp [OF order_findUnique_ok assms(1)])
       (use assms(2) body in \<open>auto simp: wp_simps add_rejects_def can_add_def not_less
          intro!: query_wp [OF product_findUnique_ok] split: option.split\<close>)
qed

text \<open>Setting an order's status.\<close>

lemma setStatus_wp:
  assumes "Inv s" and "T s (loc c) = d"
  shows "wp (catchTenant tc (await_call (order_update_full P c oid (setStatus st))))
    (\<lambda>f s'. Inv s' \<and> same_but (loc c) (T s) (T s') \<and> items (T s' (loc c)) = items d \<and>
       products (T s' (loc c)) = products d \<and> status_set st (orders d) oid (orders (T s' (loc c))) \<and>
       orders (T s' (loc c)) oid = Some (fst f) \<and> full_of (T s' (loc c)) (fst f) f)
    (\<lambda>e s'. Inv s' \<and> T s' = T s \<and> client_error tc e) s"
  unfolding wp_catchTenant
  by (rule write_wp [OF order_update_full_ok assms(1)]) (use assms in \<open>auto intro: status_setI\<close>)

text \<open>The loop of \<open>paymentReceived\<close>: stock leaves item by item, and stays gone on a rejection.\<close>

lemma deduct_wp:
  assumes "Inv s" and "T s (loc c) = d"
  shows "wp (forEach xs (\<lambda>it. catchTenant tc
      (bindE (await_call (product_decrement P c (i_productId it) (i_quantity it))) (\<lambda>_. ret ()))))
    (\<lambda>_ s'. Inv s' \<and> same_but (loc c) (T s) (T s') \<and> items (T s' (loc c)) = items d \<and>
       orders (T s' (loc c)) = orders d \<and> stock_taken (products d) (qty_of xs) (products (T s' (loc c))))
    (\<lambda>e s'. Inv s' \<and> same_but (loc c) (T s) (T s') \<and> items (T s' (loc c)) = items d \<and>
       orders (T s' (loc c)) = orders d \<and> client_error tc e \<and>
       (\<exists>ys zs. xs = ys @ zs \<and> stock_taken (products d) (qty_of ys) (products (T s' (loc c))))) s"
    (is "wp _ (\<lambda>_. ?J xs) ?E s")
proof (rule wp_forEach [where J = ?J])
  show "?J [] s" using assms by simp
next
  fix ys it zs s1
  assume xs: "xs = ys @ it # zs" and J: "?J ys s1"
  show "wp (catchTenant tc (bindE (await_call (product_decrement P c (i_productId it) (i_quantity it))) (\<lambda>_. ret ())))
    (\<lambda>_. ?J (ys @ [it])) ?E s1"
    unfolding wp_catchTenant wp_bindE wp_ret
  proof (rule write_wp [OF product_decrement_ok])
    show "Inv s1" using J by simp
  next
    fix e s' assume "Inv s'" and "T s' = T s1"
    then show "?E (tenantDbError tc (RaisedError e)) s'" using J xs by fastforce
  next
    fix x d' s' assume "Inv s'" and "T s' = (T s1)(loc c := d')"
      and "\<exists>p t. products (T s1 (loc c)) (i_productId it) = Some p \<and>
        x = p\<lparr>p_stock := p_stock p - i_quantity it, p_updatedAt := t\<rparr> \<and>
        d' = T s1 (loc c)\<lparr>products := (products (T s1 (loc c)))(i_productId it \<mapsto> x)\<rparr>"
    then show "?J (ys @ [it]) s'"
      using J stock_taken_step [of "products d" ys "products (T s1 (loc c))" it]
      by (auto simp: same_but_def)
  qed
qed simp

text \<open>\<open>paymentReceived\<close>, on every branch.\<close>

lemma paymentReceived_wp:
  assumes "Inv s" and "T s (loc c) = d"
  shows "wp (paymentReceived P c oid uid tc)
    (\<lambda>f s'. Inv s' \<and> same_but (loc c) (T s) (T s') \<and> guarded d oid uid WAITING_FOR_PAYMENT \<and>
       items (T s' (loc c)) = items d \<and> stock_taken (products d) (ordered d oid) (products (T s' (loc c))) \<and>
       status_set PAID (orders d) oid (orders (T s' (loc c))) \<and>
       orders (T s' (loc c)) oid = Some (fst f) \<and> full_of (T s' (loc c)) (fst f) f)
    (\<lambda>e s'. Inv s' \<and> same_but (loc c) (T s) (T s') \<and> items (T s' (loc c)) = items d \<and> orders (T s' (loc c)) = orders d \<and>
       (T s' = T s \<and> (client_error tc e \<or> guard_rejects d oid uid WAITING_FOR_PAYMENT
          ''You do not have permission to update this order'' ''Order is not waiting for payment'' e) \<or>
        guarded d oid uid WAITING_FOR_PAYMENT \<and> client_error tc e \<and>
          partly_taken d oid (products (T s' (loc c))))) s"
    (is "wp _ ?Q ?E s")
proof -
  have pay: "wp (bindE (forEach xs (\<lambda>it. catchTenant tc
        (bindE (await_call (product_decrement P c (i_productId it) (i_quantity it))) (\<lambda>_. ret ())))) (\<lambda>_.
      catchTenant tc (await_call (order_update_full P c oid (setStatus PAID))))) ?Q ?E s1"
    if s1: "Inv s1" "T s1 = T s" and xs: "lists_items d oid xs" and g: "guarded d oid uid WAITING_FOR_PAYMENT" for s1 xs
  proof (rule wp_seq [OF wp_conseq [OF deduct_wp [OF s1(1), of c d xs tc]]])
    fix x s2 assume s2: "Inv s2 \<and> same_but (loc c) (T s1) (T s2) \<and> items (T s2 (loc c)) = items d \<and>
       orders (T s2 (loc c)) = orders d \<and> stock_taken (products d) (qty_of xs) (products (T s2 (loc c)))"
    show "wp (catchTenant tc (await_call (order_update_full P c oid (setStatus PAID)))) ?Q ?E s2"
    proof (rule wp_conseq [OF setStatus_wp [OF _ refl, of s2 tc c oid PAID]])
      show "Inv s2" using s2 by simp
    next
      fix f s' assume "Inv s' \<and> same_but (loc c) (T s2) (T s') \<and> items (T s' (loc c)) = items (T s2 (loc c)) \<and>
        products (T s' (loc c)) = products (T s2 (loc c)) \<and>
        status_set PAID (orders (T s2 (loc c))) oid (orders (T s' (loc c))) \<and>
        orders (T s' (loc c)) oid = Some (fst f) \<and> full_of (T s' (loc c)) (fst f) f"
      then show "?Q f s'"
        using s1 s2 g qty_of_ordered [OF xs] same_but_trans by fastforce
    next
      fix e s' assume "Inv s' \<and> T s' = T s2 \<and> client_error tc e"
      then show "?E e s'" using s1 s2 g xs by (auto intro: partly_takenI [where zs = "[]"])
    qed
  next
    fix e s' assume "Inv s' \<and> same_but (loc c) (T s1) (T s') \<and> items (T s' (loc c)) = items d \<and>
       orders (T s' (loc c)) = orders d \<and> client_error tc e \<and>
       (\<exists>ys zs. xs = ys @ zs \<and> stock_taken (products d) (qty_of ys) (products (T s' (loc c))))"
    then show "?E e s'" using s1 g xs by (auto intro: partly_takenI)
  qed (use s1 assms(2) in simp_all)
  show ?thesis
    unfolding paymentReceived_def wp_bindE [of "await_call (order_findUnique_items P c oid)"]
    by (rule query_wp [OF order_findUnique_items_ok assms(1)])
       (use assms(2) pay in \<open>auto simp: wp_simps(1-2) guard_rejects_def guarded_def split: option.splits prod.splits\<close>)
qed

text \<open>\<open>completeOrder\<close>, on every branch.\<close>

lemma completeOrder_wp:
  assumes "Inv s" and "T s (loc c) = d"
  shows "wp (completeOrder P c oid uid tc)
    (\<lambda>f s'. Inv s' \<and> same_but (loc c) (T s) (T s') \<and> guarded d oid uid PAID \<and>
       items (T s' (loc c)) = items d \<and> products (T s' (loc c)) = products d \<and>
       status_set COMPLETE (orders d) oid (orders (T s' (loc c))) \<and>
       orders (T s' (loc c)) oid = Some (fst f) \<and> full_of (T s' (loc c)) (fst f) f)
    (\<lambda>e s'. Inv s' \<and> T s' = T s \<and> (client_error tc e \<or> guard_rejects d oid uid PAID
       ''You do not have permission to complete this order'' ''Order must be paid before it can be completed'' e)) s"
    (is "wp _ ?Q ?E s")
proof -
  have "wp (catchTenant tc (await_call (order_update_full P c oid (setStatus COMPLETE)))) ?Q ?E s1"
    if "Inv s1" "T s1 = T s" "guarded d oid uid PAID" for s1
    by (rule wp_conseq [OF setStatus_wp [OF that(1), of c d]]) (use that assms(2) in auto)
  then show ?thesis
    unfolding completeOrder_def wp_bindE
    by (intro query_wp [OF order_findUnique_ok assms(1)])
       (use assms(2) in \<open>auto simp: wp_simps(1-2) guard_rejects_def guarded_def split: option.split\<close>)
qed

text \<open>The stock checks of \<open>checkoutOrder\<close> read only.\<close>

lemma checkStock_wp:
  assumes "Inv s" and "T s (loc c) = d" and "it \<in> order_items d oid"
  shows "wp (checkStock P c tc it)
    (\<lambda>_ s'. Inv s' \<and> T s' = T s \<and> (\<exists>p. products d (i_productId it) = Some p \<and> i_quantity it \<le> p_stock p))
    (\<lambda>e s'. Inv s' \<and> T s' = T s \<and> (client_error tc e \<or> short_stock d oid e)) s"
proof -
  have "\<exists>p. products d (i_productId it) = Some p"
    using tables_wf [OF assms(1), of "loc c"] assms(2,3) by (auto simp: db_wf_def order_items_def)
  then show ?thesis
    unfolding checkStock_def wp_bindE wp_catchTenant
    by (intro query_wp [OF product_findUnique_ok assms(1)])
       (use assms(2,3) short_stockI in \<open>auto simp: wp_simps(1-2) not_less simp del: append.simps\<close>)
qed

lemma checkStocks_wp:
  assumes "Inv s" and "T s (loc c) = d" and "set xs = order_items d oid"
  shows "wp (forEach xs (checkStock P c tc))
    (\<lambda>_ s'. Inv s' \<and> T s' = T s \<and> in_stock d oid)
    (\<lambda>e s'. Inv s' \<and> T s' = T s \<and> (client_error tc e \<or> short_stock d oid e)) s"
proof (rule wp_forEach [where J = "\<lambda>ys s'. Inv s' \<and> T s' = T s \<and>
    (\<forall>it\<in>set ys. \<exists>p. products d (i_productId it) = Some p \<and> i_quantity it \<le> p_stock p)"])
  fix ys it zs s1
  assume xs: "xs = ys @ it # zs" and J: "Inv s1 \<and> T s1 = T s \<and>
    (\<forall>it\<in>set ys. \<exists>p. products d (i_productId it) = Some p \<and> i_quantity it \<le> p_stock p)"
  have "it \<in> order_items d oid" using xs assms(3) by auto
  then show "wp (checkStock P c tc it) (\<lambda>_ s'. Inv s' \<and> T s' = T s \<and>
      (\<forall>it\<in>set (ys @ [it]). \<exists>p. products d (i_productId it) = Some p \<and> i_quantity it \<le> p_stock p))
    (\<lambda>e s'. Inv s' \<and> T s' = T s \<and> (client_error tc e \<or> short_stock d oid e)) s1"
    using J assms(2) by (intro wp_conseq [OF checkStock_wp [of s1 c d it oid tc]]) auto
qed (use assms in \<open>auto simp: in_stock_def\<close>)

text \<open>\<open>checkoutOrder\<close>, on every branch.\<close>

lemma checkoutOrder_wp:
  assumes "Inv s" and "T s (loc c) = d"
  shows "wp (checkoutOrder P c oid uid tc)
    (\<lambda>f s'. Inv s' \<and> same_but (loc c) (T s) (T s') \<and> guarded d oid uid PENDING \<and>
       order_items d oid \<noteq> {} \<and> in_stock d oid \<and>
       items (T s' (loc c)) = items d \<and> products (T s' (loc c)) = products d \<and>
       status_set WAITING_FOR_PAYMENT (orders d) oid (orders (T s' (loc c))) \<and>
       orders (T s' (loc c)) oid = Some (fst f) \<and> full_of (T s' (loc c)) (fst f) f)
    (\<lambda>e s'. Inv s' \<and> T s' = T s \<and> (client_error tc e \<or> checkout_rejects d oid uid e)) s"
    (is "wp _ ?Q ?E s")
proof -
  have go: "wp (bindE (forEach xs (checkStock P c tc)) (\<lambda>_.
      catchTenant tc (await_call (order_update_full P c oid (setStatus WAITING_FOR_PAYMENT))))) ?Q ?E s1"
    if s1: "Inv s1" "T s1 = T s" "guarded d oid uid PENDING" "lists_items d oid xs" "xs \<noteq> []" for s1 xs
  proof (rule wp_seq [OF wp_conseq [OF checkStocks_wp [OF s1(1), of c d xs oid tc]]])
    fix x s2 assume s2: "Inv s2 \<and> T s2 = T s1 \<and> in_stock d oid"
    show "wp (catchTenant tc (await_call (order_update_full P c oid (setStatus WAITING_FOR_PAYMENT)))) ?Q ?E s2"
      by (rule wp_conseq [OF setStatus_wp [of s2 c d]]) (use s1 s2 assms(2) in \<open>auto simp: lists_items_def\<close>)
  qed (use s1 assms(2) in \<open>auto simp: lists_items_def checkout_rejects_def\<close>)
  show ?thesis
    unfolding checkoutOrder_def wp_bindE [of "await_call (order_findUnique_items P c oid)"]
    by (rule query_wp [OF order_findUnique_items_ok assms(1)])
       (use assms(2) go in \<open>auto simp: wp_simps(1-2) checkout_rejects_def guard_rejects_def guarded_def
          lists_items_def split: option.splits prod.splits\<close>)
qed

text \<open>\<open>createOrder\<close> and \<open>findOne\<close>.\<close>

lemma createOrder_wp:
  assumes "Inv s" and "T s (loc c) = d"
  shows "wp (createOrder P c uid tc)
    (\<lambda>r s'. Inv s' \<and> same_but (loc c) (T s) (T s') \<and> created uid d r (T s' (loc c)))
    (\<lambda>e s'. Inv s' \<and> T s' = T s \<and> client_error tc e) s"
  unfolding createOrder_def wp_catchTenant
  by (rule write_wp [OF order_create_ok assms(1)]) (use assms(2) in \<open>auto simp: created_def\<close>)

lemma findOne_wp:
  assumes "Inv s" and "T s (loc c) = d"
  shows "wp (findOne P c oid uid)
    (\<lambda>f s'. Inv s' \<and> T s' = T s \<and> orders d oid = Some (fst f) \<and> o_userId (fst f) = uid \<and> full_of d (fst f) f)
    (\<lambda>e s'. Inv s' \<and> T s' = T s \<and> (e = orderNotFound oid \<and> (\<forall>r. orders d oid = Some r \<longrightarrow> o_userId r \<noteq> uid) \<or>
       client_error tc e)) s"
  unfolding findOne_def wp_bindE
  by (rule query_wp [OF order_findFirst_full_ok assms(1)])
     (use assms(2) full_of_fst in \<open>fastforce simp: wp_simps(1-2) split: option.split\<close>)+

end

end
