(* ===== verification/Products.thy ===== *)
theory Products
  imports OrderFacts
begin

text \<open>
  \<open>ProductService\<close> and \<open>ProductController\<close> (\<open>src/product\<close>). The two queries of \<open>findAll\<close> are
  started together by \<open>Promise.all\<close>; both only read, and they are run here in the order they are
  started.
\<close>

section \<open>The service\<close>

record create_product =
  cp_name :: string
  cp_description :: "string option"
  cp_price :: rat
  cp_stock :: "int option"

definition productCreate ::
  "'s prisma_api \<Rightarrow> prisma_client \<Rightarrow> tenant_context \<Rightarrow> create_product \<Rightarrow> ('s, product_row) handler" where
  "productCreate P c ctx dto =
    (if hasTenant ctx \<and> \<not> truthy (getTenantCode ctx)
     then throw (ForbiddenException ''Tenant context is required for ADMIN users'')
     else await_call (product_create P c (cp_name dto) (cp_description dto) (cp_price dto)
       (case cp_stock dto of None \<Rightarrow> 0 | Some n \<Rightarrow> n)))"

definition productFindAll ::
  "'s prisma_api \<Rightarrow> prisma_client \<Rightarrow> string \<Rightarrow> jsnum \<Rightarrow> jsnum \<Rightarrow> ('s, product_row page_result) handler" where
  "productFindAll P c tenantCode page perPage = catchTenant tenantCode (
    bindE (await_call (product_count P c)) (\<lambda>tot.
    bindE (await_call (product_findMany P c (js_mul (js_sub page (Num 1)) perPage) perPage)) (\<lambda>dat.
    let tp = totalPages tot perPage
    in ret \<lparr>pg_page = math_min page tp, pg_per_page = perPage, pg_total = tot, pg_total_pages = tp, pg_data = dat\<rparr>)))"

definition productFindOne :: "'s prisma_api \<Rightarrow> prisma_client \<Rightarrow> string \<Rightarrow> string \<Rightarrow> ('s, product_row) handler" where
  "productFindOne P c pid tenantCode = catchTenant tenantCode (
    bindE (await_call (product_findUnique P c pid)) (\<lambda>product.
    case product of None \<Rightarrow> throw (productNotFound pid) | Some p \<Rightarrow> ret p))"

definition productUpdate ::
  "'s prisma_api \<Rightarrow> prisma_client \<Rightarrow> string \<Rightarrow> product_data \<Rightarrow> string \<Rightarrow> ('s, product_row) handler" where
  "productUpdate P c pid dto tenantCode =
    bindE (productFindOne P c pid tenantCode) (\<lambda>_.
    catchTenant tenantCode (await_call (product_update P c pid dto)))"

definition productRemove :: "'s prisma_api \<Rightarrow> prisma_client \<Rightarrow> string \<Rightarrow> string \<Rightarrow> ('s, product_row) handler" where
  "productRemove P c pid tenantCode =
    bindE (productFindOne P c pid tenantCode) (\<lambda>_.
    catchTenant tenantCode (await_call (product_delete P c pid)))"

section \<open>The controller\<close>

definition productControllerFindAll ::
  "'s prisma_api \<Rightarrow> prisma_client \<Rightarrow> string \<Rightarrow> string option \<Rightarrow> string option \<Rightarrow> ('s, product_row page_result) handler" where
  "productControllerFindAll P c tenantCode page perPage =
    productFindAll P c tenantCode (pageNum page) (perPageNum perPage)"

section \<open>What the operations do\<close>

text \<open>\<open>ys\<close> lists the products of \<open>d\<close>, newest first.\<close>

definition catalogue :: "db \<Rightarrow> product_row list \<Rightarrow> bool" where
  "catalogue d ys \<longleftrightarrow> distinct (map p_id ys) \<and> set ys = ran (products d) \<and> sorted_wrt (\<ge>) (map p_createdAt ys)"

definition product_changed :: "db \<Rightarrow> string \<Rightarrow> product_row option \<Rightarrow> db \<Rightarrow> bool" where
  "product_changed d pid p d' \<longleftrightarrow> d' = d\<lparr>products := (products d)(pid := p)\<rparr>"

lemma skip_nat:
  assumes "1 \<le> n" and "(n - 1) * k \<le> 2 ^ 53" and "1 \<le> k"
  shows "js_mul (js_sub (Num (of_nat n)) (Num 1)) (Num (of_nat k)) = Num (of_nat ((n - 1) * k))"
proof -
  have "n - 1 \<le> (n - 1) * k" using assms(3) by simp
  then have "n - 1 \<le> 2 ^ 53" using assms(2) by linarith
  moreover have "of_nat n - 1 = (of_nat (n - 1) :: rat)" using assms(1) by (simp add: of_nat_diff)
  ultimately show ?thesis
    using norm_num_nat [of "n - 1"] norm_num_nat [OF assms(2)] by (simp only: js_sub.simps js_mul.simps of_nat_mult)
qed

context prisma_store
begin

lemma card_catalogue:
  assumes "Inv s" and "catalogue (T s k) ys"
  shows "card (dom (products (T s k))) = length ys"
proof -
  let ?ps = "products (T s k)"
  have id: "p_id p = i" if "?ps i = Some p" for i p
    using tables_wf [OF assms(1), of k] that unfolding db_wf_def by blast
  then have "dom ?ps = p_id ` ran ?ps" by (force simp: ran_def dom_def image_iff)
  moreover have "set ys = ran ?ps" and "distinct (map p_id ys)" using assms(2) by (auto simp: catalogue_def)
  ultimately have "dom ?ps = set (map p_id ys)" by simp
  then show ?thesis using distinct_card [OF \<open>distinct (map p_id ys)\<close>] by simp
qed

lemma productFindAll_wp:
  assumes "Inv s" and "T s (loc c) = d" and "1 \<le> n" "1 \<le> k" "(n - 1) * k \<le> 2 ^ 53"
  shows "wp (productFindAll P c tc (Num (of_nat n)) (Num (of_nat k)))
    (\<lambda>r s'. Inv s' \<and> T s' = T s \<and> (\<exists>ys. catalogue d ys \<and> pg_total r = length ys \<and> pg_data r = nth_page ys n k \<and>
       pg_total_pages r = totalPages (length ys) (Num (of_nat k)) \<and>
       pg_page r = math_min (Num (of_nat n)) (totalPages (length ys) (Num (of_nat k)))))
    (\<lambda>e s'. Inv s' \<and> T s' = T s \<and> client_error tc e) s"
  unfolding productFindAll_def wp_catchTenant wp_bindE skip_nat [OF assms(3,5,4)] Let_def
proof (rule query_wp [OF product_count_ok assms(1)], simp)
  fix tot s1 assume s1: "Inv s1" "T s1 = T s" and tot: "tot = card (dom (products (T s (loc c))))"
  show "wp (await_call (product_findMany P c (Num (of_nat ((n - 1) * k))) (Num (of_nat k))))
     (\<lambda>dat. wp (ret \<lparr>pg_page = math_min (Num (of_nat n)) (totalPages tot (Num (of_nat k))), pg_per_page = Num (of_nat k),
                pg_total = tot, pg_total_pages = totalPages tot (Num (of_nat k)), pg_data = dat\<rparr>)
        (\<lambda>r s'. Inv s' \<and> T s' = T s \<and> (\<exists>ys. catalogue d ys \<and> pg_total r = length ys \<and> pg_data r = nth_page ys n k \<and>
           pg_total_pages r = totalPages (length ys) (Num (of_nat k)) \<and>
           pg_page r = math_min (Num (of_nat n)) (totalPages (length ys) (Num (of_nat k)))))
        (\<lambda>e s'. Inv s' \<and> T s' = T s \<and> client_error tc (tenantDbError tc e)))
     (\<lambda>e s'. Inv s' \<and> T s' = T s \<and> client_error tc (tenantDbError tc e)) s1"
  proof (rule query_wp [OF product_findMany_ok s1(1)], use s1 in simp)
    fix xs s2 assume s2: "Inv s2" "T s2 = T s1" and "\<exists>ys. xs = take k (drop ((n - 1) * k) ys) \<and> distinct (map p_id ys) \<and>
      set ys = ran (products (T s1 (loc c))) \<and> sorted_wrt (\<ge>) (map p_createdAt ys)"
    then obtain ys where ys: "xs = nth_page ys n k" "catalogue (T s (loc c)) ys"
      using s1 by (auto simp: catalogue_def nth_page_def)
    then have "tot = length ys" using card_catalogue [OF assms(1)] tot by simp
    then show "wp (ret \<lparr>pg_page = math_min (Num (of_nat n)) (totalPages tot (Num (of_nat k))), pg_per_page = Num (of_nat k),
                pg_total = tot, pg_total_pages = totalPages tot (Num (of_nat k)), pg_data = xs\<rparr>)
        (\<lambda>r s'. Inv s' \<and> T s' = T s \<and> (\<exists>ys. catalogue d ys \<and> pg_total r = length ys \<and> pg_data r = nth_page ys n k \<and>
           pg_total_pages r = totalPages (length ys) (Num (of_nat k)) \<and>
           pg_page r = math_min (Num (of_nat n)) (totalPages (length ys) (Num (of_nat k)))))
        (\<lambda>e s'. Inv s' \<and> T s' = T s \<and> client_error tc (tenantDbError tc e)) s2"
      using ys s1 s2 assms(2) by (auto simp: wp_ret)
  qed
qed

lemma productFindOne_wp:
  assumes "Inv s" and "T s (loc c) = d"
  shows "wp (productFindOne P c pid tc)
    (\<lambda>p s'. Inv s' \<and> T s' = T s \<and> products d pid = Some p)
    (\<lambda>e s'. Inv s' \<and> T s' = T s \<and> (products d pid = None \<and> e = tenantDbError tc (productNotFound pid) \<or> client_error tc e)) s"
  unfolding productFindOne_def wp_catchTenant wp_bindE
  by (rule query_wp [OF product_findUnique_ok assms(1)]) (use assms(2) in \<open>auto simp: wp_simps(1-2) split: option.split\<close>)

lemma productUpdate_wp:
  assumes "Inv s" and "T s (loc c) = d"
  shows "wp (productUpdate P c pid w tc)
    (\<lambda>p' s'. Inv s' \<and> same_but (loc c) (T s) (T s') \<and> (\<exists>p t. products d pid = Some p \<and> p' = apply_product_data w t p) \<and>
       product_changed d pid (Some p') (T s' (loc c)))
    (\<lambda>e s'. Inv s' \<and> T s' = T s \<and> (products d pid = None \<and> e = tenantDbError tc (productNotFound pid) \<or> client_error tc e)) s"
  unfolding productUpdate_def wp_bindE wp_catchTenant
  by (rule wp_conseq [OF productFindOne_wp [OF assms]], rule write_wp [OF product_update_ok])
     (use assms(2) in \<open>auto simp: product_changed_def\<close>)

lemma productRemove_wp:
  assumes "Inv s" and "T s (loc c) = d"
  shows "wp (productRemove P c pid tc)
    (\<lambda>p s'. Inv s' \<and> same_but (loc c) (T s) (T s') \<and> products d pid = Some p \<and>
       (\<forall>i r. items d i = Some r \<longrightarrow> i_productId r \<noteq> pid) \<and> product_changed d pid None (T s' (loc c)))
    (\<lambda>e s'. Inv s' \<and> T s' = T s \<and> (products d pid = None \<and> e = tenantDbError tc (productNotFound pid) \<or> client_error tc e)) s"
  unfolding productRemove_def wp_bindE wp_catchTenant
  by (rule wp_conseq [OF productFindOne_wp [OF assms]], rule write_wp [OF product_delete_ok])
     (use assms(2) in \<open>auto simp: product_changed_def\<close>)

lemma productCreate_wp:
  assumes "Inv s" and "T s (loc c) = d"
  shows "wp (productCreate P c ctx dto)
    (\<lambda>p s'. Inv s' \<and> same_but (loc c) (T s) (T s') \<and> products d (p_id p) = None \<and> p_name p = cp_name dto \<and>
       p_description p = cp_description dto \<and> p_price p = round2 (cp_price dto) \<and>
       p_stock p = (case cp_stock dto of None \<Rightarrow> 0 | Some n \<Rightarrow> n) \<and> product_changed d (p_id p) (Some p) (T s' (loc c)))
    (\<lambda>e s'. Inv s' \<and> T s' = T s) s"
  unfolding productCreate_def wp_if wp_throw
  using assms(1) by (auto intro!: write_wp [OF product_create_ok] simp: product_changed_def assms(2))

end

end
