(* ===== verification/OrderTotals.thy ===== *)
theory OrderTotals
  imports OrderFacts
begin

text \<open>
  The order total is computed in binary64 and stored in a \<open>Decimal(10,2)\<close> column. The rounding
  errors of the sum are far below half a cent for every order that fits the column, so the
  stored total is the exact sum.
\<close>

definition cents :: "rat \<Rightarrow> bool" where
  "cents x \<longleftrightarrow> (\<exists>n. x = of_int n / 100)"

lemma cents_simps [simp]: "cents 0" "cents (round2 x)"
proof -
  show "cents 0" unfolding cents_def by (rule exI [of _ 0]) simp
  show "cents (round2 x)"
    unfolding cents_def round2_def
    by (cases "0 \<le> x") (auto simp: divide_simps intro: exI [of _ "- \<lfloor>- x * 100 + 1/2\<rfloor>"])
qed

lemma cents_add: "cents x \<Longrightarrow> cents y \<Longrightarrow> cents (x + y)"
  unfolding cents_def by (metis add_divide_distrib of_int_add)

lemma cents_mult: "cents x \<Longrightarrow> cents (x * of_int n)"
  unfolding cents_def by (metis of_int_mult times_divide_eq_left)

lemma cents_sum_list: "(\<And>x. x \<in> set xs \<Longrightarrow> cents (f x)) \<Longrightarrow> cents (sum_list (map f xs))"
  by (induction xs) (auto intro: cents_add)

text \<open>A value within half a cent of an amount is stored as that amount.\<close>

lemma round2_near:
  assumes "cents y" and "\<bar>x - y\<bar> < 1/200"
  shows "round2 x = y"
proof -
  obtain n where n: "y = of_int n / 100" using assms(1) by (auto simp: cents_def)
  have "\<lfloor>x * 100 + 1/2\<rfloor> = n" and "\<lfloor>- x * 100 + 1/2\<rfloor> = - n"
    using assms(2) unfolding n floor_eq_iff by (auto simp: abs_if field_simps split: if_splits)
  then show ?thesis by (simp add: round2_def n)
qed

text \<open>The exact amount of a list of items.\<close>

definition amount :: "item_row list \<Rightarrow> rat" where
  "amount xs = sum_list (map (\<lambda>it. i_price it * of_int (i_quantity it)) xs)"

text \<open>One unit of relative rounding error.\<close>

lemma fl_unit:
  obtains u :: rat where "0 < u" "u \<le> 1 / 9000000000000000" "\<And>x. \<bar>fl x - x\<bar> \<le> \<bar>x\<bar> * u"
proof
  show "(0::rat) < 1 / 2 ^ 53" and "(1::rat) / 2 ^ 53 \<le> 1 / 9000000000000000" by simp_all
  show "\<bar>fl x - x\<bar> \<le> \<bar>x\<bar> * (1 / 2 ^ 53)" for x using fl_error [of x] by simp
qed

lemma term_error:
  assumes u: "0 < u" "\<And>x. \<bar>fl x - x\<bar> \<le> \<bar>x\<bar> * u" and "0 \<le> p" and "0 \<le> (q :: rat)"
  shows "\<bar>fl (fl p * q) - p * q\<bar> \<le> 3 * (p * q) * u"
proof -
  have "\<bar>fl p * q - p * q\<bar> = \<bar>fl p - p\<bar> * q"
    using assms(4) by (simp add: abs_mult flip: left_diff_distrib)
  also have "\<dots> \<le> p * u * q"
    using u(2) [of p] assms(3,4) by (intro mult_right_mono) auto
  finally have 1: "\<bar>fl p * q - p * q\<bar> \<le> p * q * u" by (simp add: mult_ac)
  have "0 \<le> fl p * q" and "fl p * q \<le> 2 * (p * q)"
    using fl_nonneg [OF assms(3)] fl_le_double [of p] assms(3,4)
    by (auto simp: mult.assoc [symmetric] intro: mult_right_mono)
  then have "\<bar>fl (fl p * q) - fl p * q\<bar> \<le> 2 * (p * q) * u"
    using u(2) [of "fl p * q"] mult_right_mono [of "fl p * q" "2 * (p * q)" u] u(1) by simp
  moreover have "3 * (p * q) * u = 2 * (p * q) * u + p * q * u" by (simp add: algebra_simps)
  ultimately show ?thesis using 1 by linarith
qed

text \<open>The rounding errors of the whole sum.\<close>

lemma js_total_error:
  assumes u: "0 < u" "u \<le> 1 / 9000000000000000" "\<And>x. \<bar>fl x - x\<bar> \<le> \<bar>x\<bar> * u"
    and "\<forall>it\<in>set xs. 0 \<le> i_price it \<and> 0 \<le> i_quantity it"
    and "amount xs \<le> 100000000" and "length xs \<le> 100000"
  shows "0 \<le> amount xs \<and> \<bar>js_total xs - amount xs\<bar> \<le> (3 * amount xs + 200000000 * of_nat (length xs)) * u"
  using assms(4-6)
proof (induction xs rule: rev_induct)
  case Nil
  then show ?case by (simp add: js_total_def amount_def)
next
  case (snoc it xs)
  define v where "v = i_price it * of_int (i_quantity it)"
  define t where "t = fl (fl (i_price it) * of_int (i_quantity it))"
  have v: "0 \<le> v" using snoc.prems(1) by (simp add: v_def)
  have am: "amount (xs @ [it]) = amount xs + v" by (simp add: amount_def v_def)
  have js: "js_total (xs @ [it]) = fl (js_total xs + t)" by (simp add: js_total_def t_def)
  have IH: "0 \<le> amount xs" "\<bar>js_total xs - amount xs\<bar> \<le> (3 * amount xs + 200000000 * of_nat (length xs)) * u"
    using snoc.IH snoc.prems am v by auto
  have te: "\<bar>t - v\<bar> \<le> 3 * v * u"
    unfolding t_def v_def using term_error [OF u(1,3)] snoc.prems(1) by simp
  have "(3 * amount xs + 200000000 * of_nat (length xs)) * u \<le> 30000000000000 * (1 / 9000000000000000)"
    using snoc.prems(2,3) IH(1) v am u by (intro mult_mono) auto
  with IH(2) have "\<bar>js_total xs - amount xs\<bar> \<le> 1" by simp
  moreover have "3 * v * u \<le> 300000000 * (1 / 9000000000000000)"
    using snoc.prems(2) IH(1) v am u by (intro mult_mono) auto
  with te have "\<bar>t - v\<bar> \<le> 1" by simp
  ultimately have "\<bar>js_total xs + t\<bar> \<le> 200000000"
    using IH(1) am v snoc.prems(2) by linarith
  then have "\<bar>fl (js_total xs + t) - (js_total xs + t)\<bar> \<le> 200000000 * u"
    using u(1,3) by (meson mult_right_mono less_imp_le order_trans)
  moreover have "(3 * amount (xs @ [it]) + 200000000 * of_nat (length (xs @ [it]))) * u =
      (3 * amount xs + 200000000 * of_nat (length xs)) * u + 3 * v * u + 200000000 * u"
    by (simp add: am algebra_simps)
  ultimately have "\<bar>js_total (xs @ [it]) - amount (xs @ [it])\<bar>
      \<le> (3 * amount (xs @ [it]) + 200000000 * of_nat (length (xs @ [it]))) * u"
    using IH(2) te unfolding am js by linarith
  then show ?case using IH(1) v am by simp
qed

text \<open>The stored total is exact.\<close>

lemma total_exact:
  assumes "\<forall>it\<in>set xs. cents (i_price it) \<and> 0 \<le> i_price it \<and> 0 \<le> i_quantity it"
    and "amount xs \<le> 100000000" and "length xs \<le> 100000"
    and mk: "\<And>x. \<bar>mk x - x\<bar> \<le> \<bar>x\<bar> / 2 ^ 52"
  shows "round2 (mk (js_total xs)) = amount xs"
proof -
  obtain u where u: "0 < u" "u \<le> 1 / 9000000000000000" "\<And>x. \<bar>fl x - x\<bar> \<le> \<bar>x\<bar> * u"
    using fl_unit by metis
  have e: "0 \<le> amount xs" "\<bar>js_total xs - amount xs\<bar> \<le> (3 * amount xs + 200000000 * of_nat (length xs)) * u"
    using js_total_error [OF u] assms(1-3) by auto
  have "(3 * amount xs + 200000000 * of_nat (length xs)) * u \<le> 30000000000000 * (1 / 9000000000000000)"
    using assms(2,3) e(1) u by (intro mult_mono) auto
  then have d: "\<bar>js_total xs - amount xs\<bar> \<le> 1/300" using e(2) by simp
  have "\<bar>js_total xs\<bar> \<le> 100000001" using d e(1) assms(2) by linarith
  then have "\<bar>js_total xs\<bar> / 2 ^ 52 \<le> 100000001 / 2 ^ 52" by (rule divide_right_mono) simp
  also have "\<dots> \<le> (1/1000 :: rat)" by simp
  finally have "\<bar>mk (js_total xs) - js_total xs\<bar> \<le> 1/1000" using mk order_trans by blast
  with d have "\<bar>mk (js_total xs) - amount xs\<bar> < 1/200" by linarith
  moreover have "cents (amount xs)"
    unfolding amount_def using assms(1) by (auto intro!: cents_sum_list cents_mult)
  ultimately show ?thesis by (intro round2_near)
qed

section \<open>Orders\<close>

definition order_amount :: "db \<Rightarrow> string \<Rightarrow> rat" where
  "order_amount d oid = (\<Sum>it\<in>order_items d oid. i_price it * of_int (i_quantity it))"

text \<open>An order whose amount fits the \<open>Decimal(10,2)\<close> column, with at most 100000 lines.\<close>

definition small_order :: "db \<Rightarrow> string \<Rightarrow> bool" where
  "small_order d oid \<longleftrightarrow> (\<forall>it\<in>order_items d oid. cents (i_price it) \<and> 0 \<le> i_price it \<and> 0 \<le> i_quantity it) \<and>
     order_amount d oid \<le> 100000000 \<and> card (order_items d oid) \<le> 100000"

lemma lists_items_amount:
  assumes "lists_items d oid xs"
  shows "amount xs = order_amount d oid" and "length xs = card (order_items d oid)"
proof -
  have "distinct xs" and "set xs = order_items d oid"
    using assms by (auto simp: lists_items_def distinct_map)
  then show "amount xs = order_amount d oid" and "length xs = card (order_items d oid)"
    unfolding amount_def order_amount_def by (auto simp: sum_list_distinct_conv_sum_set simp flip: distinct_card)
qed

lemma total_updated_exact:
  assumes "total_updated mk d oid os" and "small_order d oid" and "\<And>x. \<bar>mk x - x\<bar> \<le> \<bar>x\<bar> / 2 ^ 52"
  shows "\<exists>r. os oid = Some r \<and> o_total r = order_amount d oid"
proof -
  obtain r t xs where xs: "lists_items d oid xs"
    and os: "os = (orders d)(oid \<mapsto> r\<lparr>o_total := round2 (mk (js_total xs)), o_updatedAt := t\<rparr>)"
    using assms(1) by (auto simp: total_updated_def)
  have "set xs = order_items d oid" using xs by (simp add: lists_items_def)
  then have "round2 (mk (js_total xs)) = amount xs"
    using assms(2) lists_items_amount [OF xs]
    by (intro total_exact) (use assms(3) in \<open>auto simp: small_order_def\<close>)
  then show ?thesis using os lists_items_amount [OF xs] by simp
qed

lemma order_items_items: "order_items (d\<lparr>items := items d'\<rparr>) = order_items d'"
  by (simp add: order_items_def fun_eq_iff)

lemma item_added_total:
  assumes "item_added mk d oid uid dto d'" and "small_order d' oid" and "\<And>x. \<bar>mk x - x\<bar> \<le> \<bar>x\<bar> / 2 ^ 52"
  shows "\<exists>r. orders d' oid = Some r \<and> o_total r = order_amount d' oid"
proof -
  have "small_order (d\<lparr>items := items d'\<rparr>) oid"
    using assms(2) by (simp add: small_order_def order_amount_def order_items_items)
  then show ?thesis
    using total_updated_exact [of mk "d\<lparr>items := items d'\<rparr>" oid "orders d'"] assms(1,3)
    by (auto simp: item_added_def order_amount_def order_items_items)
qed

section \<open>Lines\<close>

text \<open>Replacing or adding one row of the items table changes the items of one order.\<close>

definition keyed :: "(string \<rightharpoonup> item_row) \<Rightarrow> bool" where
  "keyed m \<longleftrightarrow> (\<forall>i r. m i = Some r \<longrightarrow> i_id r = i)"

lemma keyed_upd: "keyed m \<Longrightarrow> i_id r = i \<Longrightarrow> keyed (m(i \<mapsto> r))"
  by (auto simp: keyed_def)

lemma keyed_wf: "db_wf d \<Longrightarrow> keyed (items d)"
  by (auto simp: keyed_def db_wf_def)

lemma in_order_items: "keyed (items d) \<Longrightarrow> r \<in> order_items d oid \<longleftrightarrow> items d (i_id r) = Some r \<and> i_orderId r = oid"
  by (auto simp: keyed_def order_items_def)

lemma order_items_upd:
  assumes "keyed (items d)" and "i_id it' = i"
    and "\<And>it. items d i = Some it \<Longrightarrow> i_orderId it = i_orderId it'"
  shows "order_items (d\<lparr>items := (items d)(i \<mapsto> it')\<rparr>) x =
    (if i_orderId it' = x then insert it' (order_items d x - {r. i_id r = i}) else order_items d x)"
proof (rule set_eqI)
  fix r
  have k: "keyed (items (d\<lparr>items := (items d)(i \<mapsto> it')\<rparr>))" using assms(1,2) by (simp add: keyed_upd)
  show "r \<in> order_items (d\<lparr>items := (items d)(i \<mapsto> it')\<rparr>) x \<longleftrightarrow>
    r \<in> (if i_orderId it' = x then insert it' (order_items d x - {r. i_id r = i}) else order_items d x)"
    using assms(2,3) by (cases "i_id r = i") (auto simp: in_order_items [OF k] in_order_items [OF assms(1)])
qed

lemma same_id: "keyed (items d) \<Longrightarrow> r \<in> order_items d oid \<Longrightarrow> r' \<in> order_items d oid \<Longrightarrow> i_id r' = i_id r \<Longrightarrow> r' = r"
  by (auto simp: in_order_items)

lemma item_written_lines:
  assumes "db_wf d" and "item_written d oid dto pr its" and fin: "finite (order_items (d\<lparr>items := its\<rparr>) oid)"
  shows "ordered (d\<lparr>items := its\<rparr>) oid = (ordered d oid)(ai_productId dto := ordered d oid (ai_productId dto) + ai_quantity dto)"
    and "x \<noteq> oid \<Longrightarrow> order_items (d\<lparr>items := its\<rparr>) x = order_items d x"
proof -
  note k = keyed_wf [OF assms(1)]
  consider (upd) it t where "it \<in> order_items d oid" "i_productId it = ai_productId dto"
      "its = (items d)(i_id it \<mapsto> it\<lparr>i_quantity := i_quantity it + ai_quantity dto, i_updatedAt := t\<rparr>)"
    | (new) it where "items d (i_id it) = None" "i_orderId it = oid" "i_productId it = ai_productId dto"
      "i_quantity it = ai_quantity dto" "its = (items d)(i_id it \<mapsto> it)"
    using assms(2) unfolding item_written_def by blast
  then have "ordered (d\<lparr>items := its\<rparr>) oid = (ordered d oid)(ai_productId dto := ordered d oid (ai_productId dto) + ai_quantity dto)
    \<and> (x \<noteq> oid \<longrightarrow> order_items (d\<lparr>items := its\<rparr>) x = order_items d x)"
  proof cases
    case (upd it t)
    define it' where "it' = it\<lparr>i_quantity := i_quantity it + ai_quantity dto, i_updatedAt := t\<rparr>"
    have it': "i_id it' = i_id it" "i_productId it' = i_productId it" "i_orderId it' = i_orderId it"
      "i_quantity it' = i_quantity it + ai_quantity dto" by (simp_all add: it'_def)
    have it: "items d (i_id it) = Some it" "i_orderId it = oid" using upd(1) k by (auto simp: in_order_items)
    have "order_items d oid - {r. i_id r = i_id it} = order_items d oid - {it}"
      using same_id [OF k upd(1)] by blast
    then have oi: "order_items (d\<lparr>items := its\<rparr>) y =
        (if y = oid then insert it' (order_items d oid - {it}) else order_items d y)" for y
      using order_items_upd [OF k, of it' "i_id it" y] it it' upd(3) by (auto simp: it'_def [symmetric])
    have nin: "it' \<notin> order_items d oid - {it}" using same_id [OF k upd(1), of it'] it' by auto
    have f: "finite (order_items d oid)" using fin unfolding oi by simp
    have "ordered (d\<lparr>items := its\<rparr>) oid pid =
      ((ordered d oid)(ai_productId dto := ordered d oid (ai_productId dto) + ai_quantity dto)) pid" for pid
    proof (cases "pid = ai_productId dto")
      case True
      then have "{i \<in> insert it' (order_items d oid - {it}). i_productId i = pid} =
          insert it' ({i \<in> order_items d oid. i_productId i = pid} - {it})" using upd(2) it' by auto
      then show ?thesis
        using True f nin upd(1,2) it'(4) sum.remove [of "{i \<in> order_items d oid. i_productId i = pid}" it i_quantity]
        by (simp add: ordered_def oi)
    next
      case False
      then have "{i \<in> insert it' (order_items d oid - {it}). i_productId i = pid} =
          {i \<in> order_items d oid. i_productId i = pid}" using upd(2) it' by auto
      then show ?thesis using False by (simp add: ordered_def oi)
    qed
    then show ?thesis using oi by auto
  next
    case (new it)
    have "order_items d oid - {r. i_id r = i_id it} = order_items d oid"
      using new(1) k by (auto simp: in_order_items)
    then have oi: "order_items (d\<lparr>items := its\<rparr>) y = (if y = oid then insert it (order_items d oid) else order_items d y)" for y
      using order_items_upd [OF k, of it "i_id it" y] new by auto
    have nin: "it \<notin> order_items d oid" using new(1) k by (auto simp: in_order_items)
    have f: "finite (order_items d oid)" using fin unfolding oi by simp
    have "{i \<in> insert it (order_items d oid). i_productId i = pid} =
        (if pid = ai_productId dto then insert it {i \<in> order_items d oid. i_productId i = pid}
         else {i \<in> order_items d oid. i_productId i = pid})" for pid using new(3) by auto
    then show ?thesis using f nin new(4) by (auto simp: ordered_def oi fun_eq_iff)
  qed
  then show "ordered (d\<lparr>items := its\<rparr>) oid = (ordered d oid)(ai_productId dto := ordered d oid (ai_productId dto) + ai_quantity dto)"
    and "x \<noteq> oid \<Longrightarrow> order_items (d\<lparr>items := its\<rparr>) x = order_items d x" by blast+
qed

end
