(* ===== verification/OrderSystem.thy ===== *)
theory OrderSystem
  imports OrderTotals
begin

text \<open>
  The order operations on the database and the broker together: creating an order with its
  items, the messages, the consumers, and the listing over all tenants. The contract
  \<open>order_services\<close> adds to the two stores that neither touches what the other keeps.
\<close>

section \<open>An order under construction\<close>

text \<open>Nothing outside order \<open>oid\<close> and its lines differs.\<close>

definition order_frame :: "string \<Rightarrow> db \<Rightarrow> db \<Rightarrow> bool" where
  "order_frame oid d d' \<longleftrightarrow> products d' = products d \<and> (\<forall>i. i \<noteq> oid \<longrightarrow> orders d' i = orders d i) \<and>
     (\<forall>i r. i_orderId r \<noteq> oid \<longrightarrow> (items d' i = Some r \<longleftrightarrow> items d i = Some r))"

lemma order_frame_refl [simp]: "order_frame oid d d"
  by (simp add: order_frame_def)

lemma order_frame_trans: "order_frame oid d d1 \<Longrightarrow> order_frame oid d1 d2 \<Longrightarrow> order_frame oid d d2"
  by (simp add: order_frame_def)

definition requested :: "add_item list \<Rightarrow> string \<Rightarrow> int" where
  "requested ys pid = sum_list (map ai_quantity (filter (\<lambda>x. ai_productId x = pid) ys))"

lemma requested_simps [simp]:
  "requested [] = (\<lambda>_. 0)"
  "requested (ys @ [x]) = (requested ys)(ai_productId x := requested ys (ai_productId x) + ai_quantity x)"
  by (auto simp: requested_def fun_eq_iff)

text \<open>
  Order \<open>oid\<close> is open for \<open>uid\<close> with exactly the lines \<open>ys\<close> asks for, each at its product's
  price, and everything else is as in \<open>d\<close>. The total is exact when it fits its column and
  \<open>new Decimal\<close> is accurate.
\<close>

definition opened :: "(rat \<Rightarrow> rat) \<Rightarrow> string \<Rightarrow> add_item list \<Rightarrow> db \<Rightarrow> string \<Rightarrow> db \<Rightarrow> bool" where
  "opened mk uid ys d oid d' \<longleftrightarrow>
     orders d oid = None \<and> order_frame oid d d' \<and>
     ordered d' oid = requested ys \<and>
     (\<forall>it\<in>order_items d' oid. \<exists>p. products d (i_productId it) = Some p \<and> i_price it = round2 (p_price p)) \<and>
     (\<exists>r. orders d' oid = Some r \<and> o_userId r = uid \<and> o_status r = PENDING \<and>
        o_paymentId r = None \<and> o_transactionId r = None \<and>
        (small_order d' oid \<longrightarrow> (\<forall>x. \<bar>mk x - x\<bar> \<le> \<bar>x\<bar> / 2 ^ 52) \<longrightarrow> o_total r = order_amount d' oid))"

lemma opened_frame: "opened mk uid ys d oid d' \<Longrightarrow> order_frame oid d d'"
  by (simp add: opened_def)

lemma opened_fresh: "opened mk uid ys d oid d' \<Longrightarrow> orders d oid = None"
  by (simp add: opened_def)

lemma opened_new:
  assumes "db_wf d" and "created uid d r d'"
  shows "opened mk uid [] d (o_id r) d'"
proof -
  have "order_items d (o_id r) = {}"
    using assms by (fastforce simp: order_items_def db_wf_def created_def)
  then have "order_items d' (o_id r) = {}" using assms(2) by (simp add: order_items_def created_def)
  then show ?thesis
    using assms(2) by (auto simp: opened_def created_def order_frame_def ordered_def order_amount_def fun_eq_iff)
qed

lemma item_written_row:
  assumes "db_wf d" and "item_written d oid dto pr its"
  obtains row where "its = (items d)(i_id row \<mapsto> row)" "i_orderId row = oid" "i_productId row = ai_productId dto"
    "\<forall>it. items d (i_id row) = Some it \<longrightarrow> i_orderId it = oid \<and> i_productId it = i_productId row \<and> i_price it = i_price row"
    "items d (i_id row) = None \<longrightarrow> i_price row = round2 pr"
proof -
  note k = in_order_items [OF keyed_wf [OF assms(1)]]
  from assms(2) consider (upd) it t where "it \<in> order_items d oid" "i_productId it = ai_productId dto"
      "its = (items d)(i_id it \<mapsto> it\<lparr>i_quantity := i_quantity it + ai_quantity dto, i_updatedAt := t\<rparr>)"
    | (new) it where "items d (i_id it) = None" "i_orderId it = oid" "i_productId it = ai_productId dto"
      "i_price it = round2 pr" "its = (items d)(i_id it \<mapsto> it)"
    unfolding item_written_def by blast
  then show ?thesis
  proof cases
    case (upd it t)
    then show ?thesis
      using k by (intro that [of "it\<lparr>i_quantity := i_quantity it + ai_quantity dto, i_updatedAt := t\<rparr>"]) auto
  next
    case (new it)
    then show ?thesis by (intro that [of it]) auto
  qed
qed

lemma item_written_frame:
  assumes "db_wf d" and "item_written d oid dto pr its"
  shows "i_orderId r \<noteq> oid \<Longrightarrow> its i = Some r \<longleftrightarrow> items d i = Some r"
    and "it \<in> order_items (d\<lparr>items := its\<rparr>) oid \<Longrightarrow>
      (\<exists>it'\<in>order_items d oid. i_productId it' = i_productId it \<and> i_price it' = i_price it) \<or>
      i_productId it = ai_productId dto \<and> i_price it = round2 pr"
proof -
  obtain row where row: "its = (items d)(i_id row \<mapsto> row)" "i_orderId row = oid" "i_productId row = ai_productId dto"
    "\<forall>it. items d (i_id row) = Some it \<longrightarrow> i_orderId it = oid \<and> i_productId it = i_productId row \<and> i_price it = i_price row"
    "items d (i_id row) = None \<longrightarrow> i_price row = round2 pr"
    by (rule item_written_row [OF assms])
  show "its i = Some r \<longleftrightarrow> items d i = Some r" if "i_orderId r \<noteq> oid"
    using that row(1,2,4) by auto
  show "(\<exists>it'\<in>order_items d oid. i_productId it' = i_productId it \<and> i_price it' = i_price it) \<or>
      i_productId it = ai_productId dto \<and> i_price it = round2 pr" if "it \<in> order_items (d\<lparr>items := its\<rparr>) oid"
  proof (cases "it = row")
    case True
    show ?thesis
    proof (cases "items d (i_id row)")
      case None
      then show ?thesis using True row(3,5) by simp
    next
      case (Some it')
      then show ?thesis using True row(4) by (auto simp: order_items_def)
    qed
  next
    case False
    then have "it \<in> order_items d oid" using that by (auto simp: order_items_def row(1) split: if_splits)
    then show ?thesis by blast
  qed
qed

lemma written_frame:
  assumes "db_wf d" and "item_written d oid dto pr (items d')" and "products d' = products d" "orders d' = orders d"
  shows "order_frame oid d d'"
  unfolding order_frame_def using item_written_frame(1) [OF assms(1,2)] assms(3,4) by simp

lemma ordered_items: "ordered (d\<lparr>items := items d'\<rparr>) = ordered d'"
  by (simp add: ordered_def order_items_items fun_eq_iff)

text \<open>The effect of one \<open>addItemToOrder\<close> on the lines and outside the order.\<close>

lemma item_added_effect:
  assumes wf: "db_wf d" and add: "item_added mk d oid uid dto d'"
  shows "order_frame oid d d'"
    and "ordered d' oid = (ordered d oid)(ai_productId dto := ordered d oid (ai_productId dto) + ai_quantity dto)"
proof -
  obtain p :: product_row where w: "item_written d oid dto (p_price p) (items d')"
    and tot: "total_updated mk (d\<lparr>items := items d'\<rparr>) oid (orders d')" and pr: "products d' = products d"
    using add by (auto simp: item_added_def)
  obtain r t xs where xs: "lists_items (d\<lparr>items := items d'\<rparr>) oid xs" and os: "orders d' = (orders d)(oid \<mapsto> r)"
    using tot by (auto simp: total_updated_def)
  have "finite (order_items (d\<lparr>items := items d'\<rparr>) oid)" using xs unfolding lists_items_def by (metis List.finite_set)
  then show "ordered d' oid = (ordered d oid)(ai_productId dto := ordered d oid (ai_productId dto) + ai_quantity dto)"
    using item_written_lines(1) [OF wf w] by (simp add: ordered_items)
  show "order_frame oid d d'"
    using item_written_frame(1) [OF wf w] pr os by (simp add: order_frame_def)
qed

lemma opened_add:
  assumes wf: "db_wf d1" and op: "opened mk uid ys d oid d1" and add: "item_added mk d1 oid uid dto d2"
  shows "opened mk uid (ys @ [dto]) d oid d2"
proof -
  obtain r p where r: "can_add d1 oid uid dto r p" and w: "item_written d1 oid dto (p_price p) (items d2)"
    and tot: "total_updated mk (d1\<lparr>items := items d2\<rparr>) oid (orders d2)"
    using add by (auto simp: item_added_def)
  obtain t x where os: "orders d2 = (orders d1)(oid \<mapsto> r\<lparr>o_total := x, o_updatedAt := t\<rparr>)"
    using tot r by (auto simp: total_updated_def can_add_def)
  note eff = item_added_effect [OF wf add]
  have "ordered d2 oid = requested (ys @ [dto])" using eff(2) op by (simp add: opened_def)
  moreover have "order_frame oid d d2" using op eff(1) order_frame_trans by (auto simp: opened_def)
  moreover have "\<exists>p. products d (i_productId it) = Some p \<and> i_price it = round2 (p_price p)"
    if "it \<in> order_items d2 oid" for it
    using item_written_frame(2) [OF wf w, of it] that op r
    by (fastforce simp: opened_def order_items_items can_add_def order_frame_def)
  moreover have "\<exists>r. orders d2 oid = Some r \<and> o_userId r = uid \<and> o_status r = PENDING \<and>
      o_paymentId r = None \<and> o_transactionId r = None \<and>
      (small_order d2 oid \<longrightarrow> (\<forall>x. \<bar>mk x - x\<bar> \<le> \<bar>x\<bar> / 2 ^ 52) \<longrightarrow> o_total r = order_amount d2 oid)"
    using item_added_total [OF add] os r op by (auto simp: opened_def can_add_def)
  ultimately show ?thesis using op by (simp add: opened_def)
qed

text \<open>One message appended to one queue.\<close>

definition queued :: "string \<Rightarrow> string \<Rightarrow> (string \<Rightarrow> string list) \<Rightarrow> (string \<Rightarrow> string list) \<Rightarrow> bool" where
  "queued q m b b' \<longleftrightarrow> b' = b(q := b q @ [m])"

definition order_msg_text :: "string \<Rightarrow> string \<Rightarrow> string \<Rightarrow> string" where
  "order_msg_text oid uid tc = stringify (order_msg_json \<lparr>om_orderId = oid, om_userId = uid, om_tenantCode = tc\<rparr>)"

definition completed_msg_text :: "string \<Rightarrow> string \<Rightarrow> string \<Rightarrow> string \<Rightarrow> string" where
  "completed_msg_text oid uid tc tx = stringify (completed_msg_json
     \<lparr>cm_orderId = oid, cm_userId = uid, cm_tenantCode = tc, cm_transactionId = tx\<rparr>)"

text \<open>
  A client the database manager may hand out for tenant \<open>tc\<close>; the empty code and the code
  \<open>_default_\<close> share an entry with the default database.
\<close>

definition tenant_client :: "config \<Rightarrow> string \<Rightarrow> prisma_client \<Rightarrow> bool" where
  "tenant_client cfg tc c \<longleftrightarrow> tc \<noteq> [] \<longrightarrow> tc \<noteq> defaultKey \<longrightarrow> c = UrlClient (databaseUrl cfg tc)"

text \<open>Order \<open>oid\<close> of database \<open>k\<close> is updated with \<open>w\<close>, and nothing else.\<close>

definition order_set :: "order_data \<Rightarrow> string \<Rightarrow> (string \<rightharpoonup> order_row) \<Rightarrow> (string \<rightharpoonup> order_row) \<Rightarrow> bool" where
  "order_set w oid os os' \<longleftrightarrow> (\<exists>r t. os oid = Some r \<and> os' = os(oid \<mapsto> apply_order_data w t r))"

definition order_change :: "order_data \<Rightarrow> string \<Rightarrow> 'k \<Rightarrow> ('k \<Rightarrow> db) \<Rightarrow> ('k \<Rightarrow> db) \<Rightarrow> bool" where
  "order_change w oid k t t' \<longleftrightarrow> same_but k t t' \<and> items (t' k) = items (t k) \<and> products (t' k) = products (t k) \<and>
     order_set w oid (orders (t k)) (orders (t' k))"

section \<open>The services together\<close>

text \<open>
  Database calls leave the queues alone, and broker calls the tables: each store keeps its
  contract with the other's content held fixed. The connections of the database manager and
  the source of random identifiers are outside both.
\<close>

locale order_services =
  fixes P :: "'s prisma_api" and A :: "'s amqp_api" and M :: "'s manager" and gen :: "'s \<Rightarrow> string \<times> 's"
    and Inv :: "'s \<Rightarrow> bool" and T :: "'s \<Rightarrow> 'k \<Rightarrow> db" and loc :: "prisma_client \<Rightarrow> 'k"
    and Q :: "'s \<Rightarrow> string \<Rightarrow> string list"
  assumes store: "prisma_store P (\<lambda>s. Inv s \<and> Q s = q) T loc"
    and broker: "broker_store A (\<lambda>s. Inv s \<and> T s = t) Q"
    and conns: "Inv s \<Longrightarrow> conns_ok (mg_config M) (mg_get M s)"
    and connect: "Inv s \<Longrightarrow> conns_ok (mg_config M) cs \<Longrightarrow>
      Inv (mg_put M cs s) \<and> T (mg_put M cs s) = T s \<and> Q (mg_put M cs s) = Q s"
    and uuid: "Inv s \<Longrightarrow> Inv (snd (gen s)) \<and> T (snd (gen s)) = T s \<and> Q (snd (gen s)) = Q s"
    and ack: "Inv s \<Longrightarrow> Inv (snd (amqp_ack A tag s)) \<and> T (snd (amqp_ack A tag s)) = T s"
    and nack: "Inv s \<Longrightarrow> Inv (snd (amqp_nack A tag s)) \<and> T (snd (amqp_nack A tag s)) = T s"
begin

lemma wf: "Inv s \<Longrightarrow> db_wf (T s k)"
  using prisma_store.tables_wf [OF store, of s "Q s"] by simp

text \<open>Adding the requested items one after the other.\<close>

lemma addItems_wp:
  assumes "Inv s" and "opened (mkDecimal P) uid [] d oid (T s (loc c))"
  shows "wp (forEach xs (\<lambda>item. bindE (addItemToOrder P c oid uid (item_dto item) tc) (\<lambda>_. ret ())))
    (\<lambda>_ s'. Inv s' \<and> Q s' = Q s \<and> same_but (loc c) (T s) (T s') \<and>
       opened (mkDecimal P) uid (map item_dto xs) d oid (T s' (loc c)))
    (\<lambda>e s'. Inv s' \<and> Q s' = Q s \<and> same_but (loc c) (T s) (T s') \<and> order_frame oid d (T s' (loc c))) s"
    (is "wp (forEach xs ?body) ?Q ?E s")
proof (rule wp_forEach [where J = "\<lambda>ys s'. Inv s' \<and> Q s' = Q s \<and> same_but (loc c) (T s) (T s') \<and>
    opened (mkDecimal P) uid (map item_dto ys) d oid (T s' (loc c))"])
  fix ys x zs s1
  let ?dto = "item_dto x"
  assume J: "Inv s1 \<and> Q s1 = Q s \<and> same_but (loc c) (T s) (T s1) \<and>
    opened (mkDecimal P) uid (map item_dto ys) d oid (T s1 (loc c))"
  have w: "db_wf (T s1 (loc c))" using J wf by blast
  show "wp (?body x) (\<lambda>_ s'. Inv s' \<and> Q s' = Q s \<and> same_but (loc c) (T s) (T s') \<and>
    opened (mkDecimal P) uid (map item_dto (ys @ [x])) d oid (T s' (loc c))) ?E s1"
    unfolding wp_bindE wp_ret
  proof (rule wp_conseq [OF prisma_store.addItem_wp [OF store [of "Q s"], where s = s1 and c = c and d = "T s1 (loc c)"
      and oid = oid and uid = uid and dto = ?dto and tc = tc]])
    fix r s' assume r: "(Inv s' \<and> Q s' = Q s) \<and> same_but (loc c) (T s1) (T s') \<and>
      item_added (mkDecimal P) (T s1 (loc c)) oid uid ?dto (T s' (loc c))"
    have "opened (mkDecimal P) uid (map item_dto ys @ [?dto]) d oid (T s' (loc c))"
      using J r by (intro opened_add [OF w]) auto
    moreover have "same_but (loc c) (T s) (T s')" using J r same_but_trans [of "loc c" "T s" "T s1" "T s'"] by simp
    ultimately show "Inv s' \<and> Q s' = Q s \<and> same_but (loc c) (T s) (T s') \<and>
      opened (mkDecimal P) uid (map item_dto (ys @ [x])) d oid (T s' (loc c))"
      using r by simp
  next
    fix e s' assume "(Inv s' \<and> Q s' = Q s) \<and> same_but (loc c) (T s1) (T s') \<and>
      products (T s' (loc c)) = products (T s1 (loc c)) \<and> orders (T s' (loc c)) = orders (T s1 (loc c)) \<and>
      (T s' = T s1 \<and> (add_rejects (T s1 (loc c)) oid uid ?dto e \<or> client_error tc e) \<or>
       client_error tc e \<and> (\<exists>r p. can_add (T s1 (loc c)) oid uid ?dto r p \<and>
         item_written (T s1 (loc c)) oid ?dto (p_price p) (items (T s' (loc c)))))"
    then have "same_but (loc c) (T s1) (T s')" and "order_frame oid (T s1 (loc c)) (T s' (loc c))" and "Inv s' \<and> Q s' = Q s"
      using written_frame [OF w] by auto
    then show "?E e s'"
      using J same_but_trans [of "loc c" "T s" "T s1" "T s'"] order_frame_trans [OF opened_frame] by blast
  qed (use J in auto)
qed (use assms in auto)

text \<open>The message of a created order.\<close>

lemma enqueueOrderProcessing_wp:
  assumes "Inv s"
  shows "wp (enqueueOrderProcessing A oid uid tc)
    (\<lambda>_ s'. Inv s' \<and> T s' = T s \<and> queued orderProcessingQueue (order_msg_text oid uid tc) (Q s) (Q s'))
    (\<lambda>_ s'. Inv s' \<and> T s' = T s \<and> Q s' = Q s) s"
  unfolding enqueueOrderProcessing_def queued_def order_msg_text_def
  by (rule wp_conseq [OF broker_store.publishOrderProcessing_wp [OF broker [of "T s"]]]) (use assms in auto)

text \<open>\<open>create\<close> of the controller.\<close>

lemma controllerCreate_wp:
  assumes "Inv s" and "T s (loc c) = d"
  shows "wp (controllerCreate P A c user tc body)
    (\<lambda>f s'. Inv s' \<and> same_but (loc c) (T s) (T s') \<and>
       (\<exists>xs oid. body = Some xs \<and> xs \<noteq> [] \<and>
          opened (mkDecimal P) (au_id user) (map item_dto xs) d oid (T s' (loc c)) \<and>
          queued orderProcessingQueue (order_msg_text oid (au_id user) tc) (Q s) (Q s') \<and>
          orders (T s' (loc c)) oid = Some (fst f) \<and> full_of (T s' (loc c)) (fst f) f))
    (\<lambda>e s'. Inv s' \<and> same_but (loc c) (T s) (T s') \<and>
       (T s' = T s \<and> Q s' = Q s \<or>
        (\<exists>oid. orders d oid = None \<and> order_frame oid d (T s' (loc c)) \<and>
           (Q s' = Q s \<or> queued orderProcessingQueue (order_msg_text oid (au_id user) tc) (Q s) (Q s'))))) s"
    (is "wp _ ?Q ?E s")
proof (cases "body = None \<or> body = Some []")
  case True
  then show ?thesis using assms by (auto simp: controllerCreate_def wp_simps)
next
  case False
  then obtain xs where xs: "body = Some xs" "xs \<noteq> []" by auto
  have last: "wp (findOne P c oid (au_id user)) ?Q ?E s3"
    if s3: "Inv s3" "same_but (loc c) (T s) (T s3)"
      "opened (mkDecimal P) (au_id user) (map item_dto xs) d oid (T s3 (loc c))"
      "queued orderProcessingQueue (order_msg_text oid (au_id user) tc) (Q s) (Q s3)" for s3 oid
    by (rule wp_conseq [OF prisma_store.findOne_wp [OF store [of "Q s3"], where s = s3 and d = "T s3 (loc c)"]])
       (use s3 xs opened_frame [OF s3(3)] opened_fresh [OF s3(3)] in \<open>auto simp del: split_paired_Ex\<close>)
  have publish: "wp (bindE (enqueueOrderProcessing A oid (au_id user) tc) (\<lambda>_. findOne P c oid (au_id user))) ?Q ?E s2"
    if s2: "Inv s2" "Q s2 = Q s" "same_but (loc c) (T s) (T s2)"
      "opened (mkDecimal P) (au_id user) (map item_dto xs) d oid (T s2 (loc c))" for s2 oid
    unfolding wp_bindE
    by (rule wp_conseq [OF enqueueOrderProcessing_wp [OF s2(1)]])
       (use s2 last opened_frame [OF s2(4)] opened_fresh [OF s2(4)] in auto)
  have adds: "wp (bindE (forEach xs (\<lambda>item. bindE (addItemToOrder P c (o_id r) (au_id user) (item_dto item) tc) (\<lambda>_. ret ())))
      (\<lambda>_. bindE (enqueueOrderProcessing A (o_id r) (au_id user) tc) (\<lambda>_. findOne P c (o_id r) (au_id user)))) ?Q ?E s1"
    if s1: "Inv s1" "Q s1 = Q s" "same_but (loc c) (T s) (T s1)" "created (au_id user) d r (T s1 (loc c))" for s1 r
  proof -
    have op: "opened (mkDecimal P) (au_id user) [] d (o_id r) (T s1 (loc c))"
      using opened_new [OF wf [OF assms(1), of "loc c"]] s1(4) assms(2) by simp
    show ?thesis
      unfolding wp_bindE [of "forEach _ _"]
      by (rule wp_conseq [OF addItems_wp [OF s1(1) op]])
         (use s1 opened_fresh [OF op] publish same_but_trans [OF s1(3)] in auto)
  qed
  show ?thesis
    using xs unfolding controllerCreate_def
    by (simp only: option.sel option.simps if_False simp_thms wp_bindE [of "createOrder _ _ _ _"])
       (rule wp_conseq [OF prisma_store.createOrder_wp [OF store [of "Q s"], where s = s and d = d]],
        use assms adds in auto)
qed

text \<open>Completion is requested without looking at the order's status.\<close>

lemma enqueueOrderCompleted_wp:
  assumes "Inv s" and "T s (loc c) = d"
  shows "wp (enqueueOrderCompleted P A c oid uid tc tx)
    (\<lambda>b s'. Inv s' \<and> T s' = T s \<and> b \<and> (\<exists>r. orders d oid = Some r \<and> o_userId r = uid) \<and>
       queued orderCompletedQueue (completed_msg_text oid uid tc tx) (Q s) (Q s'))
    (\<lambda>e s'. Inv s' \<and> T s' = T s \<and> Q s' = Q s) s"
    (is "wp _ ?Q ?E s")
proof -
  have "wp (bindE (publishOrderCompletedMessage A \<lparr>cm_orderId = oid, cm_userId = uid,
      cm_tenantCode = tc, cm_transactionId = tx\<rparr>) (\<lambda>_. ret True)) ?Q ?E s1"
    if "Inv s1" "T s1 = T s" "Q s1 = Q s" "orders d oid = Some r" "o_userId r = uid" for s1 r
    unfolding wp_bindE wp_ret
    by (rule wp_conseq [OF broker_store.publishOrderCompleted_wp [OF broker [of "T s"]]])
       (use that in \<open>auto simp: queued_def completed_msg_text_def\<close>)
  then show ?thesis
    unfolding enqueueOrderCompleted_def wp_bindE [of "await_call (order_findUnique P c oid)"]
    by (intro query_wp [OF prisma_store.order_findUnique_ok [OF store [of "Q s"]]])
       (use assms in \<open>auto simp: wp_simps(1-2) split: option.split\<close>)
qed

section \<open>The worker\<close>

text \<open>The client of a tenant.\<close>

lemma clientFor_wp:
  assumes "Inv s" and "\<And>c s'. Inv s' \<Longrightarrow> T s' = T s \<Longrightarrow> Q s' = Q s \<Longrightarrow> tenant_client (mg_config M) tc c \<Longrightarrow> R c s'"
  shows "wp (clientFor M (Some tc)) R E s"
proof -
  define p where "p = getClient (mg_config M) (Some tc) (mg_get M s)"
  have "conns_ok (mg_config M) (snd p)" unfolding p_def by (intro getClient_ok conns assms(1))
  moreover have "tenant_client (mg_config M) tc (fst p)"
    unfolding p_def tenant_client_def using getClient_tenant [OF conns [OF assms(1)]] by blast
  ultimately show ?thesis
    unfolding clientFor_def wp_sync p_def [symmetric] split_beta using assms connect [OF assms(1)] by simp
qed

lemma update_in_tenant_wp:
  assumes "Inv s"
  shows "wp (await_call (order_update P c oid w))
    (\<lambda>_ s'. Inv s' \<and> Q s' = Q s \<and> same_but (loc c) (T s) (T s') \<and>
       items (T s' (loc c)) = items (T s (loc c)) \<and> products (T s' (loc c)) = products (T s (loc c)) \<and>
       order_set w oid (orders (T s (loc c))) (orders (T s' (loc c))))
    (\<lambda>e s'. Inv s' \<and> Q s' = Q s \<and> T s' = T s) s"
  by (rule write_wp [OF prisma_store.order_update_ok [OF store [of "Q s"]]])
     (use assms in \<open>auto simp: order_set_def\<close>)

lemma handleOrderProcessing_wp:
  assumes "Inv s"
  shows "wp (handleOrderProcessing P M gen m)
    (\<lambda>_ s'. Inv s' \<and> Q s' = Q s \<and> (\<exists>c pid. tenant_client (mg_config M) (om_tenantCode m) c \<and>
       order_change (no_order_data\<lparr>od_status := Some WAITING_FOR_PAYMENT, od_paymentId := Some pid\<rparr>)
         (om_orderId m) (loc c) (T s) (T s')))
    (\<lambda>e s'. Inv s' \<and> Q s' = Q s \<and> T s' = T s) s"
  unfolding handleOrderProcessing_def wp_bindE wp_ret
proof (rule clientFor_wp [OF assms])
  fix c s1 assume s1: "Inv s1" "T s1 = T s" "Q s1 = Q s" "tenant_client (mg_config M) (om_tenantCode m) c"
  have "Inv (snd (gen s1))" "T (snd (gen s1)) = T s" "Q (snd (gen s1)) = Q s" using uuid [OF s1(1)] s1 by auto
  then show "wp (sync gen) (\<lambda>pid. wp (await_call (order_update P c (om_orderId m)
      (no_order_data\<lparr>od_status := Some WAITING_FOR_PAYMENT, od_paymentId := Some pid\<rparr>)))
    (\<lambda>_ s'. Inv s' \<and> Q s' = Q s \<and> (\<exists>c pid. tenant_client (mg_config M) (om_tenantCode m) c \<and>
       order_change (no_order_data\<lparr>od_status := Some WAITING_FOR_PAYMENT, od_paymentId := Some pid\<rparr>)
         (om_orderId m) (loc c) (T s) (T s'))) (\<lambda>e s'. Inv s' \<and> Q s' = Q s \<and> T s' = T s))
    (\<lambda>e s'. Inv s' \<and> Q s' = Q s \<and> T s' = T s) s1"
    unfolding wp_sync using s1(4)
    by (intro wp_conseq [OF update_in_tenant_wp]) (auto simp: order_change_def)
qed

lemma handleOrderCompleted_wp:
  assumes "Inv s"
  shows "wp (handleOrderCompleted P M m)
    (\<lambda>_ s'. Inv s' \<and> Q s' = Q s \<and> (\<exists>c. tenant_client (mg_config M) (cm_tenantCode m) c \<and>
       order_change (no_order_data\<lparr>od_status := Some COMPLETE, od_transactionId := Some (cm_transactionId m)\<rparr>)
         (cm_orderId m) (loc c) (T s) (T s')))
    (\<lambda>e s'. Inv s' \<and> Q s' = Q s \<and> T s' = T s) s"
  unfolding handleOrderCompleted_def wp_bindE wp_ret
  by (rule clientFor_wp [OF assms], rule wp_conseq [OF update_in_tenant_wp]) (auto simp: order_change_def)

end

end
