(* ===== verification/OrderListing.thy ===== *)
theory OrderListing
  imports OrderSystem
begin

text \<open>
  The listing of a user's orders over all tenants (\<open>findAll\<close> of the service and of the
  controller): every row is an order of the caller, tagged with the tenant it comes from;
  nothing is changed; a tenant is missing only when its query rejected.
\<close>

text \<open>\<open>fs\<close> is the answer of one database: the orders of \<open>uid\<close>, each once.\<close>

definition lists_orders :: "db \<Rightarrow> string \<Rightarrow> order_full list \<Rightarrow> bool" where
  "lists_orders d uid fs \<longleftrightarrow> distinct (map (o_id \<circ> fst) fs) \<and>
     fst ` set fs = {r. \<exists>i. orders d i = Some r \<and> o_userId r = uid} \<and> (\<forall>f\<in>set fs. full_of d (fst f) f)"

lemma lists_orders_member:
  assumes "lists_orders d uid fs" and "f \<in> set fs"
  shows "(\<exists>i. orders d i = Some (fst f)) \<and> o_userId (fst f) = uid \<and> full_of d (fst f) f"
proof -
  have "fst f \<in> {r. \<exists>i. orders d i = Some r \<and> o_userId r = uid}"
    using assms unfolding lists_orders_def by blast
  then show ?thesis using assms unfolding lists_orders_def by blast
qed

lemma query_okD:
  "query_ok Inv T k f R \<Longrightarrow> Inv s \<Longrightarrow> f s = (r, s') \<Longrightarrow> Inv s' \<and> T s' = T s \<and> (\<forall>x. r = Inr x \<longrightarrow> R (T s k) x)"
  unfolding query_ok_def by (metis fst_conv snd_conv)

text \<open>
  The rows of tenant \<open>tn\<close> in a listing of \<open>uid\<close>, taken from the tables \<open>t\<close>; \<open>rej\<close> says that
  the listing may be empty because a query rejected.
\<close>

definition tenant_rows ::
  "config \<Rightarrow> (prisma_client \<Rightarrow> 'k) \<Rightarrow> ('k \<Rightarrow> db) \<Rightarrow> string \<Rightarrow> bool \<Rightarrow> string \<Rightarrow> (order_full \<times> string) list \<Rightarrow> bool" where
  "tenant_rows cfg loc t uid rej tn ys \<longleftrightarrow> ys = [] \<and> rej \<or>
     (\<exists>c fs. tenant_client cfg tn c \<and> lists_orders (t (loc c)) uid fs \<and> ys = map (\<lambda>f. (f, tn)) fs)"

lemma tenant_rowsI:
  "tenant_client cfg tn c \<Longrightarrow> lists_orders (t (loc c)) uid fs \<Longrightarrow>
   tenant_rows cfg loc t uid rej tn (map (\<lambda>f. (f, tn)) fs)"
  by (auto simp: tenant_rows_def)

text \<open>Every row of a listing belongs to the caller.\<close>

lemma tenant_rows_owned:
  assumes "list_all2 (tenant_rows cfg loc t uid rej) tenants yss" and "(f, tn) \<in> set (concat yss)"
  shows "tn \<in> set tenants \<and> (\<exists>c. tenant_client cfg tn c \<and>
    (\<exists>i. orders (t (loc c)) i = Some (fst f)) \<and> o_userId (fst f) = uid \<and> full_of (t (loc c)) (fst f) f)"
proof -
  from assms(2) obtain ys where "ys \<in> set yss" and ys: "(f, tn) \<in> set ys" by auto
  then obtain i where i: "i < length yss" "yss ! i = ys" by (auto simp: in_set_conv_nth)
  then have "tenant_rows cfg loc t uid rej (tenants ! i) ys" and "tenants ! i \<in> set tenants"
    using assms(1) by (auto simp: list_all2_conv_all_nth)
  then show ?thesis using ys lists_orders_member unfolding tenant_rows_def by fastforce
qed

context order_services
begin

lemma collectOrders_wp:
  fixes uid
  defines "rej \<equiv> \<exists>c s. Inv s \<and> isl (fst (order_findMany_full P c uid s))"
  assumes "Inv s"
  shows "wp (collectOrders P M uid tenants acc)
    (\<lambda>ys s'. Inv s' \<and> T s' = T s \<and> Q s' = Q s \<and>
       (\<exists>yss. ys = acc @ concat yss \<and> list_all2 (tenant_rows (mg_config M) loc (T s) uid rej) tenants yss))
    (\<lambda>_ _. False) s"
  using assms(2)
proof (induction tenants arbitrary: acc s)
  case Nil
  then show ?case by (simp add: wp_simps)
next
  case (Cons tn tenants)
  have rest: "wp (collectOrders P M uid tenants (acc @ ys))
    (\<lambda>ys s'. Inv s' \<and> T s' = T s \<and> Q s' = Q s \<and>
       (\<exists>yss. ys = acc @ concat yss \<and> list_all2 (tenant_rows (mg_config M) loc (T s) uid rej) (tn # tenants) yss))
    (\<lambda>_ _. False) s1"
    if s1: "Inv s1" "T s1 = T s" "Q s1 = Q s" and ys: "tenant_rows (mg_config M) loc (T s) uid rej tn ys" for s1 ys
  proof (rule wp_conseq [OF Cons.IH [OF s1(1), of "acc @ ys"]])
    fix zs s'
    assume "Inv s' \<and> T s' = T s1 \<and> Q s' = Q s1 \<and> (\<exists>yss. zs = (acc @ ys) @ concat yss \<and>
      list_all2 (tenant_rows (mg_config M) loc (T s1) uid rej) tenants yss)"
    then obtain yss where "zs = acc @ concat (ys # yss)"
      and "list_all2 (tenant_rows (mg_config M) loc (T s) uid rej) (tn # tenants) (ys # yss)"
      and "Inv s' \<and> T s' = T s \<and> Q s' = Q s" using s1 ys by auto
    then show "Inv s' \<and> T s' = T s \<and> Q s' = Q s \<and> (\<exists>yss. zs = acc @ concat yss \<and>
      list_all2 (tenant_rows (mg_config M) loc (T s) uid rej) (tn # tenants) yss)" by blast
  qed
  show ?case
    unfolding collectOrders.simps wp_bindE wp_tryCatch wp_ret
  proof (rule clientFor_wp [OF Cons.prems])
    fix c s1 assume s1: "Inv s1" "T s1 = T s" "Q s1 = Q s" "tenant_client (mg_config M) tn c"
    show "wp (await_call (order_findMany_full P c uid))
      (\<lambda>tenantOrders. wp (collectOrders P M uid tenants (acc @ map (\<lambda>f. (f, tn)) tenantOrders))
        (\<lambda>ys s'. Inv s' \<and> T s' = T s \<and> Q s' = Q s \<and> (\<exists>yss. ys = acc @ concat yss \<and>
           list_all2 (tenant_rows (mg_config M) loc (T s) uid rej) (tn # tenants) yss)) (\<lambda>_ _. False))
      (\<lambda>e. wp (collectOrders P M uid tenants acc)
        (\<lambda>ys s'. Inv s' \<and> T s' = T s \<and> Q s' = Q s \<and> (\<exists>yss. ys = acc @ concat yss \<and>
           list_all2 (tenant_rows (mg_config M) loc (T s) uid rej) (tn # tenants) yss)) (\<lambda>_ _. False)) s1"
    proof (cases "order_findMany_full P c uid s1")
      case (Pair r s2)
      have s2: "Inv s2" "T s2 = T s" "Q s2 = Q s"
        "\<And>fs. r = Inr fs \<Longrightarrow> lists_orders (T s (loc c)) uid fs"
        using query_okD [OF prisma_store.order_findMany_full_ok [OF store [of "Q s"], of c uid] _ Pair] s1
        unfolding lists_orders_def by auto
      have "isl r \<Longrightarrow> rej" using s1(1) Pair unfolding rej_def by (metis fst_conv)
      then show ?thesis
        using s2 rest [of s2 "[]"] rest [OF s2(1-3) tenant_rowsI [where loc = loc and t = "T s", OF s1(4) s2(4)]]
        by (cases r) (auto simp: wp_await_call Pair tenant_rows_def)
    qed
  qed
qed

end

text \<open>The listing also reads the default database's users.\<close>

locale order_listing = order_services P A M gen Inv T loc Q
  for P :: "'s prisma_api" and A :: "'s amqp_api" and M :: "'s manager" and gen :: "'s \<Rightarrow> string \<times> 's"
    and Inv :: "'s \<Rightarrow> bool" and T :: "'s \<Rightarrow> 'k \<Rightarrow> db" and loc :: "prisma_client \<Rightarrow> 'k"
    and Q :: "'s \<Rightarrow> string \<Rightarrow> string list" +
  fixes U :: "'s user_api"
  assumes ready: "Inv s \<Longrightarrow> Inv (snd (user_findMany_ready U c s)) \<and>
    T (snd (user_findMany_ready U c s)) = T s \<and> Q (snd (user_findMany_ready U c s)) = Q s"
begin

lemma findAll_wp:
  fixes uid
  defines "rej \<equiv> \<exists>c s. Inv s \<and> isl (fst (order_findMany_full P c uid s))"
  assumes "Inv s"
  shows "wp (findAll P U M uid page perPage)
    (\<lambda>r s'. Inv s' \<and> T s' = T s \<and> Q s' = Q s \<and>
       (\<exists>tenants yss. list_all2 (tenant_rows (mg_config M) loc (T s) uid rej) tenants yss \<and>
          r = paginate (sortOrders (concat yss)) page perPage))
    (\<lambda>_ s'. Inv s' \<and> T s' = T s \<and> Q s' = Q s) s"
proof -
  define s1 where "s1 = mg_put M (snd (getDefaultClient (mg_get M s))) s"
  have s1: "Inv s1" "T s1 = T s" "Q s1 = Q s"
    unfolding s1_def using connect [OF assms(2) getDefaultClient_ok [OF conns [OF assms(2)]]] by auto
  have tail: "wp (collectOrders P M uid tenants []) (\<lambda>ys. wp (ret (paginate (sortOrders ys) page perPage))
      (\<lambda>r s'. Inv s' \<and> T s' = T s \<and> Q s' = Q s \<and>
         (\<exists>tenants yss. list_all2 (tenant_rows (mg_config M) loc (T s) uid rej) tenants yss \<and>
            r = paginate (sortOrders (concat yss)) page perPage)) E) E s2"
    if "Inv s2" "T s2 = T s" "Q s2 = Q s" for tenants s2 E
    unfolding wp_ret rej_def
    by (rule wp_conseq [OF collectOrders_wp [OF that(1)]]) (use that in auto)
  show ?thesis
    unfolding findAll_def wp_bindE defaultClient_def wp_sync split_beta fst_conv snd_conv s1_def [symmetric]
    using s1 tail ready [OF s1(1)] by (auto simp: wp_await_call split: sum.split)
qed

end

end
