(* ===== verification/OrderInterleaving.thy ===== *)
theory OrderInterleaving
  imports OrderListing
begin

text \<open>
  Any number of requests and deliveries in flight at once, in this process and in the worker,
  interleaved at every \<open>await\<close>. The handlers are not transactional, yet across every
  interleaving no order, line or product disappears, owners, prices and links stay, an order
  never becomes pending again, and none is ever cancelled.
\<close>

section \<open>Evolution of the tables\<close>

definition order_evolves :: "order_row \<Rightarrow> order_row \<Rightarrow> bool" where
  "order_evolves r r' \<longleftrightarrow> o_id r' = o_id r \<and> o_userId r' = o_userId r \<and> o_createdAt r' = o_createdAt r \<and>
     (o_status r' = PENDING \<longrightarrow> o_status r = PENDING) \<and>
     (o_paymentId r \<noteq> None \<longrightarrow> o_paymentId r' \<noteq> None) \<and>
     (o_transactionId r \<noteq> None \<longrightarrow> o_transactionId r' \<noteq> None)"

definition item_evolves :: "item_row \<Rightarrow> item_row \<Rightarrow> bool" where
  "item_evolves r r' \<longleftrightarrow> r' = r\<lparr>i_quantity := i_quantity r', i_updatedAt := i_updatedAt r'\<rparr>"

definition product_evolves :: "product_row \<Rightarrow> product_row \<Rightarrow> bool" where
  "product_evolves p p' \<longleftrightarrow> p' = p\<lparr>p_stock := p_stock p', p_updatedAt := p_updatedAt p'\<rparr>"

text \<open>Every row of \<open>m\<close> is still in \<open>m'\<close>, evolved.\<close>

definition rows_evolve :: "('r \<Rightarrow> 'r \<Rightarrow> bool) \<Rightarrow> ('i \<rightharpoonup> 'r) \<Rightarrow> ('i \<rightharpoonup> 'r) \<Rightarrow> bool" where
  "rows_evolve ev m m' \<longleftrightarrow> (\<forall>i r. m i = Some r \<longrightarrow> (\<exists>r'. m' i = Some r' \<and> ev r r'))"

definition cancelled :: "db \<Rightarrow> string set" where
  "cancelled d = {i. \<exists>r. orders d i = Some r \<and> o_status r = CANCELLED}"

definition db_evolves :: "db \<Rightarrow> db \<Rightarrow> bool" where
  "db_evolves d d' \<longleftrightarrow> rows_evolve order_evolves (orders d) (orders d') \<and>
     rows_evolve item_evolves (items d) (items d') \<and>
     rows_evolve product_evolves (products d) (products d') \<and> dom (products d') = dom (products d) \<and>
     cancelled d' \<subseteq> cancelled d"

lemma evolves_refl [simp]: "order_evolves r r" "item_evolves i i" "product_evolves p p"
  by (auto simp: order_evolves_def item_evolves_def product_evolves_def)

lemma order_evolves_trans: "order_evolves r s \<Longrightarrow> order_evolves s t \<Longrightarrow> order_evolves r t"
  by (auto simp: order_evolves_def)

lemma item_evolves_trans: "item_evolves r s \<Longrightarrow> item_evolves s t \<Longrightarrow> item_evolves r t"
  by (cases r; cases s; cases t) (simp add: item_evolves_def)

lemma product_evolves_trans: "product_evolves r s \<Longrightarrow> product_evolves s t \<Longrightarrow> product_evolves r t"
  by (cases r; cases s; cases t) (simp add: product_evolves_def)

lemma rows_evolve_refl [simp]: "(\<And>r. ev r r) \<Longrightarrow> rows_evolve ev m m"
  by (simp add: rows_evolve_def)

lemma rows_evolve_trans:
  "(\<And>a b c. ev a b \<Longrightarrow> ev b c \<Longrightarrow> ev a c) \<Longrightarrow> rows_evolve ev m n \<Longrightarrow> rows_evolve ev n o' \<Longrightarrow> rows_evolve ev m o'"
  unfolding rows_evolve_def by meson

lemma rows_evolve_upd:
  "(\<And>r. ev r r) \<Longrightarrow> (\<And>r. m i = Some r \<Longrightarrow> ev r r') \<Longrightarrow> rows_evolve ev m (m(i \<mapsto> r'))"
  by (auto simp: rows_evolve_def)

lemma db_evolves_refl [simp]: "db_evolves d d"
  by (simp add: db_evolves_def)

lemma db_evolves_trans: "db_evolves d d1 \<Longrightarrow> db_evolves d1 d2 \<Longrightarrow> db_evolves d d2"
  unfolding db_evolves_def
  using rows_evolve_trans [of order_evolves "orders d" "orders d1" "orders d2", OF order_evolves_trans]
    rows_evolve_trans [of item_evolves "items d" "items d1" "items d2", OF item_evolves_trans]
    rows_evolve_trans [of product_evolves "products d" "products d1" "products d2", OF product_evolves_trans] by auto

text \<open>The writes of the order handlers.\<close>

lemma db_evolves_new_order:
  "orders d (o_id r) = None \<Longrightarrow> o_status r = PENDING \<Longrightarrow> db_evolves d (d\<lparr>orders := (orders d)(o_id r \<mapsto> r)\<rparr>)"
  by (auto simp: db_evolves_def cancelled_def intro!: rows_evolve_upd)

lemma db_evolves_order:
  assumes "orders d oid = Some r" and "order_evolves r r'" and "o_status r' = CANCELLED \<longrightarrow> o_status r = CANCELLED"
  shows "db_evolves d (d\<lparr>orders := (orders d)(oid \<mapsto> r')\<rparr>)"
  using assms by (auto simp: db_evolves_def cancelled_def intro!: rows_evolve_upd)

lemma order_evolves_apply:
  assumes "od_status w \<noteq> Some PENDING" and "od_status w \<noteq> Some CANCELLED"
  shows "order_evolves r (apply_order_data w t r)"
    and "o_status (apply_order_data w t r) = CANCELLED \<longrightarrow> o_status r = CANCELLED"
  using assms by (auto simp: order_evolves_def apply_order_data_def upd_opt_def split: option.splits)

lemma db_evolves_new_item: "items d (i_id r) = None \<Longrightarrow> db_evolves d (d\<lparr>items := (items d)(i_id r \<mapsto> r)\<rparr>)"
  by (auto simp: db_evolves_def cancelled_def intro!: rows_evolve_upd)

lemma db_evolves_item:
  "items d i = Some r \<Longrightarrow> db_evolves d (d\<lparr>items := (items d)(i \<mapsto> r\<lparr>i_quantity := q, i_updatedAt := t\<rparr>)\<rparr>)"
  by (auto simp: db_evolves_def cancelled_def item_evolves_def intro!: rows_evolve_upd)

lemma db_evolves_product:
  "products d i = Some p \<Longrightarrow> db_evolves d (d\<lparr>products := (products d)(i \<mapsto> p\<lparr>p_stock := n, p_updatedAt := t\<rparr>)\<rparr>)"
  by (auto simp: db_evolves_def cancelled_def product_evolves_def intro!: rows_evolve_upd)

section \<open>The handlers\<close>

text \<open>Every entry point of the order subsystem, with every argument.\<close>

inductive_set order_handlers ::
  "'s prisma_api \<Rightarrow> 's amqp_api \<Rightarrow> 's manager \<Rightarrow> ('s \<Rightarrow> string \<times> 's) \<Rightarrow> 's user_api \<Rightarrow> ('s, unit) async set"
  for P :: "'s prisma_api" and A :: "'s amqp_api" and M :: "'s manager" and gen :: "'s \<Rightarrow> string \<times> 's" and U :: "'s user_api"
  where
  create: "detach (controllerCreate P A c user tc body) \<in> order_handlers P A M gen U"
| listing: "detach (controllerFindAll P U M user ctx page perPage) \<in> order_handlers P A M gen U"
| find_one: "detach (controllerFindOne P c oid user) \<in> order_handlers P A M gen U"
| payment: "detach (controllerPaymentReceived P c oid user tc) \<in> order_handlers P A M gen U"
| complete: "detach (controllerComplete P A c oid user tc tx) \<in> order_handlers P A M gen U"
| checkout: "detach (checkoutOrder P c oid uid tc) \<in> order_handlers P A M gen U"
| complete_paid: "detach (completeOrder P c oid uid tc) \<in> order_handlers P A M gen U"
| processing: "detach (deliverOrderProcessing P A M gen tag content) \<in> order_handlers P A M gen U"
| completed: "detach (deliverOrderCompleted P A M tag content) \<in> order_handlers P A M gen U"

context order_listing
begin

definition G :: "'s \<Rightarrow> 's \<Rightarrow> bool" where
  "G s s' \<longleftrightarrow> (Inv s \<longrightarrow> Inv s' \<and> (\<forall>k. db_evolves (T s k) (T s' k)))"

definition safe :: "('s, 'a) handler \<Rightarrow> bool" where
  "safe m \<longleftrightarrow> guar Inv G (onRet (\<lambda>_. True)) m"

lemma safe_detach: "safe m \<Longrightarrow> guar Inv G (\<lambda>_. True) (detach m)"
  unfolding safe_def by (rule guar_detach)

lemma G_same: "Inv s' \<Longrightarrow> T s' = T s \<Longrightarrow> G s s'"
  by (simp add: G_def)

lemma safe_ret [guar_rules]: "safe (ret x)" and safe_throw [guar_rules]: "safe (throw e)"
  by (simp_all add: safe_def guar_ret guar_throw)

lemma safe_bindE [guar_rules]: "safe m \<Longrightarrow> (\<And>x. safe (f x)) \<Longrightarrow> safe (bindE m f)"
  unfolding safe_def by (rule guar_bindE)

lemma safe_tryCatch [guar_rules]: "safe m \<Longrightarrow> (\<And>e. safe (h e)) \<Longrightarrow> safe (tryCatch m h)"
  unfolding safe_def by (rule guar_tryCatch)

lemma safe_catchTenant [guar_rules]: "safe m \<Longrightarrow> safe (catchTenant tc m)"
  unfolding catchTenant_def by (intro safe_tryCatch safe_throw)

lemma safe_forEach [guar_rules]: "(\<And>x. safe (body x)) \<Longrightarrow> safe (forEach xs body)"
  unfolding safe_def by (rule guar_forEach)

lemma safe_option [guar_rules]: "safe m \<Longrightarrow> (\<And>x. safe (f x)) \<Longrightarrow> safe (case v of None \<Rightarrow> m | Some x \<Rightarrow> f x)"
  by (cases v) simp_all

lemma safe_if [guar_rules]: "(b \<Longrightarrow> safe m) \<Longrightarrow> (\<not> b \<Longrightarrow> safe n) \<Longrightarrow> safe (if b then m else n)"
  by simp

lemma safe_sync: "(\<And>s. Inv s \<Longrightarrow> Inv (snd (f s)) \<and> T (snd (f s)) = T s) \<Longrightarrow> safe (sync f)"
  unfolding safe_def by (rule guar_sync) (auto intro: G_same)

lemma safe_call: "(\<And>s. Inv s \<Longrightarrow> Inv (snd (f s)) \<and> T (snd (f s)) = T s) \<Longrightarrow> safe (await_call f)"
  unfolding safe_def by (rule guar_await_call) (auto intro: G_same)

lemma safe_query: "(\<And>q. query_ok (\<lambda>s. Inv s \<and> Q s = q) T k f R) \<Longrightarrow> safe (await_call f)"
  by (rule safe_call) (auto simp: query_ok_def)

lemma safe_write:
  assumes "\<And>q. write_ok (\<lambda>s. Inv s \<and> Q s = q) T k f R" and "\<And>d x d'. R d x d' \<Longrightarrow> db_evolves d d'"
  shows "safe (await_call f)"
  unfolding safe_def
proof (rule guar_await_call)
  fix s assume s: "Inv s"
  with assms(1) [of "Q s"] have "Inv (snd (f s))"
    and "case fst (f s) of Inl _ \<Rightarrow> T (snd (f s)) = T s | Inr x \<Rightarrow> \<exists>d. R (T s k) x d \<and> T (snd (f s)) = (T s)(k := d)"
    by (auto simp: write_ok_def)
  then show "G s (snd (f s))" using assms(2) by (auto simp: G_def split: sum.splits)
qed simp

lemmas reads [guar_rules] =
  safe_query [OF prisma_store.order_findUnique_ok [OF store]]
  safe_query [OF prisma_store.order_findUnique_items_ok [OF store]]
  safe_query [OF prisma_store.order_findFirst_full_ok [OF store]]
  safe_query [OF prisma_store.order_findMany_full_ok [OF store]]
  safe_query [OF prisma_store.item_findFirst_ok [OF store]]
  safe_query [OF prisma_store.item_findMany_ok [OF store]]
  safe_query [OF prisma_store.product_findUnique_ok [OF store]]

lemma safe_createOrder [guar_rules]: "safe (createOrder P c uid tc)"
  unfolding createOrder_def
  by (intro safe_catchTenant safe_write [OF prisma_store.order_create_ok [OF store]])
     (auto intro: db_evolves_new_order)

lemma safe_update [guar_rules]:
  assumes "od_status w \<noteq> Some PENDING" and "od_status w \<noteq> Some CANCELLED"
  shows "safe (await_call (order_update P c oid w))" and "safe (await_call (order_update_full P c oid w))"
  by (rule safe_write [OF prisma_store.order_update_ok [OF store]];
      use order_evolves_apply [OF assms] in \<open>auto intro!: db_evolves_order\<close>)
     (rule safe_write [OF prisma_store.order_update_full_ok [OF store]];
      use order_evolves_apply [OF assms] in \<open>auto intro!: db_evolves_order\<close>)

lemma safe_item_create [guar_rules]: "safe (await_call (item_create P c oid pid q pr))"
  by (rule safe_write [OF prisma_store.item_create_ok [OF store]]) (auto intro: db_evolves_new_item)

lemma safe_item_update [guar_rules]: "safe (await_call (item_update_quantity P c iid q))"
  by (rule safe_write [OF prisma_store.item_update_ok [OF store]]) (auto intro: db_evolves_item)

lemma safe_decrement [guar_rules]: "safe (await_call (product_decrement P c pid q))"
  by (rule safe_write [OF prisma_store.product_decrement_ok [OF store]]) (auto intro: db_evolves_product)

text \<open>The broker and the database manager.\<close>

lemma broker_frame:
  assumes "Inv s"
  shows "Inv (snd (amqp_connect A url s)) \<and> T (snd (amqp_connect A url s)) = T s"
    and "Inv (snd (amqp_createChannel A s)) \<and> T (snd (amqp_createChannel A s)) = T s"
    and "Inv (snd (amqp_assertQueue A q s)) \<and> T (snd (amqp_assertQueue A q s)) = T s"
    and "Inv (snd (amqp_sendToQueue A q msg s)) \<and> T (snd (amqp_sendToQueue A q msg s)) = T s"
    and "Inv (rmq_put A v s) \<and> T (rmq_put A v s) = T s"
  using broker_store.connect_Q [OF broker [of "T s"], of s] broker_store.createChannel_Q [OF broker [of "T s"], of s]
    broker_store.assertQueue_Q [OF broker [of "T s"], of s] broker_store.sendToQueue_Inv [OF broker [of "T s"], of s]
    broker_store.rmq_put_Q [OF broker [of "T s"], of s] assms by auto

lemma broker_calls [guar_rules]:
  "safe (await_call (amqp_connect A url))" "safe (await_call (amqp_createChannel A))"
  "safe (await_call (amqp_assertQueue A q))" "safe (await_call (amqp_sendToQueue A q msg))"
  "safe (await_call (amqp_ack A tag))" "safe (await_call (amqp_nack A tag))"
  by (rule safe_call, rule broker_frame ack nack, assumption)+

lemma safe_fields [guar_rules]: "safe (set_connection A)" "safe (set_channel A)"
  unfolding set_connection_def set_channel_def
  by (rule safe_sync, simp, rule broker_frame, assumption)+

lemma safe_waitForConnection [guar_rules]: "safe (waitForConnection A)"
proof -
  have "safe (waitLoop A n)" for n
  proof (induction n)
    case 0
    then show ?case by (simp add: guar_rules)
  next
    case (Suc n)
    then show ?case
      unfolding waitLoop.simps attemptConnection_def sleep_def by (intro guar_rules safe_sync) auto
  qed
  then show ?thesis by (simp add: waitForConnection_def)
qed

lemma safe_publish [guar_rules]:
  "safe (publishOrderProcessingMessage A om)" "safe (publishOrderCompletedMessage A cm)"
  unfolding publishOrderProcessingMessage_def publishOrderCompletedMessage_def rethrow_def
  by (intro guar_rules)+

lemma safe_clientFor [guar_rules]: "safe (clientFor M tc)"
  unfolding clientFor_def
  by (rule safe_sync, use connect getClient_ok [OF conns] in \<open>auto simp: split_beta\<close>)

lemma safe_defaultClient [guar_rules]: "safe (defaultClient M)"
  unfolding defaultClient_def
  by (rule safe_sync, use connect getDefaultClient_ok [OF conns] in \<open>auto simp: split_beta\<close>)

lemma safe_ready [guar_rules]: "safe (await_call (user_findMany_ready U c))"
  by (rule safe_call) (use ready in blast)

lemma safe_gen [guar_rules]: "safe (sync gen)"
  by (rule safe_sync) (use uuid in blast)

text \<open>The handlers.\<close>

lemma safe_addItem [guar_rules]: "safe (addItemToOrder P c oid uid dto tc)"
  unfolding addItemToOrder_def recalculateOrderTotal_def
  by (intro guar_rules) (simp_all add: no_order_data_def)

lemma safe_findOne [guar_rules]: "safe (findOne P c oid uid)"
  unfolding findOne_def by (intro guar_rules)

lemma safe_create: "safe (controllerCreate P A c user tc body)"
  unfolding controllerCreate_def enqueueOrderProcessing_def by (intro guar_rules)

lemma safe_findAll: "safe (controllerFindAll P U M user ctx page perPage)"
proof -
  have "safe (collectOrders P M uid tenants acc)" for uid tenants acc
    by (induction tenants arbitrary: acc) (auto intro!: guar_rules)
  then show ?thesis unfolding controllerFindAll_def findAll_def Let_def by (intro guar_rules)
qed

lemma safe_payment: "safe (controllerPaymentReceived P c oid user tc)"
  unfolding controllerPaymentReceived_def paymentReceived_def setStatus_def
  by (intro guar_rules) (simp_all add: no_order_data_def)

lemma safe_complete: "safe (controllerComplete P A c oid user tc tx)"
  unfolding controllerComplete_def enqueueOrderCompleted_def by (intro guar_rules)

lemma safe_checkout: "safe (checkoutOrder P c oid uid tc)" "safe (completeOrder P c oid uid tc)"
  unfolding checkoutOrder_def completeOrder_def checkStock_def setStatus_def
  by (intro guar_rules; simp add: no_order_data_def)+

lemma safe_deliver: "safe (deliverOrderProcessing P A M gen tag content)" "safe (deliverOrderCompleted P A M tag content)"
  unfolding deliverOrderProcessing_def deliverOrderCompleted_def onDelivery_def
    handleOrderProcessing_def handleOrderCompleted_def
  by (intro guar_rules; simp add: no_order_data_def)+

lemma handlers_guar: "h \<in> order_handlers P A M gen U \<Longrightarrow> guar Inv G (\<lambda>_. True) h"
  by (induction rule: order_handlers.induct)
     (simp_all add: safe_detach safe_create safe_findAll safe_findOne safe_payment safe_complete safe_checkout
        safe_deliver controllerFindOne_def)

end

text \<open>The order subsystem is an instance of the guarantee contract.\<close>

sublocale order_listing \<subseteq> system: guarantee Inv G "order_handlers P A M gen U"
proof
  show "G s s" for s by (simp add: G_def)
  show "G s t \<Longrightarrow> G t u \<Longrightarrow> G s u" for s t u unfolding G_def using db_evolves_trans by blast
  show "Inv s \<Longrightarrow> G s t \<Longrightarrow> Inv t" for s t by (simp add: G_def)
qed (rule handlers_guar)

context order_listing
begin

lemma interleaving_evolves:
  assumes "(cstep (order_handlers P A M gen U))\<^sup>*\<^sup>* ([], s) (ts, s')" and "Inv s"
  shows "Inv s' \<and> db_evolves (T s k) (T s' k)"
  using system.interleaving_keeps [OF assms] assms(2) by (simp add: G_def)

end

end
