(* ===== verification/Cache.thy ===== *)
theory Cache
  imports Tenancy JsJson
begin

text \<open>
  \<open>CacheService\<close>, \<open>CacheInterceptor\<close> and the cache decorators (\<open>src/common\<close>). Redis is the
  parameter \<open>'s redis_api\<close>. A response is the JSON value it is serialised to; the work that
  \<open>tap\<close> starts after the response has been emitted is returned beside the response, as a program
  of its own.
\<close>

section \<open>Interface of ioredis\<close>

record 's redis_api =
  redis_get :: "string \<Rightarrow> ('s, string option) call"
  redis_setex :: "string \<Rightarrow> int \<Rightarrow> string \<Rightarrow> ('s, unit) call"
  redis_del :: "string list \<Rightarrow> ('s, unit) call"
  redis_keys :: "string \<Rightarrow> ('s, string list) call"
  redis_ping :: "('s, string) call"
  redis_quit :: "('s, unit) call"

section \<open>JavaScript objects with string values\<close>

text \<open>Own properties in insertion order; assignment to an existing key keeps its place.\<close>

type_synonym js_object = "(string \<times> string) list"

fun js_put :: "string \<Rightarrow> 'v \<Rightarrow> (string \<times> 'v) list \<Rightarrow> (string \<times> 'v) list" where
  "js_put k v [] = [(k, v)]"
| "js_put k v ((k', v') # ob) = (if k' = k then (k, v) # ob else (k', v') # js_put k v ob)"

text \<open>\<open>Object.assign(target, source)\<close>, also the spread \<open>{...target, ...source}\<close>.\<close>

definition js_assign :: "js_object \<Rightarrow> js_object \<Rightarrow> js_object" where
  "js_assign target source = foldl (\<lambda>ob kv. js_put (fst kv) (snd kv) ob) target source"

text \<open>Enumeration lists array indices first, in ascending order, then the other keys.\<close>

definition is_index :: "string \<Rightarrow> bool" where
  "is_index k = (k \<noteq> [] \<and> list_all is_digit k \<and> show_nat (digits_val k) = k \<and> digits_val k < 4294967295)"

definition own_props :: "js_object \<Rightarrow> js_object" where
  "own_props ob = sort_key (\<lambda>kv. digits_val (fst kv)) (filter (\<lambda>kv. is_index (fst kv)) ob) @
     filter (\<lambda>kv. \<not> is_index (fst kv)) ob"

definition object_json :: "js_object \<Rightarrow> json" where
  "object_json ob = JObj (map (\<lambda>kv. (fst kv, JStr (snd kv))) (own_props ob))"

section \<open>The service\<close>

text \<open>The optional \<open>args\<close> of a key: a string or an object.\<close>

datatype key_args = KStr string | KObj js_object

definition cacheTenant :: "tenant_context \<Rightarrow> string option \<Rightarrow> string" where
  "cacheTenant ctx tenantCodeOverride =
    (case tenantCodeOverride of Some t \<Rightarrow> t | None \<Rightarrow> env_or (getTenantCode ctx) ''default'')"

definition generateCacheKey ::
  "tenant_context \<Rightarrow> string \<Rightarrow> string \<Rightarrow> key_args option \<Rightarrow> string option \<Rightarrow> string" where
  "generateCacheKey ctx controllerName methodName args tenantCodeOverride =
    cacheTenant ctx tenantCodeOverride @ '':'' @ controllerName @ '':'' @ methodName @
    (case args of
       None \<Rightarrow> []
     | Some (KStr a) \<Rightarrow> '':'' @ a
     | Some (KObj ob) \<Rightarrow> '':'' @ stringify (object_json ob))"

text \<open>\<open>get\<close>: a missing, empty or unreadable entry, and an error, are \<open>null\<close>.\<close>

definition cacheGet ::
  "'s redis_api \<Rightarrow> tenant_context \<Rightarrow> string \<Rightarrow> string \<Rightarrow> key_args option \<Rightarrow> ('s, json option) handler" where
  "cacheGet R ctx controllerName methodName args =
    tryCatch
      (bindE (await_call (redis_get R (generateCacheKey ctx controllerName methodName args None))) (\<lambda>cached.
       case cached of
         Some (c # cs) \<Rightarrow>
           (case json_parse (c # cs) of
              Some v \<Rightarrow> ret (Some v)
            | None \<Rightarrow> throw (RaisedError ''Unexpected token in JSON''))
       | _ \<Rightarrow> ret None))
      (\<lambda>_. ret None)"

definition cacheSet ::
  "'s redis_api \<Rightarrow> tenant_context \<Rightarrow> string \<Rightarrow> string \<Rightarrow> json \<Rightarrow> int \<Rightarrow> key_args option \<Rightarrow> ('s, unit) handler" where
  "cacheSet R ctx controllerName methodName v ttlSeconds args =
    tryCatch
      (await_call (redis_setex R (generateCacheKey ctx controllerName methodName args None) ttlSeconds (stringify v)))
      (\<lambda>_. ret ())"

definition cacheDel ::
  "'s redis_api \<Rightarrow> tenant_context \<Rightarrow> string \<Rightarrow> string \<Rightarrow> key_args option \<Rightarrow> string option \<Rightarrow> ('s, unit) handler" where
  "cacheDel R ctx controllerName methodName args tenantCodeOverride =
    tryCatch
      (await_call (redis_del R [generateCacheKey ctx controllerName methodName args tenantCodeOverride]))
      (\<lambda>_. ret ())"

text \<open>\<open>keys\<close> of a pattern, then \<open>del\<close> of what was found.\<close>

definition delKeys :: "'s redis_api \<Rightarrow> string \<Rightarrow> ('s, unit) handler" where
  "delKeys R pattern =
    tryCatch
      (bindE (await_call (redis_keys R pattern)) (\<lambda>ks.
       if ks = [] then ret () else await_call (redis_del R ks)))
      (\<lambda>_. ret ())"

definition delMethodUserKeys ::
  "'s redis_api \<Rightarrow> tenant_context \<Rightarrow> string \<Rightarrow> string \<Rightarrow> string \<Rightarrow> string option \<Rightarrow> ('s, unit) handler" where
  "delMethodUserKeys R ctx controllerName methodName userId tenantCodeOverride =
    delKeys R ((cacheTenant ctx tenantCodeOverride @ '':'' @ controllerName @ '':'' @ methodName @ '':'' @ userId) @ ''*'')"

definition delPattern :: "'s redis_api \<Rightarrow> tenant_context \<Rightarrow> string \<Rightarrow> string option \<Rightarrow> ('s, unit) handler" where
  "delPattern R ctx controllerName tenantCodeOverride =
    delKeys R ((cacheTenant ctx tenantCodeOverride @ '':'' @ controllerName @ '':'') @ ''*'')"

definition clearTenantCache :: "'s redis_api \<Rightarrow> tenant_context \<Rightarrow> ('s, unit) handler" where
  "clearTenantCache R ctx = delKeys R ((env_or (getTenantCode ctx) ''default'' @ '':'') @ ''*'')"

definition isHealthy :: "'s redis_api \<Rightarrow> ('s, bool) handler" where
  "isHealthy R = tryCatch (bindE (await_call (redis_ping R)) (\<lambda>result. ret (result = ''PONG''))) (\<lambda>_. ret False)"

definition cacheClose :: "'s redis_api \<Rightarrow> ('s, unit) handler" where
  "cacheClose R = await_call (redis_quit R)"

section \<open>The interceptor\<close>

record cache_options =
  co_ttl :: "int option"
  co_includeArgs :: "bool option"
  co_includeUserId :: "bool option"

datatype invalidate_target =
    TName string
  | TObj string "bool option" "bool option" "bool option"

text \<open>\<open>TObj method includeArgs includeUserId isDefaultTenant\<close>.\<close>

definition getMethodArguments :: "request \<Rightarrow> js_object option" where
  "getMethodArguments req =
    (let args = js_assign (js_assign [] (rq_params req)) (rq_query req)
     in if args = [] then None else Some args)"

text \<open>The key arguments of a cacheable method.\<close>

definition retrievalArgs :: "cache_options \<Rightarrow> request \<Rightarrow> key_args option" where
  "retrievalArgs co req =
    (let args = getMethodArguments req;
         shouldIncludeArgs = (co_includeArgs co \<noteq> Some False);
         argsKey = (if shouldIncludeArgs then map_option KObj args else None)
     in if co_includeUserId co = Some True
        then (case rq_user req of
            None \<Rightarrow> argsKey
          | Some u \<Rightarrow> (case argsKey of
              Some (KObj ob) \<Rightarrow> Some (KObj (js_assign [(''__userId'', au_id u)] ob))
            | _ \<Rightarrow> Some (KStr (au_id u))))
        else argsKey)"

definition invalidateTarget ::
  "'s redis_api \<Rightarrow> tenant_context \<Rightarrow> request \<Rightarrow> string \<Rightarrow> invalidate_target \<Rightarrow> ('s, unit) handler" where
  "invalidateTarget R ctx req controllerName target =
    (let method = (case target of TName m \<Rightarrow> m | TObj m _ _ _ \<Rightarrow> m);
         isDefaultTenant = (case target of TName _ \<Rightarrow> False | TObj _ _ _ d \<Rightarrow> d = Some True);
         tenantOverride = (if isDefaultTenant then Some ''default'' else None);
         includeArgs = (case target of TName _ \<Rightarrow> True | TObj _ a _ _ \<Rightarrow> a \<noteq> Some False);
         includeUserId = (case target of TName _ \<Rightarrow> False | TObj _ _ u _ \<Rightarrow> u = Some True);
         args = getMethodArguments req
     in if method = ''*'' then delPattern R ctx controllerName tenantOverride
        else if includeUserId
        then (case rq_user req of
            Some u \<Rightarrow>
              if includeArgs then delMethodUserKeys R ctx controllerName method (au_id u) tenantOverride
              else cacheDel R ctx controllerName method (Some (KStr (au_id u))) tenantOverride
          | None \<Rightarrow> cacheDel R ctx controllerName method None tenantOverride)
        else cacheDel R ctx controllerName method (if includeArgs then map_option KObj args else None) tenantOverride)"

text \<open>\<open>if (cached)\<close> on a parsed value.\<close>

fun js_truthy :: "json \<Rightarrow> bool" where
  "js_truthy JNull = False"
| "js_truthy (JBool b) = b"
| "js_truthy (JInt i) = (i \<noteq> 0)"
| "js_truthy (JStr s) = (s \<noteq> [])"
| "js_truthy (JArr _) = True"
| "js_truthy (JObj _) = True"

text \<open>
  \<open>next\<close> is the rest of the request; it may rebind the tenant context, so it returns the context
  that holds when its value is emitted.
\<close>

definition cacheIntercept ::
  "'s redis_api \<Rightarrow> cache_options option \<Rightarrow> invalidate_target list option \<Rightarrow> request \<Rightarrow> string \<Rightarrow> string \<Rightarrow>
   tenant_context \<Rightarrow> ('s, tenant_context \<times> json) handler \<Rightarrow> ('s, json \<times> ('s, unit) handler) handler" where
  "cacheIntercept R cacheOptions methodsToInvalidate req controllerName methodName ctx handle =
    (case methodsToInvalidate of
       Some targets \<Rightarrow>
         bindE handle (\<lambda>cd. ret (snd cd, forEach targets (invalidateTarget R (fst cd) req controllerName)))
     | None \<Rightarrow>
       (case cacheOptions of
          Some co \<Rightarrow>
            (let argsKey = retrievalArgs co req;
                 ttl = (case co_ttl co of None \<Rightarrow> 300 | Some t \<Rightarrow> if t = 0 then 300 else t)
             in bindE (cacheGet R ctx controllerName methodName argsKey) (\<lambda>cached.
                case cached of
                  Some v \<Rightarrow>
                    if js_truthy v then ret (v, ret ())
                    else bindE handle (\<lambda>cd. ret (snd cd, cacheSet R (fst cd) controllerName methodName (snd cd) ttl argsKey))
                | None \<Rightarrow> bindE handle (\<lambda>cd. ret (snd cd, cacheSet R (fst cd) controllerName methodName (snd cd) ttl argsKey))))
        | None \<Rightarrow> bindE handle (\<lambda>cd. ret (snd cd, ret ()))))"

text \<open>The decorators of the two order endpoints that invalidate, and the prefix they delete.\<close>

definition orderInvalidation :: invalidate_target where
  "orderInvalidation = TObj ''findAll'' None (Some True) (Some True)"

definition userPrefix :: "string \<Rightarrow> string" where
  "userPrefix uid = ''default:OrderController:findAll:'' @ uid"

section \<open>The contract of Redis\<close>

text \<open>
  \<open>C s\<close> is the content. Entries may expire at any time, so a call leaves at most what it should;
  \<open>get\<close> answers from the content; \<open>keys\<close> of a prefix without glob characters finds every key with
  that prefix.
\<close>

definition plain :: "string \<Rightarrow> bool" where
  "plain p = (\<forall>c\<in>set p. c \<notin> {CHR ''*'', CHR ''?'', CHR ''['', CHR '']'', CHR 0x5C})"

locale cache_store =
  fixes R :: "'s redis_api" and Inv :: "'s \<Rightarrow> bool" and C :: "'s \<Rightarrow> string \<rightharpoonup> string"
  assumes get_ok: "Inv s \<Longrightarrow> redis_get R k s = (g, s') \<Longrightarrow>
      Inv s' \<and> C s' \<subseteq>\<^sub>m C s \<and> (\<forall>v. g = Inr (Some v) \<longrightarrow> C s k = Some v)"
    and setex_ok: "Inv s \<Longrightarrow> redis_setex R k ttl v s = (r, s') \<Longrightarrow>
      Inv s' \<and> C s' \<subseteq>\<^sub>m (case r of Inl _ \<Rightarrow> C s | Inr _ \<Rightarrow> (C s)(k \<mapsto> v))"
    and del_ok: "Inv s \<Longrightarrow> redis_del R ks s = (r, s') \<Longrightarrow>
      Inv s' \<and> C s' \<subseteq>\<^sub>m (case r of Inl _ \<Rightarrow> C s | Inr _ \<Rightarrow> C s |` (- set ks))"
    and keys_ok: "Inv s \<Longrightarrow> redis_keys R p s = (found, s') \<Longrightarrow> Inv s' \<and> C s' \<subseteq>\<^sub>m C s"
    and keys_prefix: "Inv s \<Longrightarrow> redis_keys R (p @ ''*'') s = (Inr ks, s') \<Longrightarrow> plain p \<Longrightarrow>
      set ks = {k \<in> dom (C s'). startsWith k p}"
begin

text \<open>A pattern deletion that meets no error leaves no key with the prefix.\<close>

lemma delKeys_wp:
  assumes "Inv s" and "plain p"
    and res: "\<And>s. Inv s \<Longrightarrow> \<not> isl (fst (redis_keys R (p @ ''*'') s))" "\<And>ks s. Inv s \<Longrightarrow> \<not> isl (fst (redis_del R ks s))"
  shows "wp (delKeys R (p @ ''*'')) (\<lambda>_ s'. Inv s' \<and> C s' \<subseteq>\<^sub>m C s \<and> (\<forall>k\<in>dom (C s'). \<not> startsWith k p)) (\<lambda>_ _. False) s"
proof -
  obtain r1 s1 where k1: "redis_keys R (p @ ''*'') s = (r1, s1)" by fastforce
  then obtain ks where r1: "r1 = Inr ks" using res(1) [OF assms(1)] by (cases r1) auto
  have s1: "Inv s1" "C s1 \<subseteq>\<^sub>m C s" using keys_ok [OF assms(1) k1] by auto
  have ks: "set ks = {k \<in> dom (C s1). startsWith k p}"
    using keys_prefix [OF assms(1) k1 [unfolded r1] assms(2)] .
  show ?thesis
  proof (cases "ks = []")
    case True
    then show ?thesis using k1 r1 s1 ks by (auto simp: delKeys_def wp_simps wp_await_call)
  next
    case False
    obtain r2 s2 where k2: "redis_del R ks s1 = (r2, s2)" by fastforce
    then obtain u where r2: "r2 = Inr u" using res(2) [OF s1(1), of ks] by (cases r2) auto
    have s2: "Inv s2" "C s2 \<subseteq>\<^sub>m C s1 |` (- set ks)" using del_ok [OF s1(1) k2] r2 by auto
    have "\<not> startsWith k p" if k: "k \<in> dom (C s2)" for k
    proof -
      obtain y where "C s2 k = Some y" using k by blast
      then have "(C s1 |` (- set ks)) k = Some y" using s2(2) by (metis domI map_le_def)
      then have "k \<in> dom (C s1) - set ks" by (auto simp: restrict_map_def split: if_splits)
      then show ?thesis using ks by blast
    qed
    moreover have "C s1 |` (- set ks) \<subseteq>\<^sub>m C s1" by (auto simp: map_le_def restrict_map_def)
    then have "C s2 \<subseteq>\<^sub>m C s" using s2(2) s1(2) by (blast intro: map_le_trans)
    ultimately show ?thesis using False k1 k2 r1 r2 s2(1) by (simp add: delKeys_def wp_simps wp_await_call)
  qed
qed

lemma cacheGet_wp:
  assumes "Inv s"
  shows "wp (cacheGet R ctx c m a)
    (\<lambda>v s'. Inv s' \<and> C s' \<subseteq>\<^sub>m C s \<and>
       (\<forall>x. v = Some x \<longrightarrow> (\<exists>txt. C s (generateCacheKey ctx c m a None) = Some txt \<and> json_parse txt = Some x)))
    (\<lambda>_ _. False) s"
proof -
  obtain r s1 where g: "redis_get R (generateCacheKey ctx c m a None) s = (r, s1)" by fastforce
  from get_ok [OF assms g] show ?thesis
    using g by (auto simp: cacheGet_def wp_simps wp_await_call split: sum.split option.split list.split)
qed

lemma cacheSet_wp:
  assumes "Inv s"
  shows "wp (cacheSet R ctx c m v ttl a)
    (\<lambda>_ s'. Inv s' \<and> C s' \<subseteq>\<^sub>m (C s)(generateCacheKey ctx c m a None \<mapsto> stringify v)) (\<lambda>_ _. False) s \<or>
    wp (cacheSet R ctx c m v ttl a) (\<lambda>_ s'. Inv s' \<and> C s' \<subseteq>\<^sub>m C s) (\<lambda>_ _. False) s"
proof -
  obtain r s1 where g: "redis_setex R (generateCacheKey ctx c m a None) ttl (stringify v) s = (r, s1)" by fastforce
  from setex_ok [OF assms g] show ?thesis
    using g by (cases r) (auto simp: cacheSet_def wp_simps wp_await_call)
qed

end

section \<open>Keys\<close>

text \<open>A query argument named \<open>__userId\<close> replaces the user id that the interceptor put there.\<close>

lemma spoofed_object:
  "js_assign [(''__userId'', attacker)] (js_assign ob [(''__userId'', victim)]) =
   js_assign [(''__userId'', victim)] ob" if "''__userId'' \<notin> fst ` set ob"
proof -
  have app: "js_put k v ob = ob @ [(k, v)]" if "k \<notin> fst ` set ob" for k v and ob :: js_object
    using that by (induction ob) auto
  have comm: "foldl (\<lambda>ob kv. js_put (fst kv) (snd kv) ob) ((k, v) # ob') xs = (k, v) # foldl (\<lambda>ob kv. js_put (fst kv) (snd kv) ob) ob' xs"
    if "k \<notin> fst ` set xs" for k v and ob' xs :: js_object
    using that by (induction xs arbitrary: ob') auto
  show ?thesis
    using that by (simp add: js_assign_def app comm)
qed

text \<open>The text of the arguments in a key.\<close>

definition args_text :: "key_args option \<Rightarrow> string" where
  "args_text a = (case a of None \<Rightarrow> [] | Some (KStr x) \<Rightarrow> '':'' @ x | Some (KObj ob) \<Rightarrow> '':'' @ stringify (object_json ob))"

lemma key_text: "generateCacheKey ctx c m a ov = cacheTenant ctx ov @ CHR '':'' # c @ CHR '':'' # m @ args_text a"
  by (simp add: generateCacheKey_def args_text_def)

lemma colon_split:
  assumes "CHR '':'' \<notin> set a" and "CHR '':'' \<notin> set b"
  shows "a @ CHR '':'' # x = b @ CHR '':'' # y \<longleftrightarrow> a = b \<and> x = y"
  using assms
proof (induction a arbitrary: b)
  case Nil
  then show ?case by (cases b) auto
next
  case (Cons z a)
  then show ?case by (cases b) auto
qed

lemma colon_end:
  assumes "CHR '':'' \<notin> set a" and "CHR '':'' \<notin> set b" and "a @ args_text x = b @ args_text y"
  shows "a = b \<and> args_text x = args_text y"
proof -
  have tw: "takeWhile (\<lambda>c. c \<noteq> CHR '':'') (z @ args_text w) = z" if "CHR '':'' \<notin> set z" for z w
  proof -
    have "takeWhile (\<lambda>c. c \<noteq> CHR '':'') (args_text w) = []" by (auto simp: args_text_def split: option.split key_args.split)
    moreover have "\<forall>c\<in>set z. c \<noteq> CHR '':''" using that by auto
    ultimately show ?thesis by simp
  qed
  have "a = b" using tw [OF assms(1), of x] tw [OF assms(2), of y] assms(3) by metis
  then show ?thesis using assms(3) by simp
qed

lemma own_props_keys: "fst ` set (own_props ob) = fst ` set ob"
  by (auto simp: own_props_def)

section \<open>A reference Redis\<close>

text \<open>Entries in a list, none of which expires.\<close>

definition ref_redis :: "(string \<times> string) list redis_api" where
  "ref_redis = \<lparr>
     redis_get = \<lambda>k s. (Inr (map_of s k), s),
     redis_setex = \<lambda>k _ v s. (Inr (), (k, v) # s),
     redis_del = \<lambda>ks s. (Inr (), filter (\<lambda>e. fst e \<notin> set ks) s),
     redis_keys = \<lambda>p s. (Inr (filter (\<lambda>k. startsWith k (butlast p)) (map fst s)), s),
     redis_ping = \<lambda>s. (Inr ''PONG'', s), redis_quit = \<lambda>s. (Inr (), s)\<rparr>"

lemma map_of_filter_notin: "map_of (filter (\<lambda>e. fst e \<notin> K) s) = map_of s |` (- K)"
  by (induction s) (auto simp: restrict_map_def fun_eq_iff)

interpretation ref_cache: cache_store ref_redis "\<lambda>_. True" map_of
  by unfold_locales (auto simp: ref_redis_def map_of_filter_notin dom_map_of_conv_image_fst)

section \<open>Properties\<close>

text \<open>
  Keys separate tenants, controllers and methods: two cached entries share a key only if they
  belong to the same tenant, controller and method and their argument texts are equal, provided
  the names contain no colon.
\<close>

theorem keys_separate:
  assumes "generateCacheKey ctx c m a ov = generateCacheKey ctx' c' m' a' ov'"
    and "\<forall>x\<in>{cacheTenant ctx ov, cacheTenant ctx' ov', c, c', m, m'}. CHR '':'' \<notin> set x"
  shows "cacheTenant ctx ov = cacheTenant ctx' ov' \<and> c = c' \<and> m = m' \<and> args_text a = args_text a'"
proof -
  from assms(1) have "cacheTenant ctx ov = cacheTenant ctx' ov'" and "c @ CHR '':'' # m @ args_text a = c' @ CHR '':'' # m' @ args_text a'"
    unfolding key_text using colon_split assms(2) by simp_all
  moreover from this(2) have "c = c'" and "m @ args_text a = m' @ args_text a'" using colon_split assms(2) by simp_all
  ultimately show ?thesis using colon_end [of m m' a a'] assms(2) by simp
qed

theorem keys_separate_witness:
  "cacheTenant (Some ''acme'') None = cacheTenant None (Some ''acme'') \<and> ''OrderController'' = ''OrderController'' \<and>
   ''findAll'' = ''findAll'' \<and> args_text (Some (KStr ''u1'')) = args_text (Some (KStr ''u1''))"
  by (rule keys_separate) (code_simp, code_simp)

text \<open>
  C27: What is served from the cache was stored under the key of this very request: a cacheable
  request either answers with the parsed, truthy content stored under its key and does not run the
  handler, or runs the handler and answers with its value. A handler's exception is passed on and
  the cache never causes one.
\<close>

theorem cache_serves_stored_or_fresh:
  assumes "cache_store R Inv C" and "Inv s"
    and "run (cacheIntercept R (Some co) None req c m ctx handle) s = (r, s')"
  shows "\<exists>s1. Inv s1 \<and> C s1 \<subseteq>\<^sub>m C s \<and>
    ((\<exists>txt v. C s (generateCacheKey ctx c m (retrievalArgs co req) None) = Some txt \<and> json_parse txt = Some v \<and>
        js_truthy v \<and> r = Inr (v, ret ()) \<and> s' = s1) \<or>
     (case run handle s1 of
        (Inl e, s2) \<Rightarrow> r = Inl e \<and> s' = s2
      | (Inr cd, s2) \<Rightarrow> \<exists>after. r = Inr (snd cd, after) \<and> s' = s2))"
proof -
  let ?a = "retrievalArgs co req"
  obtain v s1 where g: "run (cacheGet R ctx c m ?a) s = (v, s1)" by fastforce
  have w: "wp (cacheGet R ctx c m ?a) (\<lambda>v s'. Inv s' \<and> C s' \<subseteq>\<^sub>m C s \<and>
       (\<forall>x. v = Some x \<longrightarrow> (\<exists>txt. C s (generateCacheKey ctx c m ?a None) = Some txt \<and> json_parse txt = Some x))) (\<lambda>_ _. False) s"
    by (rule cache_store.cacheGet_wp [OF assms(1,2)])
  then obtain x where v: "v = Inr x" and x: "Inv s1" "C s1 \<subseteq>\<^sub>m C s"
    "\<forall>y. x = Some y \<longrightarrow> (\<exists>txt. C s (generateCacheKey ctx c m ?a None) = Some txt \<and> json_parse txt = Some y)"
    using g by (cases v) (auto simp: wp_def)
  show ?thesis
    using assms(3) g v x
    by (intro exI [of _ s1])
       (auto simp: cacheIntercept_def Let_def async_simps split: option.splits if_splits prod.splits sum.splits)
qed

theorem cache_serves_stored_or_fresh_witness:
  "let req = \<lparr>rq_ip = ''ip'', rq_params = [], rq_query = [], rq_user = None\<rparr>;
       co = \<lparr>co_ttl = None, co_includeArgs = None, co_includeUserId = None\<rparr>;
       s = [(''default:ProductController:findAll'', ''7'')];
       handle = ret (None :: tenant_context, JInt 8);
       res = run (cacheIntercept ref_redis (Some co) None req ''ProductController'' ''findAll'' None handle) s
   in (\<exists>s1. True \<and> map_of s1 \<subseteq>\<^sub>m map_of s \<and>
     ((\<exists>txt v. map_of s (generateCacheKey None ''ProductController'' ''findAll'' (retrievalArgs co req) None) = Some txt \<and>
         json_parse txt = Some v \<and> js_truthy v \<and> fst res = Inr (v, ret ()) \<and> snd res = s1) \<or>
      (case run handle s1 of
         (Inl e, s2) \<Rightarrow> fst res = Inl e \<and> snd res = s2
       | (Inr cd, s2) \<Rightarrow> \<exists>after. fst res = Inr (snd cd, after) \<and> snd res = s2)))"
  unfolding Let_def
  by (rule cache_serves_stored_or_fresh [OF ref_cache.cache_store_axioms TrueI prod.collapse [symmetric]])

text \<open>
  A value stored for a request is the value read back for it: after a \<open>set\<close> that Redis accepted,
  \<open>get\<close> with the same tenant, method and arguments answers with the stored response or with a miss
  (the entry has expired or Redis fails), never with anything else and never with an exception; as
  long as Redis still holds an entry under the key it is the stored response.
\<close>

theorem cached_value_roundtrip:
  assumes "cache_store R Inv C" and "Inv s"
    and "run (cacheSet R ctx c m v ttl a) s = (r, s1)" and "run (cacheGet R ctx c m a) s1 = (g, s2)"
    and "\<not> isl (fst (redis_setex R (generateCacheKey ctx c m a None) ttl (stringify v) s))"
  shows "r = Inr () \<and> (g = Inr (Some v) \<or> g = Inr None) \<and>
    ((\<exists>t. fst (redis_get R (generateCacheKey ctx c m a None) s1) = Inr (Some t)) \<longrightarrow> g = Inr (Some v))"
proof -
  let ?k = "generateCacheKey ctx c m a None"
  obtain x xs where cell: "stringify v = x # xs" using stringify_nonempty [of v] by (cases "stringify v") auto
  then have parse: "json_parse (x # xs) = Some v" using json_roundtrip [of v] by simp
  obtain z s1' where z: "redis_setex R ?k ttl (stringify v) s = (z, s1')" by fastforce
  then have set: "r = Inr ()" "s1' = s1" "z = Inr ()"
    using assms(3,5) by (cases z; auto simp: cacheSet_def async_simps)+
  then have s1: "Inv s1" "C s1 \<subseteq>\<^sub>m (C s)(?k \<mapsto> stringify v)"
    using cache_store.setex_ok [OF assms(1,2) z] by auto
  obtain y s2' where y: "redis_get R ?k s1 = (y, s2')" by fastforce
  have "t = stringify v" if "y = Inr (Some t)" for t
  proof -
    have "C s1 ?k = Some t" using cache_store.get_ok [OF assms(1) s1(1) y] that by blast
    then have "((C s)(?k \<mapsto> stringify v)) ?k = Some t" using s1(2) unfolding map_le_def by (metis domI)
    then show ?thesis by simp
  qed
  then have "y = Inr (Some (x # xs)) \<or> y = Inr None \<or> isl y" using cell by (cases y) (auto split: option.split)
  then show ?thesis
    using assms(4) y set(1) parse by (elim disjE) (auto simp: cacheGet_def async_simps isl_def)
qed

theorem cached_value_roundtrip_witness:
  "let v = JObj [(''price'', JStr ''9.99'')]; a = Some (KStr ''x'');
       st = run (cacheSet ref_redis (Some ''acme'') ''ProductController'' ''findOne'' v 300 a) [];
       res = run (cacheGet ref_redis (Some ''acme'') ''ProductController'' ''findOne'' a) (snd st)
   in fst st = Inr () \<and> (fst res = Inr (Some v) \<or> fst res = Inr None) \<and>
      ((\<exists>t. fst (redis_get ref_redis (generateCacheKey (Some ''acme'') ''ProductController'' ''findOne'' a None) (snd st)) = Inr (Some t))
        \<longrightarrow> fst res = Inr (Some v))"
  unfolding Let_def
  by (rule cached_value_roundtrip [OF ref_cache.cache_store_axioms TrueI prod.collapse [symmetric] prod.collapse [symmetric]])
     (simp add: ref_redis_def)

text \<open>
  The invalidation after an order is created or completed removes, when Redis answers, every
  key that starts with the caller's prefix in the default tenant, in particular the listing cached
  without query arguments; it stores nothing.
\<close>

theorem order_invalidation_effective:
  assumes "cache_store R Inv C" and "Inv s" and "rq_user req = Some u" and "plain (au_id u)"
    and "\<And>p s. Inv s \<Longrightarrow> \<not> isl (fst (redis_keys R p s))" and "\<And>ks s. Inv s \<Longrightarrow> \<not> isl (fst (redis_del R ks s))"
    and "run (invalidateTarget R ctx req ''OrderController'' orderInvalidation) s = (r, s')"
  shows "r = Inr () \<and> C s' \<subseteq>\<^sub>m C s \<and> (\<forall>k\<in>dom (C s'). \<not> startsWith k (userPrefix (au_id u))) \<and>
    C s' (generateCacheKey None ''OrderController'' ''findAll'' (Some (KStr (au_id u))) None) = None"
proof -
  have pl: "plain (userPrefix (au_id u))" using assms(4) by (auto simp: plain_def userPrefix_def)
  have inv: "invalidateTarget R ctx req ''OrderController'' orderInvalidation = delKeys R (userPrefix (au_id u) @ ''*'')"
    using assms(3) by (simp add: invalidateTarget_def orderInvalidation_def delMethodUserKeys_def cacheTenant_def userPrefix_def)
  have "wp (delKeys R (userPrefix (au_id u) @ ''*''))
      (\<lambda>_ s'. Inv s' \<and> C s' \<subseteq>\<^sub>m C s \<and> (\<forall>k\<in>dom (C s'). \<not> startsWith k (userPrefix (au_id u)))) (\<lambda>_ _. False) s"
    by (rule cache_store.delKeys_wp [OF assms(1,2) pl assms(5,6)])
  then have *: "r = Inr () \<and> C s' \<subseteq>\<^sub>m C s \<and> (\<forall>k\<in>dom (C s'). \<not> startsWith k (userPrefix (au_id u)))"
    using assms(7) unfolding inv by (auto simp: wp_def split: sum.splits)
  have "startsWith (generateCacheKey None ''OrderController'' ''findAll'' (Some (KStr (au_id u))) None) (userPrefix (au_id u))"
    by (simp add: generateCacheKey_def cacheTenant_def getTenantCode_def env_or_def userPrefix_def startsWith_def)
  with * show ?thesis by blast
qed

theorem order_invalidation_effective_witness:
  "let u = \<lparr>au_id = ''alice'', au_email = [], au_username = [], au_role = CUSTOMER, au_tenantCode = None\<rparr>;
       req = \<lparr>rq_ip = ''ip'', rq_params = [(''tenantCode'', ''acme'')], rq_query = [], rq_user = Some u\<rparr>;
       s = [(''default:OrderController:findAll:alice'', ''[]''), (''default:OrderController:findAll:bob'', ''[]'')];
       res = run (invalidateTarget ref_redis (Some ''acme'') req ''OrderController'' orderInvalidation) s
   in fst res = Inr () \<and> map_of (snd res) \<subseteq>\<^sub>m map_of s \<and>
      (\<forall>k\<in>dom (map_of (snd res)). \<not> startsWith k (userPrefix (au_id u))) \<and>
      map_of (snd res) (generateCacheKey None ''OrderController'' ''findAll'' (Some (KStr (au_id u))) None) = None"
  unfolding Let_def
  by (rule order_invalidation_effective [OF ref_cache.cache_store_axioms TrueI _ _ _ _ prod.collapse [symmetric]])
     (simp_all add: plain_def ref_redis_def)

text \<open>
  The same invalidation misses every listing that was cached with query arguments: their keys
  hold a JSON object after the method name and never start with the prefix that is deleted.
\<close>

theorem paginated_listing_stays:
  assumes "retrievalArgs co req = Some (KObj ob)" and "uid \<noteq> []" and "hd uid \<noteq> CHR ''{''"
  shows "\<not> startsWith (generateCacheKey None ''OrderController'' ''findAll'' (retrievalArgs co req) None) (userPrefix uid)"
proof -
  obtain c cs where uid: "uid = c # cs" "c \<noteq> CHR ''{''" using assms(2,3) by (cases uid) auto
  have "generateCacheKey None ''OrderController'' ''findAll'' (retrievalArgs co req) None =
      ''default:OrderController:findAll:{'' @ tl (stringify (object_json ob))"
    unfolding assms(1) by (simp add: generateCacheKey_def cacheTenant_def getTenantCode_def env_or_def object_json_def)
  then show ?thesis using uid by (auto simp: userPrefix_def startsWith_def)
qed

theorem paginated_listing_stays_witness:
  "\<not> startsWith (generateCacheKey None ''OrderController'' ''findAll''
      (retrievalArgs \<lparr>co_ttl = Some 300, co_includeArgs = None, co_includeUserId = Some True\<rparr>
        \<lparr>rq_ip = ''ip'', rq_params = [], rq_query = [(''page'', ''1'')],
         rq_user = Some \<lparr>au_id = ''alice'', au_email = [], au_username = [], au_role = CUSTOMER, au_tenantCode = None\<rparr>\<rparr>) None)
     (userPrefix ''alice'')"
  by (rule paginated_listing_stays [where ob = "[(''__userId'', ''alice''), (''page'', ''1'')]"]) (code_simp, simp, simp)

text \<open>
  C40: A caller who adds the query argument \<open>__userId=v\<close> to a cacheable per-user request is served
  under the very key of user \<open>v\<close>'s own request: the user id put into the key by the interceptor is
  overwritten by the request's argument of the same name.
\<close>

theorem user_key_spoofed:
  assumes "co_includeUserId co = Some True" and "co_includeArgs co \<noteq> Some False"
    and "rq_user req = Some v" and "getMethodArguments req = Some ob" and "''__userId'' \<notin> fst ` set ob"
  shows "retrievalArgs co (req\<lparr>rq_user := Some attacker, rq_query := rq_query req @ [(''__userId'', au_id v)]\<rparr>) =
    retrievalArgs co req"
proof -
  have ob: "js_assign (js_assign [] (rq_params req)) (rq_query req) = ob" "ob \<noteq> []"
    using assms(4) by (auto simp: getMethodArguments_def Let_def split: if_splits)
  have "js_assign (js_assign [] (rq_params req)) (rq_query req @ [(''__userId'', au_id v)]) =
      js_assign ob [(''__userId'', au_id v)]"
    unfolding ob(1) [symmetric] by (simp add: js_assign_def)
  moreover have "js_assign ob [(''__userId'', au_id v)] \<noteq> []"
    using ob(2) by (cases ob) (auto simp: js_assign_def split: if_splits)
  ultimately have "getMethodArguments (req\<lparr>rq_user := Some attacker, rq_query := rq_query req @ [(''__userId'', au_id v)]\<rparr>) =
      Some (js_assign ob [(''__userId'', au_id v)])"
    by (simp add: getMethodArguments_def)
  then show ?thesis
    using assms spoofed_object [OF assms(5), of "au_id attacker" "au_id v"] by (simp add: retrievalArgs_def)
qed

theorem user_key_spoofed_witness:
  "let req = \<lparr>rq_ip = ''ip'', rq_params = [], rq_query = [(''page'', ''1'')],
         rq_user = Some \<lparr>au_id = ''alice'', au_email = [], au_username = [], au_role = CUSTOMER, au_tenantCode = None\<rparr>\<rparr>;
       mallory = \<lparr>au_id = ''mallory'', au_email = [], au_username = [], au_role = CUSTOMER, au_tenantCode = None\<rparr>;
       co = \<lparr>co_ttl = Some 300, co_includeArgs = None, co_includeUserId = Some True\<rparr>
   in retrievalArgs co (req\<lparr>rq_user := Some mallory, rq_query := rq_query req @ [(''__userId'', ''alice'')]\<rparr>) =
      retrievalArgs co req"
  using user_key_spoofed [of "\<lparr>co_ttl = Some 300, co_includeArgs = None, co_includeUserId = Some True\<rparr>"
      "\<lparr>rq_ip = ''ip'', rq_params = [], rq_query = [(''page'', ''1'')],
        rq_user = Some \<lparr>au_id = ''alice'', au_email = [], au_username = [], au_role = CUSTOMER, au_tenantCode = None\<rparr>\<rparr>"
      "\<lparr>au_id = ''alice'', au_email = [], au_username = [], au_role = CUSTOMER, au_tenantCode = None\<rparr>" "[(''page'', ''1'')]"
      "\<lparr>au_id = ''mallory'', au_email = [], au_username = [], au_role = CUSTOMER, au_tenantCode = None\<rparr>"]
  by (simp add: getMethodArguments_def js_assign_def)

text \<open>
  Updating or deleting a product never invalidates the cached product listings: the key that is
  deleted for \<open>findAll\<close> is built from the arguments of the update request, which contain the
  product's \<open>id\<close>, and no listing request has that argument.
\<close>

theorem product_update_misses_listing:
  assumes "getMethodArguments upd = Some ob" and "''id'' \<in> fst ` set ob"
    and "getMethodArguments listing = Some ob'" and "''id'' \<notin> fst ` set ob'"
  shows "generateCacheKey ctx c m (map_option KObj (getMethodArguments upd)) None \<noteq>
    generateCacheKey ctx c m (retrievalArgs \<lparr>co_ttl = Some 300, co_includeArgs = None, co_includeUserId = None\<rparr> listing) None"
proof
  assume "generateCacheKey ctx c m (map_option KObj (getMethodArguments upd)) None =
    generateCacheKey ctx c m (retrievalArgs \<lparr>co_ttl = Some 300, co_includeArgs = None, co_includeUserId = None\<rparr> listing) None"
  then have "stringify (object_json ob) = stringify (object_json ob')"
    using assms(1,3) by (simp add: generateCacheKey_def retrievalArgs_def)
  then have "object_json ob = object_json ob'" by (rule stringify_inj)
  then have "map (\<lambda>kv. (fst kv, JStr (snd kv))) (own_props ob) = map (\<lambda>kv. (fst kv, JStr (snd kv))) (own_props ob')"
    by (simp add: object_json_def)
  then have "map fst (map (\<lambda>kv. (fst kv, JStr (snd kv))) (own_props ob)) = map fst (map (\<lambda>kv. (fst kv, JStr (snd kv))) (own_props ob'))"
    by (rule arg_cong)
  then have "fst ` set (own_props ob) = fst ` set (own_props ob')" by (simp add: comp_def) (metis list.set_map)
  then show False using assms(2,4) by (simp add: own_props_keys)
qed

theorem product_update_misses_listing_witness:
  "generateCacheKey (Some ''acme'') ''ProductController'' ''findAll'' (map_option KObj (getMethodArguments
      \<lparr>rq_ip = ''ip'', rq_params = [(''tenantCode'', ''acme''), (''id'', ''p1'')], rq_query = [], rq_user = None\<rparr>)) None \<noteq>
   generateCacheKey (Some ''acme'') ''ProductController'' ''findAll'' (retrievalArgs
      \<lparr>co_ttl = Some 300, co_includeArgs = None, co_includeUserId = None\<rparr>
      \<lparr>rq_ip = ''ip'', rq_params = [(''tenantCode'', ''acme'')], rq_query = [], rq_user = None\<rparr>) None"
  by (rule product_update_misses_listing) (auto simp: getMethodArguments_def js_assign_def)

end
