(* ===== verification/RateLimit.thy ===== *)
theory RateLimit
  imports Tenancy
begin

text \<open>
  \<open>RateLimitInterceptor\<close> (\<open>src/common/interceptors/rate-limit.interceptor.ts\<close>): a fixed-window
  counter per key. \<open>counters\<close> is a map, \<open>Date.now()\<close> an argument in milliseconds; the metadata
  that \<open>Reflector\<close> reads are the decorators' option objects, an absent key being \<open>None\<close>.
\<close>

section \<open>Options and keys\<close>

record rate_limit_options =
  rl_windowMs :: "int option"
  rl_max :: "int option"
  rl_keyByUser :: "bool option"

record rl_resolved =
  windowMs :: int
  maxRequests :: int
  keyByUser :: bool

text \<open>\<open>{ ...defaultOptions, ...(controllerOpts ?? {}), ...(handlerOpts ?? {}) }\<close>.\<close>

definition overlay :: "rate_limit_options option \<Rightarrow> rl_resolved \<Rightarrow> rl_resolved" where
  "overlay opts r = (case opts of
      None \<Rightarrow> r
    | Some u \<Rightarrow> \<lparr>windowMs = (case rl_windowMs u of None \<Rightarrow> windowMs r | Some v \<Rightarrow> v),
        maxRequests = (case rl_max u of None \<Rightarrow> maxRequests r | Some v \<Rightarrow> v),
        keyByUser = (case rl_keyByUser u of None \<Rightarrow> keyByUser r | Some v \<Rightarrow> v)\<rparr>)"

definition resolveOptions :: "rate_limit_options option \<Rightarrow> rate_limit_options option \<Rightarrow> rl_resolved" where
  "resolveOptions handlerOpts controllerOpts =
    overlay handlerOpts (overlay controllerOpts \<lparr>windowMs = 60000, maxRequests = 60, keyByUser = True\<rparr>)"

text \<open>\<open>JwtStrategy\<close> always sets \<open>id\<close>; \<open>??\<close> passes over \<open>null\<close>.\<close>

definition buildKey :: "request \<Rightarrow> string \<Rightarrow> string \<Rightarrow> rl_resolved \<Rightarrow> string" where
  "buildKey req methodName controllerName options =
    (let userId = (if keyByUser options then map_option au_id (rq_user req) else None);
         tenant = (case Option.bind (rq_user req) au_tenantCode of
             Some t \<Rightarrow> t
           | None \<Rightarrow> (case map_of (rq_params req) ''tenantCode'' of Some t \<Rightarrow> t | None \<Rightarrow> ''no-tenant''));
         principal = (case userId of Some u \<Rightarrow> ''user:'' @ u | None \<Rightarrow> ''ip:'' @ rq_ip req)
     in tenant @ '':'' @ controllerName @ ''.'' @ methodName @ '':'' @ principal)"

section \<open>Counting\<close>

record counter_state =
  cs_count :: int
  windowStart :: int

type_synonym counters = "string \<rightharpoonup> counter_state"

definition countRequest :: "rl_resolved \<Rightarrow> string \<Rightarrow> int \<Rightarrow> counters \<Rightarrow> counters" where
  "countRequest options key now cs = (case cs key of
      None \<Rightarrow> cs(key \<mapsto> \<lparr>cs_count = 1, windowStart = now\<rparr>)
    | Some existing \<Rightarrow>
        if windowMs options \<le> now - windowStart existing
        then cs(key \<mapsto> \<lparr>cs_count = 1, windowStart = now\<rparr>)
        else cs(key \<mapsto> existing\<lparr>cs_count := cs_count existing + 1\<rparr>))"

record rl_headers =
  h_limit :: int
  h_remaining :: int
  h_reset :: int

text \<open>\<open>Math.ceil(resetInMs / 1000)\<close>.\<close>

definition ceil_seconds :: "int \<Rightarrow> int" where
  "ceil_seconds ms = - ((- ms) div 1000)"

definition tooMany :: exn where
  "tooMany = HttpException ''Too many requests. Please try again later.'' 429"

text \<open>The headers are set before the exception is thrown.\<close>

definition rateLimitIntercept ::
  "request \<Rightarrow> string \<Rightarrow> string \<Rightarrow> rate_limit_options option \<Rightarrow> rate_limit_options option \<Rightarrow> int \<Rightarrow> counters \<Rightarrow>
   ((exn + unit) \<times> rl_headers) \<times> counters" where
  "rateLimitIntercept req methodName controllerName handlerOpts controllerOpts now cs =
    (let options = resolveOptions handlerOpts controllerOpts;
         key = buildKey req methodName controllerName options;
         cs' = countRequest options key now cs;
         state = the (cs' key);
         remaining = max 0 (maxRequests options - cs_count state);
         resetInMs = max 0 (windowMs options - (now - windowStart state));
         headers = \<lparr>h_limit = maxRequests options, h_remaining = max 0 remaining, h_reset = ceil_seconds resetInMs\<rparr>
     in ((if maxRequests options < cs_count state then Inl tooMany else Inr (), headers), cs'))"

text \<open>A request is admitted when the interceptor does not throw.\<close>

definition admitted :: "rl_resolved \<Rightarrow> string \<Rightarrow> int \<Rightarrow> counters \<Rightarrow> bool" where
  "admitted options key now cs = (cs_count (the (countRequest options key now cs key)) \<le> maxRequests options)"

text \<open>The admissions of a sequence of requests, given by key and time.\<close>

primrec admissions :: "rl_resolved \<Rightarrow> counters \<Rightarrow> (string \<times> int) list \<Rightarrow> (string \<times> int) list" where
  "admissions options cs [] = []"
| "admissions options cs (r # rs) =
    (if admitted options (fst r) (snd r) cs then [r] else []) @
    admissions options (countRequest options (fst r) (snd r) cs) rs"

section \<open>Facts\<close>

lemma countRequest_at: "countRequest options key now cs key =
  (case cs key of
     None \<Rightarrow> Some \<lparr>cs_count = 1, windowStart = now\<rparr>
   | Some e \<Rightarrow> if windowMs options \<le> now - windowStart e then Some \<lparr>cs_count = 1, windowStart = now\<rparr>
       else Some (e\<lparr>cs_count := cs_count e + 1\<rparr>))"
  by (auto simp: countRequest_def split: option.split)

lemma countRequest_other: "k \<noteq> key \<Longrightarrow> countRequest options key now cs k = cs k"
  by (auto simp: countRequest_def split: option.split)

text \<open>The requests of one key: only its own counter matters.\<close>

definition of_key :: "string \<Rightarrow> (string \<times> int) list \<Rightarrow> (string \<times> int) list" where
  "of_key k = filter (\<lambda>r. fst r = k)"

lemma of_key_simps [simp]:
  "of_key k [] = []" "of_key k (r # rs) = (if fst r = k then r # of_key k rs else of_key k rs)"
  "of_key k (xs @ ys) = of_key k xs @ of_key k ys"
  by (simp_all add: of_key_def)

lemma countRequest_cong:
  "cs k = cs' k \<Longrightarrow> countRequest options k now cs k = countRequest options k now cs' k"
  by (simp add: countRequest_at)

lemma admissions_of_key:
  "cs k = cs' k \<Longrightarrow> of_key k (admissions options cs rs) = admissions options cs' (of_key k rs)"
proof (induction rs arbitrary: cs cs')
  case (Cons r rs)
  show ?case
  proof (cases "fst r = k")
    case True
    then have "countRequest options k (snd r) cs k = countRequest options k (snd r) cs' k"
      using Cons.prems by (rule_tac countRequest_cong)
    then show ?thesis
      using True Cons.IH [of "countRequest options k (snd r) cs" "countRequest options k (snd r) cs'"]
      by (simp add: admitted_def)
  next
    case False
    then have "countRequest options (fst r) (snd r) cs k = cs' k" using Cons.prems countRequest_other by metis
    then show ?thesis using False Cons.IH by simp
  qed
qed simp

text \<open>Admissions before time \<open>t\<close> out of a window that lasts until \<open>t\<close> at least.\<close>

definition before :: "int \<Rightarrow> (string \<times> int) list \<Rightarrow> nat" where
  "before t rs = length (filter (\<lambda>r. snd r < t) rs)"

lemma before_simps [simp]:
  "before t [] = 0" "before t (r # rs) = (if snd r < t then 1 else 0) + before t rs"
  "before t (xs @ ys) = before t xs + before t ys"
  by (simp_all add: before_def)

lemma admissions_subset: "set (admissions options cs rs) \<subseteq> set rs"
  by (induction rs arbitrary: cs) auto

lemma before_late:
  assumes "\<forall>r\<in>set rs. t \<le> snd r"
  shows "before t (admissions options cs rs) = 0"
  using assms admissions_subset [of options cs rs] by (force simp: before_def filter_empty_conv)

text \<open>Inside one window.\<close>

lemma window_bound:
  assumes "cs k = Some e" and "t \<le> windowStart e + windowMs options"
    and "\<forall>r\<in>set rs. fst r = k" and "sorted (map snd rs)"
  shows "int (before t (admissions options cs rs)) \<le> max 0 (maxRequests options - cs_count e)"
  using assms
proof (induction rs arbitrary: cs e)
  case (Cons r rs)
  show ?case
  proof (cases "snd r < t")
    case True
    let ?e = "e\<lparr>cs_count := cs_count e + 1\<rparr>"
    have k: "fst r = k" using Cons.prems(3) by simp
    have at: "countRequest options k (snd r) cs k = Some ?e"
      using Cons.prems(1,2) True by (simp add: countRequest_at)
    have "int (before t (admissions options (countRequest options k (snd r) cs) rs))
        \<le> max 0 (maxRequests options - cs_count ?e)"
      using Cons.prems at by (intro Cons.IH) auto
    then show ?thesis using True k at by (auto simp: admitted_def)
  next
    case False
    then have "\<forall>x\<in>set (r # rs). t \<le> snd x" using Cons.prems(4) by auto
    then show ?thesis using before_late [of "r # rs" t options cs] by simp
  qed
qed simp

text \<open>A stretch of one window's length meets at most two windows.\<close>

lemma two_windows:
  assumes "\<forall>r\<in>set rs. fst r = k \<and> t \<le> snd r" and "sorted (map snd rs)"
    and "0 \<le> maxRequests options" and "\<forall>e. cs k = Some e \<longrightarrow> 0 \<le> cs_count e"
  shows "int (before (t + windowMs options) (admissions options cs rs)) \<le>
    (case cs k of None \<Rightarrow> 0 | Some e \<Rightarrow> max 0 (maxRequests options - cs_count e)) + maxRequests options"
  using assms
proof (induction rs arbitrary: cs)
  case Nil
  then show ?case by (auto split: option.split)
next
  case (Cons r rs)
  let ?T = "t + windowMs options"
  have k: "fst r = k" and t: "t \<le> snd r" using Cons.prems(1) by auto
  show ?case
  proof (cases "\<exists>e. cs k = Some e \<and> snd r - windowStart e < windowMs options")
    case True
    then obtain e where e: "cs k = Some e" "snd r - windowStart e < windowMs options" by blast
    let ?e = "e\<lparr>cs_count := cs_count e + 1\<rparr>"
    have at: "countRequest options k (snd r) cs k = Some ?e" using e by (simp add: countRequest_at)
    have "int (before ?T (admissions options (countRequest options k (snd r) cs) rs))
        \<le> max 0 (maxRequests options - cs_count ?e) + maxRequests options"
      using Cons.IH [of "countRequest options k (snd r) cs"] Cons.prems at e(1) by auto
    then show ?thesis using k at e by (auto simp: admitted_def)
  next
    case False
    let ?e = "\<lparr>cs_count = 1, windowStart = snd r\<rparr>"
    have at: "countRequest options k (snd r) cs k = Some ?e"
      using False by (auto simp: countRequest_at split: option.split)
    have "int (before ?T (admissions options (countRequest options k (snd r) cs) rs)) \<le> max 0 (maxRequests options - 1)"
      using window_bound [of "countRequest options k (snd r) cs" k ?e ?T options rs] at Cons.prems(1,2) t by auto
    then show ?thesis
      using k at Cons.prems(3) by (auto simp: admitted_def split: option.split)
  qed
qed

text \<open>The counters after a sequence of requests; they are never negative.\<close>

definition countAll :: "rl_resolved \<Rightarrow> (string \<times> int) list \<Rightarrow> counters \<Rightarrow> counters" where
  "countAll options rs = fold (\<lambda>r. countRequest options (fst r) (snd r)) rs"

lemma admissions_append:
  "admissions options cs (xs @ ys) = admissions options cs xs @ admissions options (countAll options xs cs) ys"
  by (induction xs arbitrary: cs) (auto simp: countAll_def)

lemma countRequest_nonneg:
  "\<forall>k e. cs k = Some e \<longrightarrow> 0 \<le> cs_count e \<Longrightarrow> countRequest options key now cs k = Some e \<Longrightarrow> 0 \<le> cs_count e"
  by (auto simp: countRequest_def split: option.splits if_splits)

lemma countAll_nonneg:
  "\<forall>k e. cs k = Some e \<longrightarrow> 0 \<le> cs_count e \<Longrightarrow> countAll options rs cs k = Some e \<Longrightarrow> 0 \<le> cs_count e"
proof (induction rs arbitrary: cs)
  case (Cons r rs)
  have "\<forall>k e. countRequest options (fst r) (snd r) cs k = Some e \<longrightarrow> 0 \<le> cs_count e"
    using countRequest_nonneg [OF Cons.prems(1)] by blast
  from Cons.IH [OF this] Cons.prems(2) show ?case by (simp add: countAll_def)
qed (simp add: countAll_def)

lemma sorted_split:
  assumes "sorted (map snd rs)"
  shows "\<forall>r\<in>set (dropWhile (\<lambda>r. snd r < t) rs). t \<le> (snd r :: int)"
  using assms by (induction rs) auto

lemma length_filter_weaken: "(\<And>x. p x \<Longrightarrow> q x) \<Longrightarrow> length (filter p xs) \<le> length (filter q xs)"
  by (induction xs) (auto simp: le_SucI)

lemma one_key_bound:
  assumes "sorted (map snd rs)" and "0 \<le> maxRequests options" and "\<forall>r\<in>set rs. fst r = k"
  shows "int (length (filter (\<lambda>r. t \<le> snd r \<and> snd r < t + windowMs options) (admissions options Map.empty rs)))
    \<le> 2 * maxRequests options"
proof -
  let ?xs = "takeWhile (\<lambda>r. snd r < t) rs" and ?ys = "dropWhile (\<lambda>r. snd r < t) rs"
  define cs where "cs = countAll options ?xs Map.empty"
  have pos: "\<forall>e. cs k = Some e \<longrightarrow> 0 \<le> cs_count e"
    unfolding cs_def using countAll_nonneg [of Map.empty options ?xs k] by auto
  have xs: "filter (\<lambda>r. t \<le> snd r \<and> snd r < t + windowMs options) (admissions options Map.empty ?xs) = []"
    using admissions_subset [of options Map.empty ?xs] by (force simp: filter_empty_conv dest: set_takeWhileD)
  have "length (filter (\<lambda>r. t \<le> snd r \<and> snd r < t + windowMs options) (admissions options cs ?ys))
      \<le> before (t + windowMs options) (admissions options cs ?ys)"
    unfolding before_def by (rule length_filter_weaken) simp
  moreover have "int (before (t + windowMs options) (admissions options cs ?ys)) \<le>
      (case cs k of None \<Rightarrow> 0 | Some e \<Rightarrow> max 0 (maxRequests options - cs_count e)) + maxRequests options"
  proof (rule two_windows)
    show "\<forall>r\<in>set ?ys. fst r = k \<and> t \<le> snd r"
      using sorted_split [OF assms(1)] assms(3) by (meson set_dropWhileD)
    show "sorted (map snd ?ys)" using assms(1) by (metis map_append sorted_append takeWhile_dropWhile_id)
  qed (use assms pos in auto)
  moreover have "(case cs k of None \<Rightarrow> 0 | Some e \<Rightarrow> max 0 (maxRequests options - cs_count e)) \<le> maxRequests options"
    using pos assms(2) by (auto split: option.split)
  moreover have "admissions options Map.empty rs = admissions options Map.empty ?xs @ admissions options cs ?ys"
    unfolding cs_def admissions_append [symmetric] by simp
  ultimately show ?thesis using xs by simp
qed

section \<open>Properties\<close>



text \<open>
  The answer of the interceptor in terms of the client's counter: in a running window that has
  admitted fewer than \<open>max\<close> requests the request passes and \<open>X-RateLimit-Remaining\<close> is what is left;
  otherwise it is refused with status 429 and nothing remains. Once the window has run out, or for
  a client never seen, a new window opens and the request passes when \<open>max\<close> is positive. Only the
  counter of the request's own key changes.
\<close>

theorem rate_limit_answer:
  assumes "options = resolveOptions handlerOpts controllerOpts" and "key = buildKey req meth ctrl options"
    and "rateLimitIntercept req meth ctrl handlerOpts controllerOpts now cs = ((r, h), cs')"
  shows "\<exists>n. h_limit h = maxRequests options \<and>
    (case cs key of
       Some e \<Rightarrow> if now - windowStart e < windowMs options then n = cs_count e + 1 else n = 1
     | None \<Rightarrow> n = 1) \<and>
    (if n \<le> maxRequests options then r = Inr () \<and> h_remaining h = maxRequests options - n
     else r = Inl tooMany \<and> h_remaining h = 0) \<and>
    map_option cs_count (cs' key) = Some n \<and> (\<forall>k. k \<noteq> key \<longrightarrow> cs' k = cs k)"
proof -
  have cs': "cs' = countRequest options key now cs"
    and r: "r = (if maxRequests options < cs_count (the (cs' key)) then Inl tooMany else Inr ())"
    and h: "h_limit h = maxRequests options" "h_remaining h = max 0 (max 0 (maxRequests options - cs_count (the (cs' key))))"
    using assms(3) unfolding rateLimitIntercept_def Let_def assms(1,2) by auto
  show ?thesis
    using h r countRequest_other [of _ key options now cs]
    by (intro exI [of _ "cs_count (the (cs' key))"]) (auto simp: cs' countRequest_at not_less split: option.splits)
qed

theorem rate_limit_answer_witness:
  "let req = \<lparr>rq_ip = ''10.0.0.1'', rq_params = [], rq_query = [], rq_user = None\<rparr>;
       cs = [''no-tenant:ProductController.findAll:ip:10.0.0.1'' \<mapsto> \<lparr>cs_count = 30, windowStart = 1000\<rparr>];
       ho = Some \<lparr>rl_windowMs = Some 60000, rl_max = Some 30, rl_keyByUser = None\<rparr>;
       res = rateLimitIntercept req ''findAll'' ''ProductController'' ho None 2000 cs
   in fst (fst res) = Inl tooMany \<and> h_remaining (snd (fst res)) = 0"
proof -
  define req where "req = \<lparr>rq_ip = ''10.0.0.1'', rq_params = [], rq_query = [], rq_user = None\<rparr>"
  define cs :: counters where "cs = [''no-tenant:ProductController.findAll:ip:10.0.0.1'' \<mapsto> \<lparr>cs_count = 30, windowStart = 1000\<rparr>]"
  define ho where "ho = Some \<lparr>rl_windowMs = Some 60000, rl_max = Some 30, rl_keyByUser = None\<rparr>"
  define res where "res = rateLimitIntercept req ''findAll'' ''ProductController'' ho None 2000 cs"
  have o: "resolveOptions ho None = \<lparr>windowMs = 60000, maxRequests = 30, keyByUser = True\<rparr>" unfolding ho_def by code_simp
  have k: "cs (buildKey req ''findAll'' ''ProductController'' (resolveOptions ho None)) = Some \<lparr>cs_count = 30, windowStart = 1000\<rparr>"
    unfolding o unfolding req_def cs_def by code_simp
  have eq: "rateLimitIntercept req ''findAll'' ''ProductController'' ho None 2000 cs = ((fst (fst res), snd (fst res)), snd res)"
    by (simp add: res_def)
  from rate_limit_answer [OF refl refl eq] show ?thesis
    unfolding k unfolding o by (auto simp: res_def req_def cs_def ho_def Let_def)
qed

end
