(* ===== verification/Http.thy ===== *)
theory Http
  imports Cache RateLimit
begin

text \<open>
  What surrounds every handler: the request log (\<open>LoggingInterceptor\<close>), the response envelope
  (\<open>ApiResponseInterceptor\<close> and its decorator), the rate limiter as an effect on the process, and the
  masking of database URLs in log lines. The clock, the logger and the response object are the
  parameter \<open>'s web_env\<close>; the class \<open>URL\<close> is the parameter \<open>'u url_api\<close>.
\<close>

section \<open>The environment of a request\<close>

text \<open>\<open>logger.log\<close> and \<open>logger.error\<close>; the stack trace that \<open>error\<close> is given as well is left out.\<close>

datatype log_entry = LogInfo string | LogError string

record 's web_env =
  we_now :: "'s \<Rightarrow> int \<times> 's"
  we_log :: "log_entry \<Rightarrow> 's \<Rightarrow> 's"
  we_setHeader :: "string \<Rightarrow> string \<Rightarrow> 's \<Rightarrow> 's"
  we_getCounters :: "'s \<Rightarrow> counters"
  we_putCounters :: "counters \<Rightarrow> 's \<Rightarrow> 's"

text \<open>
  \<open>hr_body\<close> is the parsed body, \<open>hr_statusCode\<close> the status the framework has set on the response
  before the interceptors run.
\<close>

record http_request =
  hr_method :: string
  hr_url :: string
  hr_userAgent :: "string option"
  hr_authorization :: "string option"
  hr_body :: "json option"
  hr_statusCode :: nat
  hr_request :: request

section \<open>Dates\<close>

text \<open>\<open>Date.prototype.toISOString\<close> of a time in milliseconds: year, month and day of a day number.\<close>

definition civil :: "int \<Rightarrow> int \<times> int \<times> int" where
  "civil day =
    (let z = day + 719468; era = z div 146097; doe = z mod 146097;
         yoe = (doe - doe div 1460 + doe div 36524 - doe div 146096) div 365;
         doy = doe - (365 * yoe + yoe div 4 - yoe div 100);
         mp = (5 * doy + 2) div 153;
         d = doy - (153 * mp + 2) div 5 + 1;
         m = (if mp < 10 then mp + 3 else mp - 9);
         y = yoe + era * 400
     in (if m \<le> 2 then y + 1 else y, m, d))"

definition pad :: "nat \<Rightarrow> int \<Rightarrow> string" where
  "pad n i = (let ds = show_nat (nat i) in replicate (n - length ds) (CHR ''0'') @ ds)"

lemma pad_code [code]:
  "pad n i = (let ds = decimal (if i < 0 then 0 else i) in replicate (n - length ds) (CHR ''0'') @ ds)"
  by (simp add: pad_def decimal_show)

definition toISOString :: "int \<Rightarrow> string" where
  "toISOString t =
    (case civil (t div 86400000) of (y, m, d) \<Rightarrow>
       let ms = t mod 86400000;
           year = (if 0 \<le> y \<and> y \<le> 9999 then pad 4 y else (if y < 0 then ''-'' else ''+'') @ pad 6 \<bar>y\<bar>)
       in year @ ''-'' @ pad 2 m @ ''-'' @ pad 2 d @ ''T'' @ pad 2 (ms div 3600000) @ '':'' @
          pad 2 (ms div 60000 mod 60) @ '':'' @ pad 2 (ms div 1000 mod 60) @ ''.'' @ pad 3 (ms mod 1000) @ ''Z'')"

lemmas toISOString_code [code] =
  toISOString_def [of 0] toISOString_def [of "Int.Pos n" for n] toISOString_def [of "Int.Neg n" for n]

section \<open>The request log\<close>

text \<open>The own enumerable properties of a value, as \<open>Object.keys\<close> and \<open>{...value}\<close> see them.\<close>

fun spread :: "json \<Rightarrow> (string \<times> json) list" where
  "spread (JObj kvs) = kvs"
| "spread (JArr xs) = zip (map show_nat [0..<length xs]) xs"
| "spread (JStr s) = zip (map show_nat [0..<length s]) (map (\<lambda>c. JStr [c]) s)"
| "spread _ = []"

fun join :: "string \<Rightarrow> string list \<Rightarrow> string" where
  "join sep [] = []"
| "join sep [x] = x"
| "join sep (x # y # xs) = x @ sep @ join sep (y # xs)"

definition redacted :: json where
  "redacted = JStr ''[REDACTED]''"

text \<open>\<open>if (safeBody.k) safeBody.k = '[REDACTED]'\<close>.\<close>

definition redact :: "string \<Rightarrow> (string \<times> json) list \<Rightarrow> (string \<times> json) list" where
  "redact k safeBody = (case map_of safeBody k of
      Some v \<Rightarrow> if js_truthy v then js_put k redacted safeBody else safeBody
    | None \<Rightarrow> safeBody)"

definition safeQuery :: "js_object \<Rightarrow> js_object" where
  "safeQuery query = (if truthy (map_of query ''password'') then filter (\<lambda>kv. fst kv \<noteq> ''password'') query else query)"

definition buildRequestDetails :: "json option \<Rightarrow> js_object \<Rightarrow> js_object \<Rightarrow> string" where
  "buildRequestDetails body query params =
    join '' | ''
      ((if query \<noteq> [] \<and> safeQuery query \<noteq> [] then [''Query: '' @ stringify (object_json (safeQuery query))] else []) @
       (case body of
          None \<Rightarrow> []
        | Some b \<Rightarrow>
            if js_truthy b \<and> spread b \<noteq> []
            then [''Body: '' @ stringify (JObj (redact ''token'' (redact ''password'' (spread b))))] else []) @
       (if params \<noteq> [] then [''Params: '' @ stringify (object_json params)] else []))"

definition roleName :: "Role \<Rightarrow> string" where
  "roleName r = (case r of ADMIN \<Rightarrow> ''ADMIN'' | CUSTOMER \<Rightarrow> ''CUSTOMER'')"

definition logUsername :: "http_request \<Rightarrow> string" where
  "logUsername hq = env_or (map_option au_username (rq_user (hr_request hq))) ''anonymous''"

definition requestLine :: "string \<Rightarrow> http_request \<Rightarrow> string" where
  "requestLine timestamp hq =
    (let req = hr_request hq;
         userAgent = env_or (hr_userAgent hq) [];
         tenantCode = Option.bind (rq_user req) au_tenantCode;
         requestDetails = buildRequestDetails (hr_body hq) (rq_query req) (rq_params req)
     in ''['' @ timestamp @ ''] '' @ hr_method hq @ '' '' @ hr_url hq @ '' | IP: '' @ rq_ip req @
        (if userAgent \<noteq> [] then '' | UA: '' @ take 50 userAgent else []) @ '' | User: '' @ logUsername hq @
        (case rq_user req of None \<Rightarrow> [] | Some u \<Rightarrow> '' ('' @ roleName (au_role u) @ '')'') @
        (if truthy tenantCode then '' | Tenant: '' @ the tenantCode else []) @
        (if requestDetails \<noteq> [] then '' | '' @ requestDetails else []))"

text \<open>\<open>error?.status || error?.statusCode || 500\<close>.\<close>

fun statusOf :: "exn \<Rightarrow> nat" where
  "statusOf (BadRequestException _) = 400"
| "statusOf (UnauthorizedException _) = 401"
| "statusOf (ForbiddenException _) = 403"
| "statusOf (NotFoundException _) = 404"
| "statusOf (ConflictException _) = 409"
| "statusOf (HttpException _ n) = (if n = 0 then 500 else n)"
| "statusOf (RaisedError _) = 500"

definition responseLine :: "string \<Rightarrow> http_request \<Rightarrow> nat \<Rightarrow> int \<Rightarrow> string" where
  "responseLine timestamp hq statusCode responseTime =
    ''['' @ timestamp @ ''] '' @ hr_method hq @ '' '' @ hr_url hq @ '' '' @ show_nat statusCode @ '' | '' @
    show_int responseTime @ ''ms | User: '' @ logUsername hq"

definition errorLine :: "string \<Rightarrow> http_request \<Rightarrow> exn \<Rightarrow> int \<Rightarrow> string" where
  "errorLine timestamp hq e responseTime =
    responseLine timestamp hq (statusOf e) responseTime @ '' | Error: '' @ env_or (Some (message e)) ''Unknown error''"

text \<open>Two readings of the clock: \<open>Date.now()\<close>, then \<open>new Date()\<close> for the time stamp of the line.\<close>

definition logNow :: "'s web_env \<Rightarrow> (int \<Rightarrow> int \<Rightarrow> log_entry) \<Rightarrow> 's \<Rightarrow> int \<times> 's" where
  "logNow E entry s =
    (case we_now E s of (t1, s1) \<Rightarrow> case we_now E s1 of (t2, s2) \<Rightarrow> (t1, we_log E (entry t1 t2) s2))"

definition logIntercept :: "'s web_env \<Rightarrow> http_request \<Rightarrow> ('s, 'a) handler \<Rightarrow> ('s, 'a) handler" where
  "logIntercept E hq handle =
    bindE (sync (logNow E (\<lambda>_ t. LogInfo (requestLine (toISOString t) hq)))) (\<lambda>startTime.
    tryCatch
      (bindE handle (\<lambda>x.
       bindE (sync (logNow E (\<lambda>now t. LogInfo (responseLine (toISOString t) hq (hr_statusCode hq) (now - startTime))))) (\<lambda>_.
       ret x)))
      (\<lambda>e. bindE (sync (logNow E (\<lambda>now t. LogError (errorLine (toISOString t) hq e (now - startTime))))) (\<lambda>_.
       throw e)))"

section \<open>The response envelope\<close>

datatype api_status = Success | Failure

record api_options =
  ao_message :: "string option"
  ao_status :: "api_status option"

record 'a api_response =
  re_status :: api_status
  re_data :: 'a
  re_message :: string
  re_timestamp :: string

definition methodMessages :: "(string \<times> string) list" where
  "methodMessages = [
     (''create'', ''Resource created successfully''),
     (''findAll'', ''Resources retrieved successfully''),
     (''findOne'', ''Resource retrieved successfully''),
     (''update'', ''Resource updated successfully''),
     (''remove'', ''Resource deleted successfully''),
     (''login'', ''Login successful''),
     (''register'', ''Registration successful''),
     (''checkout'', ''Order checkout successful''),
     (''complete'', ''Order completed successfully''),
     (''addItem'', ''Item added to order successfully''),
     (''paymentReceived'', ''Payment marked as received'')]"

definition getDefaultMessage :: "string \<Rightarrow> string \<Rightarrow> string" where
  "getDefaultMessage methodName httpMethod =
    (case map_of methodMessages methodName of
       Some m \<Rightarrow> m
     | None \<Rightarrow> httpMethod @ '' operation completed successfully'')"

definition apiIntercept ::
  "'s web_env \<Rightarrow> api_options option \<Rightarrow> string \<Rightarrow> string \<Rightarrow> ('s, 'a) handler \<Rightarrow> ('s, 'a api_response) handler" where
  "apiIntercept E options methodName httpMethod handle =
    bindE handle (\<lambda>d.
    bindE (sync (we_now E)) (\<lambda>t.
    ret \<lparr>re_status = (case Option.bind options ao_status of None \<Rightarrow> Success | Some st \<Rightarrow> st),
         re_data = d,
         re_message = env_or (Option.bind options ao_message) (getDefaultMessage methodName httpMethod),
         re_timestamp = toISOString t\<rparr>))"

section \<open>The rate limiter in the process\<close>

definition rateLimitStep ::
  "'s web_env \<Rightarrow> request \<Rightarrow> string \<Rightarrow> string \<Rightarrow> rate_limit_options option \<Rightarrow> rate_limit_options option \<Rightarrow>
   's \<Rightarrow> (exn + unit) \<times> 's" where
  "rateLimitStep E req methodName controllerName handlerOpts controllerOpts s =
    (case we_now E s of (now, s1) \<Rightarrow>
     case rateLimitIntercept req methodName controllerName handlerOpts controllerOpts now (we_getCounters E s1) of
       ((r, h), cs) \<Rightarrow>
         (r, we_setHeader E ''X-RateLimit-Reset'' (show_int (h_reset h))
            (we_setHeader E ''X-RateLimit-Remaining'' (show_int (h_remaining h))
              (we_setHeader E ''X-RateLimit-Limit'' (show_int (h_limit h)) (we_putCounters E cs s1)))))"

definition rateLimited ::
  "'s web_env \<Rightarrow> request \<Rightarrow> string \<Rightarrow> string \<Rightarrow> rate_limit_options option \<Rightarrow> rate_limit_options option \<Rightarrow>
   ('s, 'a) handler \<Rightarrow> ('s, 'a) handler" where
  "rateLimited E req methodName controllerName handlerOpts controllerOpts handle =
    bindE (sync (rateLimitStep E req methodName controllerName handlerOpts controllerOpts)) (\<lambda>r.
    case r of Inl e \<Rightarrow> throw e | Inr _ \<Rightarrow> handle)"

section \<open>Masking of database URLs\<close>

record 'u url_api =
  url_new :: "string \<Rightarrow> 'u option"
  url_getPassword :: "'u \<Rightarrow> string"
  url_setPassword :: "string \<Rightarrow> 'u \<Rightarrow> 'u"
  url_toString :: "'u \<Rightarrow> string"

text \<open>\<open>url.replace(/:([^:@]+)@/, ':***@')\<close>: the first match.\<close>

definition plainChar :: "char \<Rightarrow> bool" where
  "plainChar c = (c \<noteq> CHR '':'' \<and> c \<noteq> CHR ''@'')"

fun replaceCredentials :: "string \<Rightarrow> string" where
  "replaceCredentials [] = []"
| "replaceCredentials (c # cs) =
    (if c = CHR '':'' \<and> takeWhile plainChar cs \<noteq> [] \<and> startsWith (dropWhile plainChar cs) ''@''
     then '':***'' @ dropWhile plainChar cs
     else c # replaceCredentials cs)"

definition maskDatabaseUrl :: "'u url_api \<Rightarrow> string \<Rightarrow> string" where
  "maskDatabaseUrl N url =
    (case url_new N url of
       Some u \<Rightarrow> url_toString N (if url_getPassword N u \<noteq> [] then url_setPassword N ''***'' u else u)
     | None \<Rightarrow> replaceCredentials url)"

text \<open>The lines that \<open>PrismaService\<close> and \<open>DatabaseManagerService\<close> log, and the URL they report.\<close>

definition getCurrentDatabaseUrl :: "config \<Rightarrow> tenant_context \<Rightarrow> string" where
  "getCurrentDatabaseUrl cfg ctx = getDatabaseUrl cfg (getTenantCode ctx)"

definition clientLogLine :: "'u url_api \<Rightarrow> config \<Rightarrow> tenant_context \<Rightarrow> string" where
  "clientLogLine N cfg ctx = ''Using database URL for tenant '' @ [CHR 0x27] @ env_or (getTenantCode ctx) ''default'' @
     [CHR 0x27] @ '': '' @ maskDatabaseUrl N (getDatabaseUrl cfg (getTenantCode ctx))"

definition logCurrentDatabaseUrl :: "'u url_api \<Rightarrow> config \<Rightarrow> tenant_context \<Rightarrow> string" where
  "logCurrentDatabaseUrl N cfg ctx = ''Current database URL for tenant '' @ [CHR 0x27] @ env_or (getTenantCode ctx) ''default'' @
     [CHR 0x27] @ '': '' @ maskDatabaseUrl N (getDatabaseUrl cfg (getTenantCode ctx))"

definition connectionLogLine :: "'u url_api \<Rightarrow> config \<Rightarrow> string \<Rightarrow> string" where
  "connectionLogLine N cfg tenantCode = ''Creating database connection for tenant '' @ [CHR 0x27] @ tenantCode @
     [CHR 0x27] @ '' with URL: '' @ maskDatabaseUrl N (databaseUrl cfg tenantCode)"

end
