(* ===== verification/Reference.thy ===== *)
theory Reference
  imports OrderInterleaving Http
begin

text \<open>
  A reference implementation of the outside world: databases as lists of rows, queues as lists
  of messages. It keeps the contracts of the Prisma client and of the broker, so every theorem
  that assumes a contract applies to it, and concrete executions can be evaluated on it.
\<close>

section \<open>Tables as lists of rows\<close>

definition tbl :: "('r \<Rightarrow> string) \<Rightarrow> 'r list \<Rightarrow> string \<rightharpoonup> 'r" where
  "tbl key rows = map_of (map (\<lambda>r. (key r, r)) rows)"

lemma tbl_find: "find (\<lambda>r. key r = i) rows = tbl key rows i"
  by (induction rows) (auto simp: tbl_def)

lemma tbl_Some: "distinct (map key rows) \<Longrightarrow> tbl key rows i = Some r \<longleftrightarrow> r \<in> set rows \<and> key r = i"
  by (auto simp: tbl_def map_of_eq_Some_iff comp_def)

lemma tbl_None: "tbl key rows i = None \<longleftrightarrow> i \<notin> key ` set rows"
  by (auto simp: tbl_def map_of_eq_None_iff image_iff)

lemma tbl_dom: "dom (tbl key rows) = key ` set rows"
  by (simp add: tbl_def dom_map_of_conv_image_fst image_image comp_def)

lemma tbl_append: "key r \<notin> key ` set rows \<Longrightarrow> tbl key (rows @ [r]) = (tbl key rows)(key r \<mapsto> r)"
  by (induction rows) (auto simp: tbl_def fun_eq_iff)

definition replace_row :: "('r \<Rightarrow> string) \<Rightarrow> string \<Rightarrow> 'r \<Rightarrow> 'r list \<Rightarrow> 'r list" where
  "replace_row key i r' rows = map (\<lambda>r. if key r = i then r' else r) rows"

lemma replace_keys: "key r' = i \<Longrightarrow> map key (replace_row key i r' rows) = map key rows"
  by (induction rows) (auto simp: replace_row_def)

lemma replace_ids: "key r' = i \<Longrightarrow> key ` set (replace_row key i r' rows) = key ` set rows"
  using replace_keys [of key r' i rows] by (metis list.set_map)

lemma replace_set: "x \<in> set (replace_row key i r' rows) \<Longrightarrow> x = r' \<or> x \<in> set rows"
  by (auto simp: replace_row_def split: if_splits)

lemma kept_key: "x \<in> key ` set rows \<Longrightarrow> x \<noteq> i \<Longrightarrow> x \<in> key ` {r \<in> set rows. key r \<noteq> i}"
  by auto

lemma tbl_replace_row:
  "key r' = i \<Longrightarrow> tbl key (replace_row key i r' rows) x =
    (if x = i then map_option (\<lambda>_. r') (tbl key rows i) else tbl key rows x)"
  by (induction rows) (auto simp: tbl_def replace_row_def)

lemma tbl_replace:
  "key r' = i \<Longrightarrow> tbl key rows i \<noteq> None \<Longrightarrow> tbl key (replace_row key i r' rows) = (tbl key rows)(i \<mapsto> r')"
  by (auto simp: tbl_replace_row)

lemma tbl_delete: "tbl key (filter (\<lambda>r. key r \<noteq> i) rows) = (tbl key rows)(i := None)"
  by (induction rows) (auto simp: tbl_def fun_eq_iff)

text \<open>An identifier not in use: longer than all of them together.\<close>

definition fresh :: "string list \<Rightarrow> string" where
  "fresh ids = replicate (Suc (sum_list (map length ids))) (CHR ''x'')"

lemma fresh_notin: "fresh ids \<notin> set ids"
proof
  assume "fresh ids \<in> set ids"
  then have "length (fresh ids) \<le> sum_list (map length ids)" by (intro member_le_sum_list) auto
  then show False by (simp add: fresh_def)
qed

section \<open>One database\<close>

record mem_db =
  mp :: "product_row list"
  mo :: "order_row list"
  mi :: "item_row list"
  mclock :: int

definition view :: "mem_db \<Rightarrow> db" where
  "view m = \<lparr>products = tbl p_id (mp m), orders = tbl o_id (mo m), items = tbl i_id (mi m)\<rparr>"

definition minv :: "mem_db \<Rightarrow> bool" where
  "minv m \<longleftrightarrow> distinct (map p_id (mp m)) \<and> distinct (map o_id (mo m)) \<and> distinct (map i_id (mi m)) \<and>
     (\<forall>i\<in>set (mi m). i_orderId i \<in> o_id ` set (mo m) \<and> i_productId i \<in> p_id ` set (mp m))"

definition m_items :: "mem_db \<Rightarrow> string \<Rightarrow> item_row list" where
  "m_items m oid = filter (\<lambda>i. i_orderId i = oid) (mi m)"

definition m_product :: "mem_db \<Rightarrow> string \<Rightarrow> product_row option" where
  "m_product m pid = find (\<lambda>p. p_id p = pid) (mp m)"

definition m_full :: "mem_db \<Rightarrow> order_row \<Rightarrow> order_full" where
  "m_full m r = (r, map (\<lambda>i. (i, info_of (the (m_product m (i_productId i))))) (m_items m (o_id r)))"

lemma view_wf: "minv m \<Longrightarrow> db_wf (view m)"
  by (auto simp: minv_def view_def db_wf_def tbl_Some tbl_dom)

lemma view_simps [simp]:
  "products (view m) = tbl p_id (mp m)" "orders (view m) = tbl o_id (mo m)" "items (view m) = tbl i_id (mi m)"
  by (simp_all add: view_def)

lemma m_items_ok: "minv m \<Longrightarrow> lists_items (view m) oid (m_items m oid)"
  by (auto simp: minv_def lists_items_def m_items_def order_items_def tbl_Some distinct_map_filter)

lemma m_full_ok: "minv m \<Longrightarrow> full_of (view m) r (m_full m r)"
proof -
  assume m: "minv m"
  have "\<exists>p. tbl p_id (mp m) (i_productId i) = Some p" if "i \<in> set (m_items m (o_id r))" for i
  proof -
    have "i_productId i \<in> p_id ` set (mp m)" using m that by (auto simp: minv_def m_items_def)
    then show ?thesis using tbl_None [of p_id "mp m"] by auto
  qed
  then show ?thesis
    using m_items_ok [OF m, of "o_id r"] by (fastforce simp: full_of_def m_full_def m_product_def tbl_find comp_def)
qed

section \<open>The queries\<close>

type_synonym 'a mem_op = "mem_db \<Rightarrow> string + 'a \<times> mem_db"

definition notFound :: string where
  "notFound = ''Record required but not found''"

definition m_read :: "(mem_db \<Rightarrow> 'a) \<Rightarrow> 'a mem_op" where
  "m_read f m = Inr (f m, m)"

definition m_order_create :: "string \<Rightarrow> OrderStatus \<Rightarrow> rat \<Rightarrow> order_row mem_op" where
  "m_order_create u st t m =
    (let r = \<lparr>o_id = fresh (map o_id (mo m)), o_userId = u, o_status = st, o_total = round2 t, o_paymentId = None,
       o_transactionId = None, o_createdAt = mclock m, o_updatedAt = mclock m\<rparr>
     in Inr (r, m\<lparr>mo := mo m @ [r], mclock := mclock m + 1\<rparr>))"

definition m_order_find :: "mem_db \<Rightarrow> string \<Rightarrow> order_row option" where
  "m_order_find m oid = find (\<lambda>r. o_id r = oid) (mo m)"

definition m_order_update :: "string \<Rightarrow> order_data \<Rightarrow> order_row mem_op" where
  "m_order_update oid w m = (case m_order_find m oid of
      None \<Rightarrow> Inl notFound
    | Some r \<Rightarrow> let r' = apply_order_data w (mclock m) r
        in Inr (r', m\<lparr>mo := replace_row o_id oid r' (mo m), mclock := mclock m + 1\<rparr>))"

definition m_order_update_full :: "string \<Rightarrow> order_data \<Rightarrow> order_full mem_op" where
  "m_order_update_full oid w m = map_sum id (\<lambda>(r, m'). (m_full m' r, m')) (m_order_update oid w m)"

definition m_orders_of :: "string \<Rightarrow> mem_db \<Rightarrow> order_full list" where
  "m_orders_of u m = map (m_full m) (sort_key (\<lambda>r. - o_createdAt r) (filter (\<lambda>r. o_userId r = u) (mo m)))"

definition m_item_create :: "string \<Rightarrow> string \<Rightarrow> int \<Rightarrow> rat \<Rightarrow> (item_row \<times> product_row) mem_op" where
  "m_item_create oid pid q pr m = (case (m_order_find m oid, m_product m pid) of
      (Some _, Some p) \<Rightarrow>
        let r = \<lparr>i_id = fresh (map i_id (mi m)), i_orderId = oid, i_productId = pid, i_quantity = q,
          i_price = round2 pr, i_createdAt = mclock m, i_updatedAt = mclock m\<rparr>
        in Inr ((r, p), m\<lparr>mi := mi m @ [r], mclock := mclock m + 1\<rparr>)
    | _ \<Rightarrow> Inl ''Foreign key constraint violated'')"

definition m_item_update :: "string \<Rightarrow> int \<Rightarrow> (item_row \<times> product_row) mem_op" where
  "m_item_update iid q m = (case find (\<lambda>r. i_id r = iid) (mi m) of
      None \<Rightarrow> Inl notFound
    | Some r \<Rightarrow> let r' = r\<lparr>i_quantity := q, i_updatedAt := mclock m\<rparr>
        in Inr ((r', the (m_product m (i_productId r))),
             m\<lparr>mi := replace_row i_id iid r' (mi m), mclock := mclock m + 1\<rparr>))"

definition m_product_modify :: "string \<Rightarrow> (product_row \<Rightarrow> product_row) \<Rightarrow> product_row mem_op" where
  "m_product_modify pid f m = (case m_product m pid of
      None \<Rightarrow> Inl notFound
    | Some p \<Rightarrow> let p' = (f p)\<lparr>p_id := p_id p, p_updatedAt := mclock m\<rparr>
        in Inr (p', m\<lparr>mp := replace_row p_id pid p' (mp m), mclock := mclock m + 1\<rparr>))"

definition m_product_create :: "string \<Rightarrow> string option \<Rightarrow> rat \<Rightarrow> int \<Rightarrow> product_row mem_op" where
  "m_product_create nm ds pr sk m =
    (let p = \<lparr>p_id = fresh (map p_id (mp m)), p_name = nm, p_description = ds, p_price = round2 pr, p_stock = sk,
       p_createdAt = mclock m, p_updatedAt = mclock m\<rparr>
     in Inr (p, m\<lparr>mp := mp m @ [p], mclock := mclock m + 1\<rparr>))"

definition m_product_delete :: "string \<Rightarrow> product_row mem_op" where
  "m_product_delete pid m = (case m_product m pid of
      None \<Rightarrow> Inl notFound
    | Some p \<Rightarrow> if \<exists>i\<in>set (mi m). i_productId i = pid then Inl ''Foreign key constraint violated''
        else Inr (p, m\<lparr>mp := filter (\<lambda>p. p_id p \<noteq> pid) (mp m)\<rparr>))"

text \<open>\<open>skip\<close> and \<open>take\<close> of a listing, as natural numbers.\<close>

definition num_nat :: "jsnum \<Rightarrow> nat option" where
  "num_nat v = (case v of Num r \<Rightarrow> if r = of_int \<lfloor>r\<rfloor> \<and> 0 \<le> r then Some (nat \<lfloor>r\<rfloor>) else None | _ \<Rightarrow> None)"

definition m_product_list :: "jsnum \<Rightarrow> jsnum \<Rightarrow> product_row list mem_op" where
  "m_product_list skp tk m = (case (num_nat skp, num_nat tk) of
      (Some i, Some n) \<Rightarrow> Inr (take n (drop i (sort_key (\<lambda>p. - p_createdAt p) (mp m))), m)
    | _ \<Rightarrow> Inl ''Invalid value for argument'')"

lemma num_nat_of_nat [simp]: "num_nat (Num (of_nat n)) = Some n"
  by (simp add: num_nat_def)

section \<open>The world\<close>

text \<open>What the HTTP layer keeps: Redis, the counters, the log, the headers set and the clock.\<close>

record web_mem =
  wm_redis :: "(string \<times> string) list"
  wm_counters :: counters
  wm_log :: "log_entry list"
  wm_headers :: "(string \<times> string) list"
  wm_clock :: int

record ref_state =
  rs_dbs :: "prisma_client \<Rightarrow> mem_db option"
  rs_users :: "user_row list"
  rs_queues :: "string \<Rightarrow> string list"
  rs_up :: bool
  rs_rmq :: rmq_state
  rs_conns :: connections
  rs_count :: nat
  rs_web :: web_mem

definition on_db :: "prisma_client \<Rightarrow> 'a mem_op \<Rightarrow> (ref_state, 'a) call" where
  "on_db c f s = (case rs_dbs s c of
      None \<Rightarrow> (Inl ''Database does not exist'', s)
    | Some m \<Rightarrow> (case f m of
        Inl e \<Rightarrow> (Inl e, s)
      | Inr xm \<Rightarrow> (Inr (fst xm), s\<lparr>rs_dbs := (rs_dbs s)(c \<mapsto> snd xm)\<rparr>)))"

definition ref_prisma :: "ref_state prisma_api" where
  "ref_prisma = \<lparr>
     order_create = \<lambda>c u st t. on_db c (m_order_create u st t),
     order_findUnique = \<lambda>c oid. on_db c (m_read (\<lambda>m. m_order_find m oid)),
     order_findUnique_items = \<lambda>c oid. on_db c (m_read (\<lambda>m. map_option (\<lambda>r. (r, m_items m oid)) (m_order_find m oid))),
     order_findFirst_full = \<lambda>c oid u. on_db c (m_read (\<lambda>m. case m_order_find m oid of
         None \<Rightarrow> None | Some r \<Rightarrow> if o_userId r = u then Some (m_full m r) else None)),
     order_findMany_full = \<lambda>c u. on_db c (m_read (m_orders_of u)),
     order_update = \<lambda>c oid w. on_db c (m_order_update oid w),
     order_update_full = \<lambda>c oid w. on_db c (m_order_update_full oid w),
     item_findFirst = \<lambda>c oid pid. on_db c (m_read (\<lambda>m. find (\<lambda>i. i_productId i = pid) (m_items m oid))),
     item_findMany = \<lambda>c oid. on_db c (m_read (\<lambda>m. m_items m oid)),
     item_create = \<lambda>c oid pid q pr. on_db c (m_item_create oid pid q pr),
     item_update_quantity = \<lambda>c iid q. on_db c (m_item_update iid q),
     product_findUnique = \<lambda>c pid. on_db c (m_read (\<lambda>m. m_product m pid)),
     product_decrement = \<lambda>c pid q. on_db c (m_product_modify pid (\<lambda>p. p\<lparr>p_stock := p_stock p - q\<rparr>)),
     product_create = \<lambda>c nm ds pr sk. on_db c (m_product_create nm ds pr sk),
     product_count = \<lambda>c. on_db c (m_read (\<lambda>m. length (mp m))),
     product_findMany = \<lambda>c skp tk. on_db c (m_product_list skp tk),
     product_update = \<lambda>c pid w. on_db c (m_product_modify pid (apply_product_data w 0)),
     product_delete = \<lambda>c pid. on_db c (m_product_delete pid),
     mkDecimal = \<lambda>x. x\<rparr>"

definition empty_db :: db where
  "empty_db = \<lparr>products = Map.empty, orders = Map.empty, items = Map.empty\<rparr>"

definition ref_tables :: "ref_state \<Rightarrow> prisma_client \<Rightarrow> db" where
  "ref_tables s c = (case rs_dbs s c of None \<Rightarrow> empty_db | Some m \<Rightarrow> view m)"

definition ref_config :: config where
  "ref_config = \<lparr>cf_DATABASE_URL = None, cf_DATABASE_PREFIX = None,
     cf_parseUrl = \<lambda>_. None\<rparr>"

definition ref_inv :: "ref_state \<Rightarrow> bool" where
  "ref_inv s \<longleftrightarrow> (\<forall>c m. rs_dbs s c = Some m \<longrightarrow> minv m) \<and> conns_ok ref_config (rs_conns s)"

text \<open>\<open>X\<close> says nothing about the databases, so it holds across every query.\<close>

definition off_dbs :: "(ref_state \<Rightarrow> bool) \<Rightarrow> bool" where
  "off_dbs X \<longleftrightarrow> (\<forall>s d. X (s\<lparr>rs_dbs := d\<rparr>) = X s)"

lemma on_db_frame: "off_dbs X \<Longrightarrow> X (snd (on_db c f s)) = X s"
  by (auto simp: off_dbs_def on_db_def split: option.split sum.split)

lemma on_db_query:
  assumes X: "off_dbs X" and "\<And>m x m'. minv m \<Longrightarrow> f m = Inr (x, m') \<Longrightarrow> m' = m \<and> R (view m) x"
  shows "query_ok (\<lambda>s. ref_inv s \<and> X s) ref_tables c (on_db c f) R"
  unfolding query_ok_def on_db_frame [OF X]
proof (intro allI impI)
  fix s assume s: "ref_inv s \<and> X s"
  show "(ref_inv (snd (on_db c f s)) \<and> X s) \<and>
    ref_tables (snd (on_db c f s)) = ref_tables s \<and> (\<forall>x. fst (on_db c f s) = Inr x \<longrightarrow> R (ref_tables s c) x)"
  proof (cases "rs_dbs s c")
    case None
    then show ?thesis using s by (simp add: on_db_def)
  next
    case (Some m)
    then have "minv m" using s by (auto simp: ref_inv_def)
    then show ?thesis
      using s Some assms(2) [of m] by (cases "f m") (force simp: on_db_def ref_inv_def ref_tables_def fun_eq_iff)+
  qed
qed

lemma on_db_write:
  assumes X: "off_dbs X" and "\<And>m x m'. minv m \<Longrightarrow> f m = Inr (x, m') \<Longrightarrow> minv m' \<and> R (view m) x (view m')"
  shows "write_ok (\<lambda>s. ref_inv s \<and> X s) ref_tables c (on_db c f) R"
  unfolding write_ok_def on_db_frame [OF X]
proof (intro allI impI)
  fix s assume s: "ref_inv s \<and> X s"
  show "(ref_inv (snd (on_db c f s)) \<and> X s) \<and>
    (case fst (on_db c f s) of Inl _ \<Rightarrow> ref_tables (snd (on_db c f s)) = ref_tables s
     | Inr x \<Rightarrow> \<exists>d. R (ref_tables s c) x d \<and> ref_tables (snd (on_db c f s)) = (ref_tables s)(c := d))"
  proof (cases "rs_dbs s c")
    case None
    then show ?thesis using s by (simp add: on_db_def)
  next
    case (Some m)
    then have m: "minv m" using s by (auto simp: ref_inv_def)
    show ?thesis
    proof (cases "f m")
      case (Inl e)
      then show ?thesis using s Some by (simp add: on_db_def)
    next
      case (Inr xm)
      have "minv (snd xm) \<and> R (view m) (fst xm) (view (snd xm))" using assms(2) [OF m, of "fst xm" "snd xm"] Inr by simp
      then show ?thesis
        using s Some Inr by (auto simp: on_db_def ref_inv_def ref_tables_def fun_eq_iff intro!: exI [of _ "view (snd xm)"])
    qed
  qed
qed

section \<open>The contracts hold\<close>

lemma fresh_key: "fresh (map key rows) \<notin> key ` set rows"
  using fresh_notin [of "map key rows"] by simp

lemma mo_order_create:
  assumes "minv m" and "m_order_create u st t m = Inr (r, m')"
  shows "minv m' \<and> orders (view m) (o_id r) = None \<and> o_userId r = u \<and> o_status r = st \<and> o_total r = round2 t \<and>
    o_paymentId r = None \<and> o_transactionId r = None \<and>
    view m' = view m\<lparr>orders := (orders (view m))(o_id r \<mapsto> r)\<rparr>"
  using assms fresh_key [of o_id "mo m"]
  by (auto simp: m_order_create_def Let_def minv_def view_def tbl_None tbl_append)

lemma mo_order_update:
  assumes "minv m" and "m_order_update oid w m = Inr (r', m')"
  shows "minv m' \<and> (\<exists>r t. orders (view m) oid = Some r \<and> r' = apply_order_data w t r \<and>
    view m' = view m\<lparr>orders := (orders (view m))(oid \<mapsto> r')\<rparr>)"
proof -
  obtain r where r: "tbl o_id (mo m) oid = Some r" "r' = apply_order_data w (mclock m) r"
    "m' = m\<lparr>mo := replace_row o_id oid r' (mo m), mclock := mclock m + 1\<rparr>"
    using assms(2) by (auto simp: m_order_update_def m_order_find_def tbl_find Let_def split: option.splits)
  have id: "o_id r' = oid"
    using r(1,2) assms(1) by (auto simp: minv_def tbl_Some apply_order_data_def)
  have "minv m'"
    using assms(1) r(3) replace_keys [of o_id, OF id] replace_ids [of o_id, OF id] by (simp add: minv_def)
  then show ?thesis using r id tbl_replace [of o_id r' oid "mo m"] by (auto simp: view_def)
qed

lemma mo_order_update_full:
  assumes "minv m" and "m_order_update_full oid w m = Inr (f, m')"
  shows "minv m' \<and> (\<exists>r t. orders (view m) oid = Some r \<and> fst f = apply_order_data w t r \<and>
    view m' = view m\<lparr>orders := (orders (view m))(oid \<mapsto> fst f)\<rparr> \<and> full_of (view m') (fst f) f)"
proof -
  obtain r' where r': "m_order_update oid w m = Inr (r', m')" and f: "f = m_full m' r'"
    using assms(2) by (cases "m_order_update oid w m") (auto simp: m_order_update_full_def)
  show ?thesis
    using mo_order_update [OF assms(1) r'] m_full_ok [of m' r'] f by (auto simp: m_full_def)
qed

lemma mo_item_create:
  assumes "minv m" and "m_item_create oid pid q pr m = Inr (x, m')"
  shows "minv m' \<and> (case x of (r, p) \<Rightarrow> items (view m) (i_id r) = None \<and> oid \<in> dom (orders (view m)) \<and>
    products (view m) pid = Some p \<and> i_orderId r = oid \<and> i_productId r = pid \<and> i_quantity r = q \<and>
    i_price r = round2 pr \<and> view m' = view m\<lparr>items := (items (view m))(i_id r \<mapsto> r)\<rparr>)"
  using assms fresh_key [of i_id "mi m"]
  by (auto simp: m_item_create_def m_order_find_def m_product_def tbl_find Let_def minv_def view_def tbl_None
      tbl_append tbl_Some split: option.splits)

lemma mo_item_update:
  assumes "minv m" and "m_item_update iid q m = Inr (x, m')"
  shows "minv m' \<and> (case x of (r', p) \<Rightarrow> \<exists>r t. items (view m) iid = Some r \<and>
    r' = r\<lparr>i_quantity := q, i_updatedAt := t\<rparr> \<and> products (view m) (i_productId r) = Some p \<and>
    view m' = view m\<lparr>items := (items (view m))(iid \<mapsto> r')\<rparr>)"
proof -
  obtain r where r: "tbl i_id (mi m) iid = Some r"
    "x = (r\<lparr>i_quantity := q, i_updatedAt := mclock m\<rparr>, the (m_product m (i_productId r)))"
    "m' = m\<lparr>mi := replace_row i_id iid (r\<lparr>i_quantity := q, i_updatedAt := mclock m\<rparr>) (mi m), mclock := mclock m + 1\<rparr>"
    using assms(2) by (auto simp: m_item_update_def tbl_find Let_def split: option.splits)
  have in_r: "r \<in> set (mi m)" "i_id r = iid" using r(1) assms(1) by (auto simp: minv_def tbl_Some)
  obtain p where p: "tbl p_id (mp m) (i_productId r) = Some p"
    using in_r assms(1) tbl_None [of p_id "mp m" "i_productId r"] by (auto simp: minv_def)
  have "minv m'"
    using assms(1) r(3) in_r replace_keys [of i_id "r\<lparr>i_quantity := q, i_updatedAt := mclock m\<rparr>" iid "mi m"]
    by (auto simp: minv_def dest!: replace_set)
  then show ?thesis
    using r in_r p tbl_replace [of i_id "r\<lparr>i_quantity := q, i_updatedAt := mclock m\<rparr>" iid "mi m"]
    by (auto simp: view_def m_product_def tbl_find)
qed

lemma mo_product_modify:
  assumes "minv m" and "m_product_modify pid f m = Inr (p', m')"
  shows "minv m' \<and> (\<exists>p. products (view m) pid = Some p \<and> p' = (f p)\<lparr>p_id := p_id p, p_updatedAt := mclock m\<rparr> \<and>
    view m' = view m\<lparr>products := (products (view m))(pid \<mapsto> p')\<rparr>)"
proof -
  obtain p where p: "tbl p_id (mp m) pid = Some p" "p' = (f p)\<lparr>p_id := p_id p, p_updatedAt := mclock m\<rparr>"
    "m' = m\<lparr>mp := replace_row p_id pid p' (mp m), mclock := mclock m + 1\<rparr>"
    using assms(2) by (auto simp: m_product_modify_def m_product_def tbl_find Let_def split: option.splits)
  have id: "p_id p' = pid" using p(1,2) assms(1) by (auto simp: minv_def tbl_Some)
  have "minv m'"
    using assms(1) p(3) replace_keys [of p_id, OF id] replace_ids [of p_id, OF id] by (simp add: minv_def)
  then show ?thesis using p id tbl_replace [of p_id p' pid "mp m"] by (auto simp: view_def)
qed

lemma mo_product_create:
  assumes "minv m" and "m_product_create nm ds pr sk m = Inr (p, m')"
  shows "minv m' \<and> products (view m) (p_id p) = None \<and> p_name p = nm \<and> p_description p = ds \<and>
    p_price p = round2 pr \<and> p_stock p = sk \<and> view m' = view m\<lparr>products := (products (view m))(p_id p \<mapsto> p)\<rparr>"
  using assms fresh_key [of p_id "mp m"]
  by (auto simp: m_product_create_def Let_def minv_def view_def tbl_None tbl_append)

lemma mo_product_delete:
  assumes "minv m" and "m_product_delete pid m = Inr (p, m')"
  shows "minv m' \<and> products (view m) pid = Some p \<and> (\<forall>i r. items (view m) i = Some r \<longrightarrow> i_productId r \<noteq> pid) \<and>
    view m' = view m\<lparr>products := (products (view m))(pid := None)\<rparr>"
  using assms
  by (auto simp: m_product_delete_def m_product_def tbl_find minv_def view_def tbl_delete tbl_Some
      distinct_map_filter intro!: kept_key split: option.splits if_splits)

lemma mo_orders_of:
  assumes "minv m"
  shows "distinct (map (o_id \<circ> fst) (m_orders_of u m)) \<and>
    fst ` set (m_orders_of u m) = {r. \<exists>i. orders (view m) i = Some r \<and> o_userId r = u} \<and>
    (\<forall>f\<in>set (m_orders_of u m). full_of (view m) (fst f) f) \<and>
    sorted_wrt (\<ge>) (map (o_createdAt \<circ> fst) (m_orders_of u m))"
proof -
  let ?rs = "sort_key (\<lambda>r. - o_createdAt r) (filter (\<lambda>r. o_userId r = u) (mo m))"
  have fst: "map fst (m_orders_of u m) = ?rs" by (simp add: m_orders_of_def m_full_def comp_def)
  have "distinct (map o_id (filter (\<lambda>r. o_userId r = u) (mo m)))"
    using assms by (simp add: minv_def distinct_map_filter)
  then have "distinct (map o_id ?rs)" by (auto simp: distinct_map)
  moreover have "sorted (map (\<lambda>r. - o_createdAt r) ?rs)" by (rule sorted_sort_key)
  then have "sorted_wrt (\<ge>) (map o_createdAt ?rs)" by (simp add: sorted_wrt_map)
  moreover have "set ?rs = {r. \<exists>i. orders (view m) i = Some r \<and> o_userId r = u}"
    using assms by (auto simp: tbl_Some minv_def)
  ultimately show ?thesis
    unfolding fst [symmetric] using m_full_ok [OF assms] by (auto simp: m_orders_of_def m_full_def image_iff comp_def)
qed

lemma m_read_query:
  "off_dbs X \<Longrightarrow> (\<And>m. minv m \<Longrightarrow> R (view m) (g m)) \<Longrightarrow>
   query_ok (\<lambda>s. ref_inv s \<and> X s) ref_tables c (on_db c (m_read g)) R"
  by (rule on_db_query) (auto simp: m_read_def)

lemma m_order_find_tbl: "m_order_find m oid = tbl o_id (mo m) oid"
  by (simp add: m_order_find_def tbl_find)

lemma m_product_tbl: "m_product m pid = tbl p_id (mp m) pid"
  by (simp add: m_product_def tbl_find)

lemma ref_tables_wf: "ref_inv s \<Longrightarrow> db_wf (ref_tables s k)"
proof (cases "rs_dbs s k")
  case None
  then show ?thesis by (simp add: ref_tables_def empty_db_def db_wf_def)
next
  case (Some m)
  moreover assume "ref_inv s"
  ultimately show ?thesis using view_wf [of m] by (simp add: ref_tables_def ref_inv_def)
qed

lemma mo_find_item:
  assumes "minv m"
  shows "case find (\<lambda>i. i_productId i = pid) (m_items m oid) of
      None \<Rightarrow> \<forall>r\<in>order_items (view m) oid. i_productId r \<noteq> pid
    | Some r \<Rightarrow> r \<in> order_items (view m) oid \<and> i_productId r = pid"
proof -
  have "set (m_items m oid) = order_items (view m) oid"
    using m_items_ok [OF assms] by (simp add: lists_items_def)
  then show ?thesis by (auto simp: find_None_iff find_Some_iff split: option.split)
qed

lemma mo_find_full:
  assumes "minv m"
  shows "case (case tbl o_id (mo m) oid of None \<Rightarrow> None | Some r \<Rightarrow> if o_userId r = u then Some (m_full m r) else None) of
      None \<Rightarrow> \<forall>r. orders (view m) oid = Some r \<longrightarrow> o_userId r \<noteq> u
    | Some f \<Rightarrow> \<exists>r. orders (view m) oid = Some r \<and> o_userId r = u \<and> full_of (view m) r f"
  using m_full_ok [OF assms] by (cases "tbl o_id (mo m) oid") simp_all

lemma mo_product_list:
  assumes "minv m" and "m_product_list (Num (of_nat skp)) (Num (of_nat tk)) m = Inr (xs, m')"
  shows "m' = m \<and> (\<exists>ys. xs = take tk (drop skp ys) \<and> distinct (map p_id ys) \<and> set ys = ran (products (view m)) \<and>
    sorted_wrt (\<ge>) (map p_createdAt ys))"
proof -
  let ?ys = "sort_key (\<lambda>p. - p_createdAt p) (mp m)"
  have d: "distinct (map p_id ?ys)" using assms(1) by (auto simp: minv_def distinct_map)
  have s: "set ?ys = ran (products (view m))" using assms(1) by (auto simp: minv_def ran_def tbl_Some)
  have "sorted (map (\<lambda>p. - p_createdAt p) ?ys)" by (rule sorted_sort_key)
  then have "sorted_wrt (\<ge>) (map p_createdAt ?ys)" by (simp add: sorted_wrt_map)
  moreover have "m' = m" and "xs = take tk (drop skp ?ys)" using assms(2) by (auto simp: m_product_list_def)
  ultimately show ?thesis using d s by blast
qed

lemma mo_product_count: "minv m \<Longrightarrow> length (mp m) = card (dom (products (view m)))"
  using distinct_card [of "map p_id (mp m)"] by (simp add: minv_def tbl_dom)

text \<open>The Prisma contract, with everything outside the databases held fixed.\<close>

lemma ref_prisma_frame:
  assumes X: "off_dbs X"
  shows "prisma_store ref_prisma (\<lambda>s. ref_inv s \<and> X s) ref_tables id"
  apply (unfold_locales; (unfold ref_prisma_def prisma_api.simps id_apply)?)
  subgoal by (simp add: ref_tables_wf)
  subgoal by (rule on_db_write [OF X]) (rule mo_order_create)
  subgoal by (rule m_read_query [OF X]) (simp add: m_order_find_tbl)
  subgoal by (rule m_read_query [OF X]) (auto simp: m_order_find_tbl m_items_ok split: option.split)
  subgoal by (rule m_read_query [OF X]) (simp only: m_order_find_tbl mo_find_full)
  subgoal by (rule m_read_query [OF X]) (rule mo_orders_of)
  subgoal by (rule on_db_write [OF X]) (rule mo_order_update)
  subgoal by (rule on_db_write [OF X]) (rule mo_order_update_full)
  subgoal by (rule m_read_query [OF X]) (rule mo_find_item)
  subgoal by (rule m_read_query [OF X]) (rule m_items_ok)
  subgoal by (rule on_db_write [OF X]) (rule mo_item_create)
  subgoal by (rule on_db_write [OF X]) (rule mo_item_update)
  subgoal by (rule m_read_query [OF X]) (simp add: m_product_tbl)
  subgoal by (rule on_db_write [OF X], drule (1) mo_product_modify) force
  subgoal by (rule on_db_write [OF X]) (rule mo_product_create)
  subgoal by (rule m_read_query [OF X]) (rule mo_product_count)
  subgoal by (rule on_db_query [OF X]) (rule mo_product_list)
  subgoal by (rule on_db_write [OF X], drule (1) mo_product_modify) (force simp: apply_product_data_def)
  subgoal by (rule on_db_write [OF X]) (rule mo_product_delete)
  done

lemma ref_prisma_store: "prisma_store ref_prisma (\<lambda>s. ref_inv s \<and> rs_queues s = q) ref_tables id"
  by (rule ref_prisma_frame) (simp add: off_dbs_def)

section \<open>The broker\<close>

text \<open>While the broker is up every call succeeds; while it is down every call rejects.\<close>

definition when_up :: "(ref_state \<Rightarrow> 'a \<times> ref_state) \<Rightarrow> (ref_state, 'a) call" where
  "when_up f s = (if rs_up s then (Inr (fst (f s)), snd (f s)) else (Inl ''connect ECONNREFUSED'', s))"

definition ref_amqp :: "ref_state amqp_api" where
  "ref_amqp = \<lparr>
     amqp_connect = \<lambda>_. when_up (\<lambda>s. ((), s)),
     amqp_createChannel = when_up (\<lambda>s. ((), s)),
     amqp_assertQueue = \<lambda>_. when_up (\<lambda>s. ((), s)),
     amqp_sendToQueue = \<lambda>q m. when_up (\<lambda>s. (True, s\<lparr>rs_queues := (rs_queues s)(q := rs_queues s q @ [m])\<rparr>)),
     amqp_consume = \<lambda>_. when_up (\<lambda>s. ((), s)),
     amqp_ack = \<lambda>_. when_up (\<lambda>s. ((), s)),
     amqp_nack = \<lambda>_. when_up (\<lambda>s. ((), s)),
     rmq_get = rs_rmq,
     rmq_put = \<lambda>v s. s\<lparr>rs_rmq := v\<rparr>,
     rabbitmq_url = None\<rparr>"

definition ref_manager :: "ref_state manager" where
  "ref_manager = \<lparr>mg_config = ref_config, mg_get = rs_conns, mg_put = \<lambda>cs s. s\<lparr>rs_conns := cs\<rparr>\<rparr>"

definition ref_uuid :: "ref_state \<Rightarrow> string \<times> ref_state" where
  "ref_uuid s = (''uuid-'' @ show_nat (rs_count s), s\<lparr>rs_count := rs_count s + 1\<rparr>)"

lemma ref_broker_store: "broker_store ref_amqp (\<lambda>s. ref_inv s \<and> ref_tables s = t) rs_queues"
  by unfold_locales
     (auto simp: ref_amqp_def when_up_def ref_inv_def ref_tables_def fun_eq_iff split: if_splits)

section \<open>Users\<close>

definition ref_user_op :: "(user_row list \<Rightarrow> string + 'a \<times> user_row list) \<Rightarrow> (ref_state, 'a) call" where
  "ref_user_op f s = (case f (rs_users s) of
      Inl e \<Rightarrow> (Inl e, s) | Inr xu \<Rightarrow> (Inr (fst xu), s\<lparr>rs_users := snd xu\<rparr>))"

text \<open>The three unique columns.\<close>

definition user_taken :: "string \<Rightarrow> string \<Rightarrow> string option \<Rightarrow> user_row list \<Rightarrow> bool" where
  "user_taken e n tc us \<longleftrightarrow>
    (\<exists>u\<in>set us. u_email u = e \<or> u_username u = n \<or> tc \<noteq> None \<and> u_tenantCode u = tc)"

definition ref_user :: "ref_state user_api" where
  "ref_user = \<lparr>
     user_findFirst_login = \<lambda>_ e n. ref_user_op (\<lambda>us. Inr (find (\<lambda>u. u_email u = e \<or> u_username u = n) us, us)),
     user_findFirst_tenant = \<lambda>_ tc. ref_user_op (\<lambda>us. Inr (find (\<lambda>u. u_tenantCode u = Some tc) us, us)),
     user_create = \<lambda>_ n. ref_user_op (\<lambda>us.
       if user_taken (un_email n) (un_username n) (un_tenantCode n) us then Inl ''Unique constraint failed''
       else let u = \<lparr>u_id = fresh (map u_id us), u_email = un_email n, u_username = un_username n,
              u_password = un_password n, u_role = un_role n, u_tenantCode = un_tenantCode n,
              u_isDatabaseCreated = un_isDatabaseCreated n, u_createdAt = 0, u_updatedAt = 0\<rparr>
            in Inr (u, us @ [u])),
     user_findMany = \<lambda>_. ref_user_op (\<lambda>us. Inr (us, us)),
     user_findMany_ready = \<lambda>_. ref_user_op (\<lambda>us.
       Inr (List.map_filter u_tenantCode (filter u_isDatabaseCreated us), us)),
     user_findUnique_id = \<lambda>_ i. ref_user_op (\<lambda>us. Inr (find (\<lambda>u. u_id u = i) us, us)),
     user_findUnique_email = \<lambda>_ e. ref_user_op (\<lambda>us. Inr (find (\<lambda>u. u_email u = e) us, us)),
     user_findUnique_username = \<lambda>_ n. ref_user_op (\<lambda>us. Inr (find (\<lambda>u. u_username u = n) us, us)),
     user_update = \<lambda>_ i w. ref_user_op (\<lambda>us. case find (\<lambda>u. u_id u = i) us of
         None \<Rightarrow> Inl notFound
       | Some u \<Rightarrow> let v = apply_user_data w 0 u in
           if user_taken (u_email v) (u_username v) (u_tenantCode v) (filter (\<lambda>x. u_id x \<noteq> i) us)
           then Inl ''Unique constraint failed'' else Inr (v, replace_row u_id i v us)),
     user_delete = \<lambda>_ i. ref_user_op (\<lambda>us. case find (\<lambda>u. u_id u = i) us of
         None \<Rightarrow> Inl notFound
       | Some u \<Rightarrow> Inr (u, filter (\<lambda>u. u_id u \<noteq> i) us))\<rparr>"

section \<open>Interpretations\<close>

interpretation ref_store: prisma_store ref_prisma "\<lambda>s. ref_inv s \<and> rs_queues s = q" ref_tables id
  by (rule ref_prisma_store)

interpretation ref_broker: broker_store ref_amqp "\<lambda>s. ref_inv s \<and> ref_tables s = t" rs_queues
  by (rule ref_broker_store)

interpretation ref_services: order_services ref_prisma ref_amqp ref_manager ref_uuid ref_inv ref_tables id rs_queues
proof (intro order_services.intro ref_prisma_store ref_broker_store)
  show "conns_ok (mg_config ref_manager) (mg_get ref_manager s)" if "ref_inv s" for s
    using that by (simp add: ref_inv_def ref_manager_def)
qed (auto simp: ref_manager_def ref_uuid_def ref_inv_def ref_tables_def ref_amqp_def when_up_def fun_eq_iff)

interpretation ref_listing:
  order_listing ref_prisma ref_amqp ref_manager ref_uuid ref_inv ref_tables id rs_queues ref_user
  by unfold_locales
     (auto simp: ref_user_def ref_user_op_def ref_inv_def ref_tables_def fun_eq_iff)

end
