(* ===== verification/OrderTheorems.thy ===== *)
theory OrderTheorems
  imports Reference
begin

text \<open>
  The properties of the order subsystem, over every world that keeps the contracts of the
  Prisma client and of the broker, each with an execution on the reference world. \<open>T s k\<close> are
  the tables of database \<open>k\<close> in world \<open>s\<close>, \<open>Q s q\<close> the content of queue \<open>q\<close>.
\<close>

section \<open>A concrete world\<close>

definition ex_client :: prisma_client where
  "ex_client = UrlClient ''/tenantacme''"

definition ex_user :: auth_user where
  "ex_user = \<lparr>au_id = ''alice'', au_email = ''alice@example.com'', au_username = ''alice'', au_role = CUSTOMER,
     au_tenantCode = None\<rparr>"

definition ex_product :: product_row where
  "ex_product = \<lparr>p_id = ''p1'', p_name = ''Mug'', p_description = None, p_price = 20, p_stock = 5,
     p_createdAt = 0, p_updatedAt = 0\<rparr>"

definition ex_order :: "OrderStatus \<Rightarrow> order_row" where
  "ex_order st = \<lparr>o_id = ''o1'', o_userId = ''alice'', o_status = st, o_total = 20, o_paymentId = None,
     o_transactionId = None, o_createdAt = 1, o_updatedAt = 1\<rparr>"

definition ex_item :: item_row where
  "ex_item = \<lparr>i_id = ''i1'', i_orderId = ''o1'', i_productId = ''p1'', i_quantity = 1, i_price = 20,
     i_createdAt = 2, i_updatedAt = 2\<rparr>"

definition ex_owner :: user_row where
  "ex_owner = \<lparr>u_id = ''owner'', u_email = ''owner@acme.com'', u_username = ''owner'', u_password = ''hash'',
     u_role = ADMIN, u_tenantCode = Some ''acme'', u_isDatabaseCreated = True, u_createdAt = 0, u_updatedAt = 0\<rparr>"

definition ex_db :: "OrderStatus \<Rightarrow> mem_db" where
  "ex_db st = \<lparr>mp = [ex_product], mo = [ex_order st], mi = [ex_item], mclock = 3\<rparr>"

definition ex_state :: "OrderStatus \<Rightarrow> ref_state" where
  "ex_state st = \<lparr>rs_dbs = (\<lambda>_. None)(ex_client := Some (ex_db st)), rs_users = [ex_owner], rs_queues = \<lambda>_. [],
     rs_up = True, rs_rmq = \<lparr>rq_connection = False, rq_channel = False\<rparr>, rs_conns = Map.empty, rs_count = 0,
     rs_web = \<lparr>wm_redis = [], wm_counters = Map.empty, wm_log = [], wm_headers = [], wm_clock = 1700000000000\<rparr>\<rparr>"

lemma ex_inv: "ref_inv (ex_state st)"
  by (simp add: ref_inv_def ex_state_def ex_db_def minv_def ex_item_def ex_order_def ex_product_def conns_ok_empty)

lemma ex_inv_q: "ref_inv (ex_state st) \<and> rs_queues (ex_state st) = (\<lambda>_. [])"
  using ex_inv by (simp add: ex_state_def)

lemma ex_tables: "ref_tables (ex_state st) ex_client = view (ex_db st)"
  by (simp add: ref_tables_def ex_state_def)

lemma ref_services: "order_services ref_prisma ref_amqp ref_manager ref_uuid ref_inv ref_tables id rs_queues"
  by (rule ref_services.order_services_axioms)

text \<open>An execution that returns, or throws, and what a property says of it.\<close>

lemma run_returns:
  assumes "\<not> isl (fst (run m s))" and "\<And>x s'. run m s = (Inr x, s') \<Longrightarrow> R x s'"
  shows "\<exists>x s'. run m s = (Inr x, s') \<and> R x s'"
  using assms by (cases "run m s"; cases "fst (run m s)") auto

lemma run_throws:
  assumes "isl (fst (run m s))" and "\<And>e s'. run m s = (Inl e, s') \<Longrightarrow> R e s'"
  shows "\<exists>e s'. run m s = (Inl e, s') \<and> R e s'"
  using assms by (cases "run m s"; cases "fst (run m s)") auto

section \<open>Creating orders\<close>

text \<open>
  C1: When \<open>POST orders/:tenantCode/create\<close> succeeds, one new order exists in the tenant's
  database: pending, owned by the caller, holding for every product exactly the quantity the
  body asks for at the product's price, with the exact total whenever it fits its
  \<open>Decimal(10,2)\<close> column; every other order, line, product and database is untouched; exactly
  one message for that order is appended to the processing queue; and the answer is that order
  as stored.
\<close>

theorem create_success:
  assumes "order_services P A M gen Inv T loc Q" and "Inv s"
    and "run (controllerCreate P A c user tc body) s = (Inr f, s')"
  shows "Inv s' \<and> same_but (loc c) (T s) (T s') \<and>
    (\<exists>xs oid. body = Some xs \<and> xs \<noteq> [] \<and>
       opened (mkDecimal P) (au_id user) (map item_dto xs) (T s (loc c)) oid (T s' (loc c)) \<and>
       queued orderProcessingQueue (order_msg_text oid (au_id user) tc) (Q s) (Q s') \<and>
       orders (T s' (loc c)) oid = Some (fst f) \<and> full_of (T s' (loc c)) (fst f) f)"
  by (rule wp_run_Inr [OF order_services.controllerCreate_wp [OF assms(1,2) refl] assms(3)])

theorem create_success_witness:
  "\<exists>f s'. run (controllerCreate ref_prisma ref_amqp ex_client ex_user ''acme''
      (Some [\<lparr>ci_product_id = ''p1'', ci_qty = 2\<rparr>])) (ex_state PENDING) = (Inr f, s') \<and>
    ref_inv s' \<and> same_but (id ex_client) (ref_tables (ex_state PENDING)) (ref_tables s') \<and>
    (\<exists>xs oid. Some [\<lparr>ci_product_id = ''p1'', ci_qty = 2\<rparr>] = Some xs \<and> xs \<noteq> [] \<and>
       opened (mkDecimal ref_prisma) (au_id ex_user) (map item_dto xs) (ref_tables (ex_state PENDING) (id ex_client)) oid
         (ref_tables s' (id ex_client)) \<and>
       queued orderProcessingQueue (order_msg_text oid (au_id ex_user) ''acme'') (rs_queues (ex_state PENDING)) (rs_queues s') \<and>
       orders (ref_tables s' (id ex_client)) oid = Some (fst f) \<and> full_of (ref_tables s' (id ex_client)) (fst f) f)"
  by (rule run_returns, code_simp, rule create_success [OF ref_services ex_inv])

text \<open>
  C15: When \<open>create\<close> throws, whatever rejected and at whatever point, nothing that existed
  before is changed: either the world is as it was, or at most one new order (left behind
  half-built, since the handler is not transactional) with its lines was added, and at most its
  own message was queued.
\<close>

theorem create_failure_contained:
  assumes "order_services P A M gen Inv T loc Q" and "Inv s"
    and "run (controllerCreate P A c user tc body) s = (Inl e, s')"
  shows "Inv s' \<and> same_but (loc c) (T s) (T s') \<and>
    (T s' = T s \<and> Q s' = Q s \<or>
     (\<exists>oid. orders (T s (loc c)) oid = None \<and> order_frame oid (T s (loc c)) (T s' (loc c)) \<and>
        (Q s' = Q s \<or> queued orderProcessingQueue (order_msg_text oid (au_id user) tc) (Q s) (Q s'))))"
  by (rule wp_run_Inl [OF order_services.controllerCreate_wp [OF assms(1,2) refl] assms(3)])

theorem create_failure_contained_witness:
  "\<exists>e s'. run (controllerCreate ref_prisma ref_amqp ex_client ex_user ''acme''
      (Some [\<lparr>ci_product_id = ''p1'', ci_qty = 9\<rparr>])) (ex_state PENDING) = (Inl e, s') \<and>
    ref_inv s' \<and> same_but (id ex_client) (ref_tables (ex_state PENDING)) (ref_tables s') \<and>
    (ref_tables s' = ref_tables (ex_state PENDING) \<and> rs_queues s' = rs_queues (ex_state PENDING) \<or>
     (\<exists>oid. orders (ref_tables (ex_state PENDING) (id ex_client)) oid = None \<and>
        order_frame oid (ref_tables (ex_state PENDING) (id ex_client)) (ref_tables s' (id ex_client)) \<and>
        (rs_queues s' = rs_queues (ex_state PENDING) \<or>
         queued orderProcessingQueue (order_msg_text oid (au_id ex_user) ''acme'') (rs_queues (ex_state PENDING)) (rs_queues s'))))"
  by (rule run_throws, code_simp, rule create_failure_contained [OF ref_services ex_inv])

section \<open>Adding items\<close>



text \<open>
  When \<open>addItemToOrder\<close> throws, no order row, no product and no other database has changed.
  Either no table changed at all, and the exception is the one of the first guard that failed
  (unknown order, another user's order, order not pending, unknown product, too little stock)
  or an error of the client; or the line was written and the client rejected while the total was
  being refreshed.
\<close>

theorem add_item_failure:
  assumes "prisma_store P Inv T loc" and "Inv s"
    and "run (addItemToOrder P c oid uid dto tc) s = (Inl e, s')"
  shows "Inv s' \<and> same_but (loc c) (T s) (T s') \<and> products (T s' (loc c)) = products (T s (loc c)) \<and>
    orders (T s' (loc c)) = orders (T s (loc c)) \<and>
    (T s' = T s \<and> (add_rejects (T s (loc c)) oid uid dto e \<or> client_error tc e) \<or>
     client_error tc e \<and> (\<exists>r p. can_add (T s (loc c)) oid uid dto r p \<and>
       item_written (T s (loc c)) oid dto (p_price p) (items (T s' (loc c)))))"
  by (rule wp_run_Inl [OF prisma_store.addItem_wp [OF assms(1,2) refl] assms(3)])

theorem add_item_failure_witness:
  "\<exists>e s'. run (addItemToOrder ref_prisma ex_client ''o1'' ''bob'' \<lparr>ai_productId = ''p1'', ai_quantity = 2\<rparr> ''acme'')
      (ex_state PENDING) = (Inl e, s') \<and>
    (ref_inv s' \<and> rs_queues s' = (\<lambda>_. [])) \<and> same_but (id ex_client) (ref_tables (ex_state PENDING)) (ref_tables s') \<and>
    products (ref_tables s' (id ex_client)) = products (ref_tables (ex_state PENDING) (id ex_client)) \<and>
    orders (ref_tables s' (id ex_client)) = orders (ref_tables (ex_state PENDING) (id ex_client)) \<and>
    (ref_tables s' = ref_tables (ex_state PENDING) \<and>
       (add_rejects (ref_tables (ex_state PENDING) (id ex_client)) ''o1'' ''bob'' \<lparr>ai_productId = ''p1'', ai_quantity = 2\<rparr> e \<or>
        client_error ''acme'' e) \<or>
     client_error ''acme'' e \<and>
       (\<exists>r p. can_add (ref_tables (ex_state PENDING) (id ex_client)) ''o1'' ''bob'' \<lparr>ai_productId = ''p1'', ai_quantity = 2\<rparr> r p \<and>
          item_written (ref_tables (ex_state PENDING) (id ex_client)) ''o1'' \<lparr>ai_productId = ''p1'', ai_quantity = 2\<rparr> (p_price p)
            (items (ref_tables s' (id ex_client)))))"
  by (rule run_throws, code_simp, rule add_item_failure [OF ref_prisma_store ex_inv_q])

section \<open>Payment\<close>

text \<open>
  C3: When \<open>paymentReceived\<close> succeeds, the order was the caller's and waiting for payment; it is
  now paid; the stock of every product fell by exactly the quantity of it in the order, no
  other column and no other order changed; and the answer is the order as stored.
\<close>

theorem payment_success:
  assumes "prisma_store P Inv T loc" and "Inv s"
    and "run (paymentReceived P c oid uid tc) s = (Inr f, s')"
  shows "Inv s' \<and> same_but (loc c) (T s) (T s') \<and> guarded (T s (loc c)) oid uid WAITING_FOR_PAYMENT \<and>
    items (T s' (loc c)) = items (T s (loc c)) \<and>
    stock_taken (products (T s (loc c))) (ordered (T s (loc c)) oid) (products (T s' (loc c))) \<and>
    status_set PAID (orders (T s (loc c))) oid (orders (T s' (loc c))) \<and>
    orders (T s' (loc c)) oid = Some (fst f) \<and> full_of (T s' (loc c)) (fst f) f"
  by (rule wp_run_Inr [OF prisma_store.paymentReceived_wp [OF assms(1,2) refl] assms(3)])

theorem payment_success_witness:
  "\<exists>f s'. run (paymentReceived ref_prisma ex_client ''o1'' ''alice'' ''acme'') (ex_state WAITING_FOR_PAYMENT) = (Inr f, s') \<and>
    (ref_inv s' \<and> rs_queues s' = (\<lambda>_. [])) \<and>
    same_but (id ex_client) (ref_tables (ex_state WAITING_FOR_PAYMENT)) (ref_tables s') \<and>
    guarded (ref_tables (ex_state WAITING_FOR_PAYMENT) (id ex_client)) ''o1'' ''alice'' WAITING_FOR_PAYMENT \<and>
    items (ref_tables s' (id ex_client)) = items (ref_tables (ex_state WAITING_FOR_PAYMENT) (id ex_client)) \<and>
    stock_taken (products (ref_tables (ex_state WAITING_FOR_PAYMENT) (id ex_client)))
      (ordered (ref_tables (ex_state WAITING_FOR_PAYMENT) (id ex_client)) ''o1'') (products (ref_tables s' (id ex_client))) \<and>
    status_set PAID (orders (ref_tables (ex_state WAITING_FOR_PAYMENT) (id ex_client))) ''o1'' (orders (ref_tables s' (id ex_client))) \<and>
    orders (ref_tables s' (id ex_client)) ''o1'' = Some (fst f) \<and> full_of (ref_tables s' (id ex_client)) (fst f) f"
  by (rule run_returns, code_simp, rule payment_success [OF ref_prisma_store ex_inv_q])

text \<open>
  C16: When \<open>paymentReceived\<close> throws, the order keeps its status and no order or line changes.
  Either nothing changed, and the exception is that of the failed guard or a client error; or
  the client rejected part of the way, and exactly the lines handled before it have left the
  stock (which is not given back).
\<close>

theorem payment_failure:
  assumes "prisma_store P Inv T loc" and "Inv s"
    and "run (paymentReceived P c oid uid tc) s = (Inl e, s')"
  shows "Inv s' \<and> same_but (loc c) (T s) (T s') \<and> items (T s' (loc c)) = items (T s (loc c)) \<and>
    orders (T s' (loc c)) = orders (T s (loc c)) \<and>
    (T s' = T s \<and> (client_error tc e \<or> guard_rejects (T s (loc c)) oid uid WAITING_FOR_PAYMENT
       ''You do not have permission to update this order'' ''Order is not waiting for payment'' e) \<or>
     guarded (T s (loc c)) oid uid WAITING_FOR_PAYMENT \<and> client_error tc e \<and>
       partly_taken (T s (loc c)) oid (products (T s' (loc c))))"
  by (rule wp_run_Inl [OF prisma_store.paymentReceived_wp [OF assms(1,2) refl] assms(3)])

theorem payment_failure_witness:
  "\<exists>e s'. run (paymentReceived ref_prisma ex_client ''o1'' ''alice'' ''acme'') (ex_state PENDING) = (Inl e, s') \<and>
    (ref_inv s' \<and> rs_queues s' = (\<lambda>_. [])) \<and> same_but (id ex_client) (ref_tables (ex_state PENDING)) (ref_tables s') \<and>
    items (ref_tables s' (id ex_client)) = items (ref_tables (ex_state PENDING) (id ex_client)) \<and>
    orders (ref_tables s' (id ex_client)) = orders (ref_tables (ex_state PENDING) (id ex_client)) \<and>
    (ref_tables s' = ref_tables (ex_state PENDING) \<and>
       (client_error ''acme'' e \<or> guard_rejects (ref_tables (ex_state PENDING) (id ex_client)) ''o1'' ''alice'' WAITING_FOR_PAYMENT
          ''You do not have permission to update this order'' ''Order is not waiting for payment'' e) \<or>
     guarded (ref_tables (ex_state PENDING) (id ex_client)) ''o1'' ''alice'' WAITING_FOR_PAYMENT \<and> client_error ''acme'' e \<and>
       partly_taken (ref_tables (ex_state PENDING) (id ex_client)) ''o1'' (products (ref_tables s' (id ex_client))))"
  by (rule run_throws, code_simp, rule payment_failure [OF ref_prisma_store ex_inv_q])

section \<open>Checkout and completion\<close>

text \<open>
  \<open>checkoutOrder\<close> succeeds only for the caller's pending, non-empty order every line of which
  is in stock, and then changes that order's status to \<open>WAITING_FOR_PAYMENT\<close> and nothing else. When
  it throws, no table of any database changed, and the exception is that of the failed guard, of a
  line that is out of stock, or a client error.
\<close>

theorem checkout_exact:
  assumes "prisma_store P Inv T loc" and "Inv s" and "run (checkoutOrder P c oid uid tc) s = (r, s')"
  shows "case r of
      Inr f \<Rightarrow> same_but (loc c) (T s) (T s') \<and> guarded (T s (loc c)) oid uid PENDING \<and>
        order_items (T s (loc c)) oid \<noteq> {} \<and> in_stock (T s (loc c)) oid \<and>
        items (T s' (loc c)) = items (T s (loc c)) \<and> products (T s' (loc c)) = products (T s (loc c)) \<and>
        status_set WAITING_FOR_PAYMENT (orders (T s (loc c))) oid (orders (T s' (loc c))) \<and>
        orders (T s' (loc c)) oid = Some (fst f) \<and> full_of (T s' (loc c)) (fst f) f
    | Inl e \<Rightarrow> T s' = T s \<and> (client_error tc e \<or> checkout_rejects (T s (loc c)) oid uid e)"
  using wp_run_case [OF prisma_store.checkoutOrder_wp [OF assms(1,2) refl] assms(3)] by (cases r) simp_all

theorem checkout_exact_witness:
  "let s = ex_state PENDING; res = run (checkoutOrder ref_prisma ex_client ''o1'' ''alice'' ''acme'') s;
       t = ref_tables s; t' = ref_tables (snd res)
   in \<not> isl (fst res) \<and> (case fst res of
      Inr f \<Rightarrow> same_but (id ex_client) t t' \<and> guarded (t (id ex_client)) ''o1'' ''alice'' PENDING \<and>
        order_items (t (id ex_client)) ''o1'' \<noteq> {} \<and> in_stock (t (id ex_client)) ''o1'' \<and>
        items (t' (id ex_client)) = items (t (id ex_client)) \<and> products (t' (id ex_client)) = products (t (id ex_client)) \<and>
        status_set WAITING_FOR_PAYMENT (orders (t (id ex_client))) ''o1'' (orders (t' (id ex_client))) \<and>
        orders (t' (id ex_client)) ''o1'' = Some (fst f) \<and> full_of (t' (id ex_client)) (fst f) f
    | Inl e \<Rightarrow> t' = t \<and> (client_error ''acme'' e \<or> checkout_rejects (t (id ex_client)) ''o1'' ''alice'' e))"
  unfolding Let_def
  by (rule conjI, code_simp) (rule checkout_exact [OF ref_prisma_store ex_inv_q prod.collapse [symmetric]])

text \<open>
  The service's \<open>completeOrder\<close> completes only the caller's paid order, and changes nothing but
  its status.
\<close>

theorem complete_only_paid:
  assumes "prisma_store P Inv T loc" and "Inv s" and "run (completeOrder P c oid uid tc) s = (Inr f, s')"
  shows "Inv s' \<and> same_but (loc c) (T s) (T s') \<and> guarded (T s (loc c)) oid uid PAID \<and>
    items (T s' (loc c)) = items (T s (loc c)) \<and> products (T s' (loc c)) = products (T s (loc c)) \<and>
    status_set COMPLETE (orders (T s (loc c))) oid (orders (T s' (loc c))) \<and>
    orders (T s' (loc c)) oid = Some (fst f) \<and> full_of (T s' (loc c)) (fst f) f"
  by (rule wp_run_Inr [OF prisma_store.completeOrder_wp [OF assms(1,2) refl] assms(3)])

theorem complete_only_paid_witness:
  "\<exists>f s'. run (completeOrder ref_prisma ex_client ''o1'' ''alice'' ''acme'') (ex_state PAID) = (Inr f, s') \<and>
    (ref_inv s' \<and> rs_queues s' = (\<lambda>_. [])) \<and> same_but (id ex_client) (ref_tables (ex_state PAID)) (ref_tables s') \<and>
    guarded (ref_tables (ex_state PAID) (id ex_client)) ''o1'' ''alice'' PAID \<and>
    items (ref_tables s' (id ex_client)) = items (ref_tables (ex_state PAID) (id ex_client)) \<and>
    products (ref_tables s' (id ex_client)) = products (ref_tables (ex_state PAID) (id ex_client)) \<and>
    status_set COMPLETE (orders (ref_tables (ex_state PAID) (id ex_client))) ''o1'' (orders (ref_tables s' (id ex_client))) \<and>
    orders (ref_tables s' (id ex_client)) ''o1'' = Some (fst f) \<and> full_of (ref_tables s' (id ex_client)) (fst f) f"
  by (rule run_returns, code_simp, rule complete_only_paid [OF ref_prisma_store ex_inv_q])

text \<open>
  \<open>POST orders/:id/complete\<close> accepts an order of the caller in any status, paid or not: it
  queues exactly one completion message and changes no table. (The service's \<open>completeOrder\<close>,
  which does demand a paid order, is not what the controller calls.)
\<close>

theorem complete_request:
  assumes "order_services P A M gen Inv T loc Q" and "Inv s"
    and "run (controllerComplete P A c oid user tc tx) s = (Inr b, s')"
  shows "b \<and> Inv s' \<and> T s' = T s \<and> (\<exists>r. orders (T s (loc c)) oid = Some r \<and> o_userId r = au_id user) \<and>
    (\<exists>x. tx = Some x \<and> trim x \<noteq> [] \<and>
       queued orderCompletedQueue (completed_msg_text oid (au_id user) tc x) (Q s) (Q s'))"
proof -
  obtain x where x: "tx = Some x" "trim x \<noteq> []"
    using assms(3) by (auto simp: controllerComplete_def throw_def split: option.splits if_splits)
  then have "run (enqueueOrderCompleted P A c oid (au_id user) tc x) s = (Inr b, s')"
    using assms(3) by (simp add: controllerComplete_def)
  from wp_run_Inr [OF order_services.enqueueOrderCompleted_wp [OF assms(1,2) refl] this] x show ?thesis by blast
qed

theorem complete_request_witness:
  "\<exists>b s'. run (controllerComplete ref_prisma ref_amqp ex_client ''o1'' ex_user ''acme'' (Some ''tx9'')) (ex_state PENDING) = (Inr b, s') \<and>
    b \<and> ref_inv s' \<and> ref_tables s' = ref_tables (ex_state PENDING) \<and>
    (\<exists>r. orders (ref_tables (ex_state PENDING) (id ex_client)) ''o1'' = Some r \<and> o_userId r = au_id ex_user) \<and>
    (\<exists>x. Some ''tx9'' = Some x \<and> trim x \<noteq> [] \<and> queued orderCompletedQueue
       (completed_msg_text ''o1'' (au_id ex_user) ''acme'' x) (rs_queues (ex_state PENDING)) (rs_queues s'))"
  by (rule run_returns, code_simp, rule complete_request [OF ref_services ex_inv])

section \<open>The worker\<close>

text \<open>
  The processing consumer sets any order it finds to \<open>WAITING_FOR_PAYMENT\<close> with a new payment
  id, whatever its status was: in the tenant's own database, that order's row and nothing else
  changes. (A second delivery of the same message therefore makes a paid or complete order
  payable again.)
\<close>

theorem processing_resets_status:
  assumes "order_services P A M gen Inv T loc Q" and "Inv s"
    and "run (handleOrderProcessing P M gen m) s = (Inr u, s')"
  shows "Inv s' \<and> Q s' = Q s \<and> (\<exists>c pid. tenant_client (mg_config M) (om_tenantCode m) c \<and>
    order_change (no_order_data\<lparr>od_status := Some WAITING_FOR_PAYMENT, od_paymentId := Some pid\<rparr>)
      (om_orderId m) (loc c) (T s) (T s'))"
  by (rule wp_run_Inr [OF order_services.handleOrderProcessing_wp [OF assms(1,2)] assms(3)])

theorem processing_resets_status_witness:
  "\<exists>u s'. run (handleOrderProcessing ref_prisma ref_manager ref_uuid
      \<lparr>om_orderId = ''o1'', om_userId = ''alice'', om_tenantCode = ''acme''\<rparr>) (ex_state COMPLETE) = (Inr u, s') \<and>
    ref_inv s' \<and> rs_queues s' = rs_queues (ex_state COMPLETE) \<and>
    (\<exists>c pid. tenant_client (mg_config ref_manager)
       (om_tenantCode \<lparr>om_orderId = ''o1'', om_userId = ''alice'', om_tenantCode = ''acme''\<rparr>) c \<and>
       order_change (no_order_data\<lparr>od_status := Some WAITING_FOR_PAYMENT, od_paymentId := Some pid\<rparr>)
         (om_orderId \<lparr>om_orderId = ''o1'', om_userId = ''alice'', om_tenantCode = ''acme''\<rparr>) (id c)
         (ref_tables (ex_state COMPLETE)) (ref_tables s'))"
  by (rule run_returns, code_simp, rule processing_resets_status [OF ref_services ex_inv])

text \<open>
  The completion consumer sets the order named by the message to \<open>COMPLETE\<close> and records the
  transaction id, without looking at the order's status or owner; nothing else changes.
\<close>

theorem completion_unconditional:
  assumes "order_services P A M gen Inv T loc Q" and "Inv s"
    and "run (handleOrderCompleted P M m) s = (Inr u, s')"
  shows "Inv s' \<and> Q s' = Q s \<and> (\<exists>c. tenant_client (mg_config M) (cm_tenantCode m) c \<and>
    order_change (no_order_data\<lparr>od_status := Some COMPLETE, od_transactionId := Some (cm_transactionId m)\<rparr>)
      (cm_orderId m) (loc c) (T s) (T s'))"
  by (rule wp_run_Inr [OF order_services.handleOrderCompleted_wp [OF assms(1,2)] assms(3)])

theorem completion_unconditional_witness:
  "\<exists>u s'. run (handleOrderCompleted ref_prisma ref_manager
      \<lparr>cm_orderId = ''o1'', cm_userId = ''bob'', cm_tenantCode = ''acme'', cm_transactionId = ''tx9''\<rparr>) (ex_state PENDING) = (Inr u, s') \<and>
    ref_inv s' \<and> rs_queues s' = rs_queues (ex_state PENDING) \<and>
    (\<exists>c. tenant_client (mg_config ref_manager) (cm_tenantCode
       \<lparr>cm_orderId = ''o1'', cm_userId = ''bob'', cm_tenantCode = ''acme'', cm_transactionId = ''tx9''\<rparr>) c \<and>
       order_change (no_order_data\<lparr>od_status := Some COMPLETE, od_transactionId := Some (cm_transactionId
         \<lparr>cm_orderId = ''o1'', cm_userId = ''bob'', cm_tenantCode = ''acme'', cm_transactionId = ''tx9''\<rparr>)\<rparr>)
         (cm_orderId \<lparr>cm_orderId = ''o1'', cm_userId = ''bob'', cm_tenantCode = ''acme'', cm_transactionId = ''tx9''\<rparr>) (id c)
         (ref_tables (ex_state PENDING)) (ref_tables s'))"
  by (rule run_returns, code_simp, rule completion_unconditional [OF ref_services ex_inv])

section \<open>Reading orders\<close>

text \<open>
  \<open>findOne\<close> answers with the stored order, its lines and their products only if the order is
  the caller's; otherwise the caller learns no more than from an order that does not exist, and
  in every case nothing changes.
\<close>

theorem find_one_own:
  assumes "prisma_store P Inv T loc" and "Inv s" and "run (findOne P c oid uid) s = (r, s')"
  shows "T s' = T s \<and>
    (case r of
       Inr f \<Rightarrow> orders (T s (loc c)) oid = Some (fst f) \<and> o_userId (fst f) = uid \<and> full_of (T s (loc c)) (fst f) f
     | Inl e \<Rightarrow> e = orderNotFound oid \<and> (\<forall>r. orders (T s (loc c)) oid = Some r \<longrightarrow> o_userId r \<noteq> uid) \<or> client_error tc e)"
  using prisma_store.findOne_wp [OF assms(1,2) refl, of c oid uid tc] assms(3) by (auto simp: wp_def split: sum.splits)

theorem find_one_own_witness:
  "ref_tables (snd (run (findOne ref_prisma ex_client ''o1'' ''bob'') (ex_state PAID))) = ref_tables (ex_state PAID) \<and>
    (case fst (run (findOne ref_prisma ex_client ''o1'' ''bob'') (ex_state PAID)) of
       Inr f \<Rightarrow> orders (ref_tables (ex_state PAID) (id ex_client)) ''o1'' = Some (fst f) \<and> o_userId (fst f) = ''bob'' \<and>
         full_of (ref_tables (ex_state PAID) (id ex_client)) (fst f) f
     | Inl e \<Rightarrow> e = orderNotFound ''o1'' \<and>
         (\<forall>r. orders (ref_tables (ex_state PAID) (id ex_client)) ''o1'' = Some r \<longrightarrow> o_userId r \<noteq> ''bob'') \<or> client_error ''acme'' e)"
  by (rule find_one_own [OF ref_prisma_store ex_inv_q]) simp

lemma js_slice_take_drop: "\<exists>i n. js_slice xs a b = take n (drop i xs)"
  unfolding js_slice_def Let_def by blast

lemma paginate_data: "\<exists>i n. pg_data (paginate xs p k) = take n (drop i xs)"
  using js_slice_take_drop by (simp add: paginate_def Let_def)

lemma sortOrders_sorted: "sorted_wrt (\<ge>) (map (\<lambda>x. o_createdAt (fst (fst x))) (sortOrders xs))"
  using sorted_sort_key [of "\<lambda>x. - o_createdAt (fst (fst x))" xs] by (simp add: sortOrders_def sorted_wrt_map)

lemma paginate_rows:
  "set (pg_data (paginate (sortOrders xs) p k)) \<subseteq> set xs"
  "sorted_wrt (\<ge>) (map (\<lambda>x. o_createdAt (fst (fst x))) (pg_data (paginate (sortOrders xs) p k)))"
proof -
  obtain i n where d: "pg_data (paginate (sortOrders xs) p k) = take n (drop i (sortOrders xs))"
    using paginate_data by blast
  have "set (sortOrders xs) = set xs" by (simp add: sortOrders_def)
  then show "set (pg_data (paginate (sortOrders xs) p k)) \<subseteq> set xs"
    unfolding d by (metis set_drop_subset set_take_subset subset_trans)
  show "sorted_wrt (\<ge>) (map (\<lambda>x. o_createdAt (fst (fst x))) (pg_data (paginate (sortOrders xs) p k)))"
    unfolding d take_map [symmetric] drop_map [symmetric]
    by (intro sorted_wrt_take sorted_wrt_drop sortOrders_sorted)
qed

text \<open>
  C6: The listing over all tenants contains only orders of the caller, each with its lines and
  products as stored in a database of the tenant it is tagged with, newest first; and building it
  changes no table and no queue, even when a tenant's database cannot be reached.
\<close>

theorem listing_own_newest_first:
  assumes "order_listing P A M gen Inv T loc Q U" and "Inv s"
    and "run (controllerFindAll P U M user ctx page perPage) s = (Inr x, s')"
  shows "T s' = T s \<and> Q s' = Q s \<and>
    sorted_wrt (\<ge>) (map (\<lambda>x. o_createdAt (fst (fst x))) (pg_data (snd x))) \<and>
    (\<forall>(f, tn)\<in>set (pg_data (snd x)). o_userId (fst f) = au_id user \<and>
       (\<exists>c. tenant_client (mg_config M) tn c \<and> (\<exists>i. orders (T s (loc c)) i = Some (fst f)) \<and> full_of (T s (loc c)) (fst f) f))"
proof -
  let ?rej = "\<exists>c s. Inv s \<and> isl (fst (order_findMany_full P c (au_id user) s))"
  have run: "run (findAll P U M (au_id user) (pageNum page) (perPageNum perPage)) s = (Inr (snd x), s')"
    using assms(3) by (auto simp: controllerFindAll_def Let_def async_simps split: prod.splits sum.splits)
  from wp_run_Inr [OF order_listing.findAll_wp [OF assms(1,2)] run]
  obtain tenants yss where s': "T s' = T s" "Q s' = Q s"
    and yss: "list_all2 (tenant_rows (mg_config M) loc (T s) (au_id user) ?rej) tenants yss"
    and r: "snd x = paginate (sortOrders (concat yss)) (pageNum page) (perPageNum perPage)"
    by (elim conjE exE) (rule that)
  have "(f, tn) \<in> set (concat yss)" if "(f, tn) \<in> set (pg_data (snd x))" for f tn
    using that paginate_rows(1) unfolding r by (rule rev_subsetD)
  then have "\<forall>(f, tn)\<in>set (pg_data (snd x)). o_userId (fst f) = au_id user \<and>
      (\<exists>c. tenant_client (mg_config M) tn c \<and> (\<exists>i. orders (T s (loc c)) i = Some (fst f)) \<and> full_of (T s (loc c)) (fst f) f)"
    using tenant_rows_owned [OF yss] by (intro ballI, clarify) metis
  then show ?thesis using s' paginate_rows(2) unfolding r by (intro conjI)
qed

theorem listing_own_newest_first_witness:
  "\<exists>x s'. run (controllerFindAll ref_prisma ref_user ref_manager ex_user None None None) (ex_state PAID) = (Inr x, s') \<and>
    ref_tables s' = ref_tables (ex_state PAID) \<and> rs_queues s' = rs_queues (ex_state PAID) \<and>
    sorted_wrt (\<ge>) (map (\<lambda>x. o_createdAt (fst (fst x))) (pg_data (snd x))) \<and>
    (\<forall>(f, tn)\<in>set (pg_data (snd x)). o_userId (fst f) = au_id ex_user \<and>
       (\<exists>c. tenant_client (mg_config ref_manager) tn c \<and> (\<exists>i. orders (ref_tables (ex_state PAID) (id c)) i = Some (fst f)) \<and>
          full_of (ref_tables (ex_state PAID) (id c)) (fst f) f))"
  by (rule run_returns, code_simp, rule listing_own_newest_first [OF ref_listing.order_listing_axioms ex_inv])

section \<open>Interleavings\<close>

text \<open>
  C4: Across every interleaving, at every \<open>await\<close>, of any number of requests and deliveries of the
  order subsystem, in every database: no order, line or product disappears; an order keeps its
  id, owner and creation time; it never becomes pending again; a payment or transaction id once
  set stays set; a line keeps its order, product and price; a product changes only in stock; and
  no order ever becomes cancelled.
\<close>

theorem interleaving_keeps_orders:
  assumes "order_listing P A M gen Inv T loc Q U" and "Inv s"
    and "(cstep (order_handlers P A M gen U))\<^sup>*\<^sup>* ([], s) (ts, s')"
  shows "Inv s' \<and> db_evolves (T s k) (T s' k)"
  by (rule order_listing.interleaving_evolves [OF assms(1,3,2)])

theorem interleaving_keeps_orders_witness:
  "\<exists>g s'. (cstep (order_handlers ref_prisma ref_amqp ref_manager ref_uuid ref_user))\<^sup>*\<^sup>* ([], ex_state PENDING)
      ([fst (g (ex_state PENDING)), Await g], s') \<and> ref_inv s' \<and>
    db_evolves (ref_tables (ex_state PENDING) ex_client) (ref_tables s' ex_client)"
proof -
  let ?H = "order_handlers ref_prisma ref_amqp ref_manager ref_uuid ref_user"
  define h where "h = detach (controllerFindOne ref_prisma ex_client ''o1'' ex_user)"
  have H: "h \<in> ?H" unfolding h_def by (rule order_handlers.find_one)
  obtain g where g: "h = Await g"
    by (simp add: h_def controllerFindOne_def findOne_def bindE_def await_call_def detach_def)
  have "cstep ?H ([], ex_state PENDING) ([h], ex_state PENDING)" using cstep.spawn [OF H, of "[]"] by simp
  moreover have "cstep ?H ([h], ex_state PENDING) ([h, h], ex_state PENDING)" using cstep.spawn [OF H, of "[h]"] by simp
  moreover have "cstep ?H ([h, h], ex_state PENDING) ([fst (g (ex_state PENDING)), Await g], snd (g (ex_state PENDING)))"
    using cstep.resume [of 0 "[h, h]" g ?H] g by simp
  ultimately have "(cstep ?H)\<^sup>*\<^sup>* ([], ex_state PENDING) ([fst (g (ex_state PENDING)), Await g], snd (g (ex_state PENDING)))"
    by (meson rtranclp.rtrancl_into_rtrancl rtranclp.rtrancl_refl)
  with interleaving_keeps_orders [OF ref_listing.order_listing_axioms ex_inv this] show ?thesis by blast
qed

end
