(* ===== verification/ProductTheorems.thy ===== *)
theory ProductTheorems
  imports Products OrderTheorems
begin

text \<open>
  The properties of the product catalogue, over every world that keeps the contract of the Prisma
  client, each with an execution on the reference world of \<open>Reference\<close>.
\<close>

text \<open>
  C31: The product listing of a tenant: page \<open>n\<close> with \<open>k\<close> rows per page holds the rows \<open>(n - 1) * k\<close>
  to \<open>n * k - 1\<close> of the tenant's products in order of creation, newest first, with the exact number
  of products and of pages, and changes nothing. A page beyond the last one is answered with no rows
  but labelled with the number of the last page.
\<close>

theorem product_listing:
  assumes "prisma_store P Inv T loc" and "Inv s" and "card (dom (products (T s (loc c)))) < 2 ^ 53"
    and "pageNum page = Num (of_nat n)" and "(n - 1) * 100 \<le> 2 ^ 53"
    and "run (productControllerFindAll P c tc page perPage) s = (Inr r, s')"
  shows "T s' = T s \<and> (\<exists>k ys. 1 \<le> k \<and> k \<le> 100 \<and> perPageNum perPage = Num (of_nat k) \<and> catalogue (T s (loc c)) ys \<and>
    pg_total r = length ys \<and> pg_total_pages r = Num (of_nat (page_count (length ys) k)) \<and>
    pg_data r = nth_page ys n k \<and> pg_page r = Num (of_nat (min n (page_count (length ys) k))) \<and>
    (page_count (length ys) k < n \<longrightarrow> pg_data r = []))"
proof -
  obtain k where k: "1 \<le> k" "k \<le> 100" "perPageNum perPage = Num (of_nat k)" using perPageNum_range by blast
  have n: "1 \<le> n" using pageNum_cases [of page] assms(4) by auto
  have "(n - 1) * k \<le> (n - 1) * 100" using k(2) by simp
  then have nk: "(n - 1) * k \<le> 2 ^ 53" using assms(5) by linarith
  have run: "run (productFindAll P c tc (Num (of_nat n)) (Num (of_nat k))) s = (Inr r, s')"
    using assms(4,6) k(3) by (simp add: productControllerFindAll_def)
  from wp_run_Inr [OF prisma_store.productFindAll_wp [OF assms(1,2) refl n k(1) nk] run]
  obtain ys where ys: "catalogue (T s (loc c)) ys" "pg_total r = length ys" "pg_data r = nth_page ys n k"
      "pg_total_pages r = totalPages (length ys) (Num (of_nat k))"
      "pg_page r = math_min (Num (of_nat n)) (totalPages (length ys) (Num (of_nat k)))" "T s' = T s" by blast
  have tp: "totalPages (length ys) (Num (of_nat k)) = Num (of_nat (page_count (length ys) k))"
    using totalPages_eq [of k "length ys"] k(1) prisma_store.card_catalogue [OF assms(1,2) ys(1)] assms(3) by simp
  have "pg_data r = []" if "page_count (length ys) k < n"
  proof -
    have "length ys \<le> page_count (length ys) k * k" using page_count_upper k(1) by simp
    also have "\<dots> \<le> (n - 1) * k" using that by (intro mult_right_mono) auto
    finally show ?thesis by (simp add: ys(3) nth_page_def)
  qed
  then show ?thesis using ys k tp by (auto simp: math_min_def min_def intro!: exI [of _ k] exI [of _ ys])
qed

theorem product_listing_witness:
  "\<exists>r s'. run (productControllerFindAll ref_prisma ex_client ''acme'' (Some ''7'') None) (ex_state PAID) = (Inr r, s') \<and>
    ref_tables s' = ref_tables (ex_state PAID) \<and>
    (\<exists>k ys. 1 \<le> k \<and> k \<le> 100 \<and> perPageNum None = Num (of_nat k) \<and> catalogue (ref_tables (ex_state PAID) (id ex_client)) ys \<and>
      pg_total r = length ys \<and> pg_total_pages r = Num (of_nat (page_count (length ys) k)) \<and>
      pg_data r = nth_page ys 7 k \<and> pg_page r = Num (of_nat (min 7 (page_count (length ys) k))) \<and>
      (page_count (length ys) k < 7 \<longrightarrow> pg_data r = []))"
proof (rule run_returns, code_simp, rule product_listing [OF ref_store.prisma_store_axioms ex_inv_q])
  have "dom (products (ref_tables (ex_state PAID) (id ex_client))) = {''p1''}"
    by (auto simp: ex_tables view_def ex_db_def ex_product_def tbl_def split: if_splits)
  then show "card (dom (products (ref_tables (ex_state PAID) (id ex_client)))) < 2 ^ 53" by simp
  show "pageNum (Some ''7'') = Num (of_nat 7)" by code_simp
qed auto

text \<open>
  Updating a product writes exactly the columns the body names (the price rounded to cents, the
  new \<open>updatedAt\<close>) to exactly that row and nothing else; when it throws nothing has changed, and the
  exception is that the product is missing or an error of the database.
\<close>

theorem product_update_exact:
  assumes "prisma_store P Inv T loc" and "Inv s" and "run (productUpdate P c pid w tc) s = (r, s')"
  shows "case r of
      Inl e \<Rightarrow> T s' = T s \<and> (products (T s (loc c)) pid = None \<and> e = tenantDbError tc (productNotFound pid) \<or> client_error tc e)
    | Inr p' \<Rightarrow> (\<exists>p t. products (T s (loc c)) pid = Some p \<and> p' = apply_product_data w t p) \<and>
        product_changed (T s (loc c)) pid (Some p') (T s' (loc c)) \<and> same_but (loc c) (T s) (T s')"
  using wp_run_case [OF prisma_store.productUpdate_wp [OF assms(1,2) refl] assms(3)] by (cases r) simp_all

theorem product_update_exact_witness:
  "let w = \<lparr>pd_name = None, pd_description = None, pd_price = Some (199 / 10), pd_stock = Some 8\<rparr>;
       res = run (productUpdate ref_prisma ex_client ''p1'' w ''acme'') (ex_state PAID)
   in \<not> isl (fst res) \<and> (case fst res of
      Inl e \<Rightarrow> ref_tables (snd res) = ref_tables (ex_state PAID) \<and>
        (products (ref_tables (ex_state PAID) (id ex_client)) ''p1'' = None \<and> e = tenantDbError ''acme'' (productNotFound ''p1'') \<or>
         client_error ''acme'' e)
    | Inr p' \<Rightarrow> (\<exists>p t. products (ref_tables (ex_state PAID) (id ex_client)) ''p1'' = Some p \<and> p' = apply_product_data w t p) \<and>
        product_changed (ref_tables (ex_state PAID) (id ex_client)) ''p1'' (Some p') (ref_tables (snd res) (id ex_client)) \<and>
        same_but (id ex_client) (ref_tables (ex_state PAID)) (ref_tables (snd res)))"
  unfolding Let_def
  by (rule conjI, code_simp)
     (rule product_update_exact [OF ref_store.prisma_store_axioms ex_inv_q prod.collapse [symmetric]])

text \<open>
  A product is deleted only when no line of any order of the tenant refers to it, so no order
  ever loses the product of a line; exactly that row disappears. When \<open>remove\<close> throws nothing has
  changed.
\<close>

theorem product_remove_safe:
  assumes "prisma_store P Inv T loc" and "Inv s" and "run (productRemove P c pid tc) s = (r, s')"
  shows "case r of
      Inl e \<Rightarrow> T s' = T s \<and> (products (T s (loc c)) pid = None \<and> e = tenantDbError tc (productNotFound pid) \<or> client_error tc e)
    | Inr p \<Rightarrow> products (T s (loc c)) pid = Some p \<and>
        (\<forall>oid. \<forall>l\<in>order_items (T s (loc c)) oid. i_productId l \<noteq> pid) \<and>
        product_changed (T s (loc c)) pid None (T s' (loc c)) \<and> same_but (loc c) (T s) (T s')"
  using wp_run_case [OF prisma_store.productRemove_wp [OF assms(1,2) refl] assms(3)]
  by (cases r) (auto simp: order_items_def)

theorem product_remove_safe_witness:
  "let res = run (productRemove ref_prisma ex_client ''p1'' ''acme'') (ex_state PAID)
   in isl (fst res) \<and> (case fst res of
      Inl e \<Rightarrow> ref_tables (snd res) = ref_tables (ex_state PAID) \<and>
        (products (ref_tables (ex_state PAID) (id ex_client)) ''p1'' = None \<and> e = tenantDbError ''acme'' (productNotFound ''p1'') \<or>
         client_error ''acme'' e)
    | Inr p \<Rightarrow> products (ref_tables (ex_state PAID) (id ex_client)) ''p1'' = Some p \<and>
        (\<forall>oid. \<forall>l\<in>order_items (ref_tables (ex_state PAID) (id ex_client)) oid. i_productId l \<noteq> ''p1'') \<and>
        product_changed (ref_tables (ex_state PAID) (id ex_client)) ''p1'' None (ref_tables (snd res) (id ex_client)) \<and>
        same_but (id ex_client) (ref_tables (ex_state PAID)) (ref_tables (snd res)))"
  unfolding Let_def
  by (rule conjI, code_simp)
     (rule product_remove_safe [OF ref_store.prisma_store_axioms ex_inv_q prod.collapse [symmetric]])

text \<open>
  Creating a product adds exactly one row with a fresh id, the given name and description, the
  price rounded to cents and the given stock, 0 when there is none, to the request's own database;
  when it throws nothing has changed.
\<close>

theorem product_create_row:
  assumes "prisma_store P Inv T loc" and "Inv s" and "run (productCreate P c ctx dto) s = (r, s')"
  shows "case r of
      Inl e \<Rightarrow> T s' = T s
    | Inr p \<Rightarrow> products (T s (loc c)) (p_id p) = None \<and> p_name p = cp_name dto \<and> p_description p = cp_description dto \<and>
        p_price p = round2 (cp_price dto) \<and> p_stock p = (case cp_stock dto of None \<Rightarrow> 0 | Some n \<Rightarrow> n) \<and>
        product_changed (T s (loc c)) (p_id p) (Some p) (T s' (loc c)) \<and> same_but (loc c) (T s) (T s')"
  using wp_run_case [OF prisma_store.productCreate_wp [OF assms(1,2) refl] assms(3)] by (cases r) simp_all

theorem product_create_row_witness:
  "let dto = \<lparr>cp_name = ''Cup'', cp_description = None, cp_price = 2999 / 1000, cp_stock = None\<rparr>;
       res = run (productCreate ref_prisma ex_client (Some ''acme'') dto) (ex_state PAID)
   in \<not> isl (fst res) \<and> (case fst res of
      Inl e \<Rightarrow> ref_tables (snd res) = ref_tables (ex_state PAID)
    | Inr p \<Rightarrow> products (ref_tables (ex_state PAID) (id ex_client)) (p_id p) = None \<and> p_name p = cp_name dto \<and>
        p_description p = cp_description dto \<and> p_price p = round2 (cp_price dto) \<and>
        p_stock p = (case cp_stock dto of None \<Rightarrow> 0 | Some n \<Rightarrow> n) \<and>
        product_changed (ref_tables (ex_state PAID) (id ex_client)) (p_id p) (Some p) (ref_tables (snd res) (id ex_client)) \<and>
        same_but (id ex_client) (ref_tables (ex_state PAID)) (ref_tables (snd res)))"
  unfolding Let_def
  by (rule conjI, code_simp)
     (rule product_create_row [OF ref_store.prisma_store_axioms ex_inv_q prod.collapse [symmetric]])

end
