(* ===== verification/Users.thy ===== *)
theory Users
  imports OrderFacts Broker
begin

text \<open>
  \<open>UserService\<close> (\<open>src/user/user.service.ts\<close>). Its client is \<open>DefaultPrismaService\<close>, the client of
  the default database. A \<open>select\<close> clause is the projection \<open>select_user\<close> of the row; \<open>bcrypt\<close> is the
  parameter \<open>'s bcrypt_api\<close>.
\<close>

section \<open>Data\<close>

record create_user =
  cu_email :: string
  cu_username :: string
  cu_password :: string
  cu_role :: "Role option"
  cu_tenantCode :: "string option"

record update_user =
  uu_email :: "string option"
  uu_username :: "string option"
  uu_password :: "string option"
  uu_role :: "Role option"

text \<open>The columns of every \<open>select\<close> in the service: all but the password.\<close>

record user_view =
  uv_id :: string
  uv_email :: string
  uv_username :: string
  uv_role :: Role
  uv_tenantCode :: "string option"
  uv_isDatabaseCreated :: bool
  uv_createdAt :: int
  uv_updatedAt :: int

definition select_user :: "user_row \<Rightarrow> user_view" where
  "select_user u = \<lparr>uv_id = u_id u, uv_email = u_email u, uv_username = u_username u, uv_role = u_role u,
     uv_tenantCode = u_tenantCode u, uv_isDatabaseCreated = u_isDatabaseCreated u,
     uv_createdAt = u_createdAt u, uv_updatedAt = u_updatedAt u\<rparr>"

record database_status =
  st_userId :: string
  st_isDatabaseCreated :: bool
  st_message :: string

record 's bcrypt_api =
  bcrypt_hash :: "string \<Rightarrow> nat \<Rightarrow> ('s, string) call"
  bcrypt_compare :: "string \<Rightarrow> string \<Rightarrow> ('s, bool) call"

text \<open>\<open>v || undefined\<close> and \<open>v || null\<close>.\<close>

definition or_undefined :: "string option \<Rightarrow> string option" where
  "or_undefined v = (if truthy v then v else None)"

section \<open>The service\<close>

text \<open>The row that \<open>create\<close> asks for, given the hash of the password.\<close>

definition user_new_of :: "create_user \<Rightarrow> string \<Rightarrow> user_new" where
  "user_new_of dto hashedPassword = \<lparr>un_email = cu_email dto, un_username = cu_username dto,
     un_password = hashedPassword,
     un_role = (case cu_role dto of None \<Rightarrow> CUSTOMER | Some r \<Rightarrow> r),
     un_tenantCode = or_undefined (cu_tenantCode dto),
     un_isDatabaseCreated = (cu_role dto \<noteq> Some ADMIN)\<rparr>"

definition checkTenantFree :: "'s user_api \<Rightarrow> create_user \<Rightarrow> ('s, unit) handler" where
  "checkTenantFree U dto =
    (case or_undefined (cu_tenantCode dto) of
       None \<Rightarrow> ret ()
     | Some tc \<Rightarrow>
         bindE (await_call (user_findFirst_tenant U DefaultClient tc)) (\<lambda>existingTenant.
         if existingTenant \<noteq> None then throw (ConflictException ''Tenant code is already in use'') else ret ()))"

text \<open>A failure to publish is logged and swallowed.\<close>

definition announceTenant :: "'s amqp_api \<Rightarrow> create_user \<Rightarrow> string \<Rightarrow> ('s, unit) handler" where
  "announceTenant A dto userId =
    (case or_undefined (cu_tenantCode dto) of
       None \<Rightarrow> ret ()
     | Some tc \<Rightarrow>
         if cu_role dto = Some ADMIN
         then tryCatch (publishDatabaseCreationMessage A \<lparr>dm_userId = userId, dm_tenantCode = tc\<rparr>) (\<lambda>_. ret ())
         else ret ())"

definition userCreate ::
  "'s user_api \<Rightarrow> 's bcrypt_api \<Rightarrow> 's amqp_api \<Rightarrow> create_user \<Rightarrow> ('s, user_view) handler" where
  "userCreate U B A dto =
    (if cu_role dto = Some ADMIN \<and> \<not> truthy (cu_tenantCode dto)
     then throw (BadRequestException ''tenantCode is required for ADMIN role'')
     else if cu_role dto \<noteq> Some ADMIN \<and> truthy (cu_tenantCode dto)
     then throw (BadRequestException ''tenantCode can only be set for ADMIN role'')
     else
       bindE (await_call (user_findFirst_login U DefaultClient (cu_email dto) (cu_username dto))) (\<lambda>existingUser.
       if existingUser \<noteq> None
       then throw (ConflictException ''User with this email or username already exists'')
       else
         bindE (checkTenantFree U dto) (\<lambda>_.
         bindE (await_call (bcrypt_hash B (cu_password dto) 10)) (\<lambda>hashedPassword.
         bindE (await_call (user_create U DefaultClient (user_new_of dto hashedPassword))) (\<lambda>user.
         bindE (announceTenant A dto (u_id user)) (\<lambda>_.
         ret (select_user user)))))))"

definition userFindAll :: "'s user_api \<Rightarrow> ('s, user_view list) handler" where
  "userFindAll U = bindE (await_call (user_findMany U DefaultClient)) (\<lambda>us. ret (map select_user us))"

definition userNotFound :: "string \<Rightarrow> exn" where
  "userNotFound uid = NotFoundException (''User with ID '' @ uid @ '' not found'')"

definition userFindOne :: "'s user_api \<Rightarrow> string \<Rightarrow> ('s, user_view) handler" where
  "userFindOne U uid =
    bindE (await_call (user_findUnique_id U DefaultClient uid)) (\<lambda>user.
    case user of None \<Rightarrow> throw (userNotFound uid) | Some u \<Rightarrow> ret (select_user u))"

definition findByEmail :: "'s user_api \<Rightarrow> string \<Rightarrow> ('s, user_row option) handler" where
  "findByEmail U email = await_call (user_findUnique_email U DefaultClient email)"

definition findByUsername :: "'s user_api \<Rightarrow> string \<Rightarrow> ('s, user_row option) handler" where
  "findByUsername U username = await_call (user_findUnique_username U DefaultClient username)"

definition userUpdate :: "'s user_api \<Rightarrow> 's bcrypt_api \<Rightarrow> string \<Rightarrow> update_user \<Rightarrow> ('s, user_view) handler" where
  "userUpdate U B uid dto =
    bindE (userFindOne U uid) (\<lambda>_.
    bindE (case or_undefined (uu_password dto) of
             None \<Rightarrow> ret (uu_password dto)
           | Some pw \<Rightarrow> bindE (await_call (bcrypt_hash B pw 10)) (\<lambda>h. ret (Some h))) (\<lambda>password.
    bindE (await_call (user_update U DefaultClient uid
      \<lparr>ud_email = uu_email dto, ud_username = uu_username dto, ud_password = password,
       ud_role = uu_role dto, ud_isDatabaseCreated = None\<rparr>)) (\<lambda>user.
    ret (select_user user))))"

definition userRemove :: "'s user_api \<Rightarrow> string \<Rightarrow> ('s, user_view) handler" where
  "userRemove U uid =
    bindE (userFindOne U uid) (\<lambda>_.
    bindE (await_call (user_delete U DefaultClient uid)) (\<lambda>user. ret (select_user user)))"

definition checkDatabaseStatus :: "'s user_api \<Rightarrow> string \<Rightarrow> ('s, database_status) handler" where
  "checkDatabaseStatus U userId =
    bindE (userFindOne U userId) (\<lambda>user.
    ret \<lparr>st_userId = uv_id user, st_isDatabaseCreated = uv_isDatabaseCreated user,
      st_message = (if uv_isDatabaseCreated user then ''Database is ready for use''
        else ''Database creation is in progress or failed'')\<rparr>)"

section \<open>What the operations do\<close>

text \<open>
  The primary key and the unique columns \<open>email\<close>, \<open>username\<close> and \<open>tenantCode\<close>.
\<close>

definition clash :: "string \<Rightarrow> string \<Rightarrow> string option \<Rightarrow> user_row \<Rightarrow> bool" where
  "clash e n tc u \<longleftrightarrow> u_email u = e \<or> u_username u = n \<or> tc \<noteq> None \<and> u_tenantCode u = tc"

definition users_wf :: "(string \<rightharpoonup> user_row) \<Rightarrow> bool" where
  "users_wf W \<longleftrightarrow> (\<forall>i u. W i = Some u \<longrightarrow> u_id u = i) \<and>
    (\<forall>i j u v. W i = Some u \<longrightarrow> W j = Some v \<longrightarrow> clash (u_email u) (u_username u) (u_tenantCode u) v \<longrightarrow> i = j)"

text \<open>An administrator has a tenant and nobody else has.\<close>

definition role_ok :: "user_row \<Rightarrow> bool" where
  "role_ok u \<longleftrightarrow> (u_role u = ADMIN \<longleftrightarrow> u_tenantCode u \<noteq> None) \<and> u_tenantCode u \<noteq> Some []"

definition user_created ::
  "(string \<Rightarrow> string \<Rightarrow> bool) \<Rightarrow> create_user \<Rightarrow> (string \<rightharpoonup> user_row) \<Rightarrow> user_row \<Rightarrow> (string \<rightharpoonup> user_row) \<Rightarrow> bool" where
  "user_created matches dto w u w' \<longleftrightarrow>
    w (u_id u) = None \<and> w' = w(u_id u \<mapsto> u) \<and> u_email u = cu_email dto \<and> u_username u = cu_username dto \<and>
    matches (cu_password dto) (u_password u) \<and> u_role u = (case cu_role dto of None \<Rightarrow> CUSTOMER | Some r \<Rightarrow> r) \<and>
    u_tenantCode u = or_undefined (cu_tenantCode dto) \<and> role_ok u \<and> u_isDatabaseCreated u = (u_role u \<noteq> ADMIN) \<and>
    (\<forall>v\<in>ran w. \<not> clash (u_email u) (u_username u) (u_tenantCode u) v)"

text \<open>The queues after a creation: at most the message that asks for an administrator's database.\<close>

definition announced :: "user_row \<Rightarrow> (string \<Rightarrow> string list) \<Rightarrow> (string \<Rightarrow> string list) \<Rightarrow> bool" where
  "announced u q q' \<longleftrightarrow> q' = q \<or> (\<exists>tc. u_role u = ADMIN \<and> u_tenantCode u = Some tc \<and>
     q' = q(queueName := q queueName @ [stringify (db_msg_json \<lparr>dm_userId = u_id u, dm_tenantCode = tc\<rparr>)]))"

definition creation_refused :: "create_user \<Rightarrow> (string \<rightharpoonup> user_row) \<Rightarrow> exn \<Rightarrow> bool" where
  "creation_refused dto w e \<longleftrightarrow>
    (case e of
       BadRequestException _ \<Rightarrow> (cu_role dto = Some ADMIN) \<noteq> truthy (cu_tenantCode dto)
     | ConflictException _ \<Rightarrow> (\<exists>v\<in>ran w. clash (cu_email dto) (cu_username dto) (or_undefined (cu_tenantCode dto)) v)
     | RaisedError _ \<Rightarrow> True
     | _ \<Rightarrow> False)"

lemma creation_refused_simps [simp]:
  "creation_refused dto w (RaisedError m)"
  "creation_refused dto w (ConflictException m) \<longleftrightarrow>
    (\<exists>v\<in>ran w. clash (cu_email dto) (cu_username dto) (or_undefined (cu_tenantCode dto)) v)"
  "creation_refused dto w (BadRequestException m) \<longleftrightarrow> (cu_role dto = Some ADMIN) \<noteq> truthy (cu_tenantCode dto)"
  by (auto simp: creation_refused_def)

definition user_written ::
  "(string \<Rightarrow> string \<Rightarrow> bool) \<Rightarrow> update_user \<Rightarrow> user_row \<Rightarrow> user_row \<Rightarrow> bool" where
  "user_written matches dto u v \<longleftrightarrow>
    (\<exists>t h. v = u\<lparr>u_email := upd_opt (uu_email dto) (u_email u), u_username := upd_opt (uu_username dto) (u_username u),
       u_password := h, u_role := upd_opt (uu_role dto) (u_role u), u_updatedAt := t\<rparr> \<and>
     (case uu_password dto of
        None \<Rightarrow> h = u_password u
      | Some pw \<Rightarrow> if pw = [] then h = [] else matches pw h))"

lemma user_writtenI:
  assumes "case uu_password dto of None \<Rightarrow> p = None
      | Some pw \<Rightarrow> \<exists>h. p = Some h \<and> (if pw = [] then h = [] else matches pw h)"
  shows "user_written matches dto u (apply_user_data \<lparr>ud_email = uu_email dto, ud_username = uu_username dto,
    ud_password = p, ud_role = uu_role dto, ud_isDatabaseCreated = None\<rparr> t u)"
  unfolding user_written_def
  by (intro exI [of _ t] exI [of _ "upd_opt p (u_password u)"])
     (use assms in \<open>auto simp: apply_user_data_def upd_opt_def split: option.splits\<close>)

section \<open>The contract of the users table\<close>

text \<open>\<open>ux\<close> is what \<open>findFirst\<close> may answer for a condition.\<close>

definition first_match :: "(string \<rightharpoonup> user_row) \<Rightarrow> (user_row \<Rightarrow> bool) \<Rightarrow> user_row option \<Rightarrow> bool" where
  "first_match W c ux = (case ux of None \<Rightarrow> \<forall>u\<in>ran W. \<not> c u | Some u \<Rightarrow> u \<in> ran W \<and> c u)"

locale user_store =
  fixes U :: "'s user_api" and Inv :: "'s \<Rightarrow> bool" and W :: "'s \<Rightarrow> 'k \<Rightarrow> string \<rightharpoonup> user_row"
    and uloc :: "prisma_client \<Rightarrow> 'k"
  assumes users_wf: "Inv s \<Longrightarrow> users_wf (W s k)"
    and findFirst_login_ok: "query_ok Inv W (uloc c) (user_findFirst_login U c e n)
      (\<lambda>w. first_match w (\<lambda>u. u_email u = e \<or> u_username u = n))"
    and findFirst_tenant_ok: "query_ok Inv W (uloc c) (user_findFirst_tenant U c tc)
      (\<lambda>w. first_match w (\<lambda>u. u_tenantCode u = Some tc))"
    and create_ok: "write_ok Inv W (uloc c) (user_create U c new)
      (\<lambda>w u w'. w (u_id u) = None \<and> u_email u = un_email new \<and> u_username u = un_username new \<and>
         u_password u = un_password new \<and> u_role u = un_role new \<and> u_tenantCode u = un_tenantCode new \<and>
         u_isDatabaseCreated u = un_isDatabaseCreated new \<and> w' = w(u_id u \<mapsto> u))"
    and findMany_ok: "query_ok Inv W (uloc c) (user_findMany U c) (\<lambda>w us. distinct (map u_id us) \<and> set us = ran w)"
    and findUnique_id_ok: "query_ok Inv W (uloc c) (user_findUnique_id U c uid) (\<lambda>w x. x = w uid)"
    and findUnique_email_ok: "query_ok Inv W (uloc c) (user_findUnique_email U c e)
      (\<lambda>w. first_match w (\<lambda>u. u_email u = e))"
    and findUnique_username_ok: "query_ok Inv W (uloc c) (user_findUnique_username U c n)
      (\<lambda>w. first_match w (\<lambda>u. u_username u = n))"
    and update_ok: "write_ok Inv W (uloc c) (user_update U c uid dat)
      (\<lambda>w v w'. \<exists>u t. w uid = Some u \<and> v = apply_user_data dat t u \<and> w' = w(uid \<mapsto> v))"
    and delete_ok: "write_ok Inv W (uloc c) (user_delete U c uid) (\<lambda>w u w'. w uid = Some u \<and> w' = w(uid := None))"

section \<open>The services a user operation relies on\<close>

text \<open>\<open>matches pw h\<close>: \<open>h\<close> is a bcrypt hash of \<open>pw\<close>. Hashing and comparing change nothing.\<close>

locale user_services =
  fixes U :: "'s user_api" and B :: "'s bcrypt_api" and A :: "'s amqp_api" and Inv :: "'s \<Rightarrow> bool"
    and W :: "'s \<Rightarrow> 'k \<Rightarrow> string \<rightharpoonup> user_row" and uloc :: "prisma_client \<Rightarrow> 'k"
    and Q :: "'s \<Rightarrow> string \<Rightarrow> string list" and matches :: "string \<Rightarrow> string \<Rightarrow> bool"
  assumes store: "user_store U (\<lambda>s. Inv s \<and> Q s = q) W uloc"
    and broker: "broker_store A (\<lambda>s. Inv s \<and> W s = w) Q"
    and hash_ok: "Inv s \<Longrightarrow> bcrypt_hash B pw n s = (r, s') \<Longrightarrow>
      Inv s' \<and> W s' = W s \<and> Q s' = Q s \<and> (\<forall>h. r = Inr h \<longrightarrow> matches pw h)"
    and compare_ok: "Inv s \<Longrightarrow> bcrypt_compare B pw h s = (c, s') \<Longrightarrow>
      Inv s' \<and> W s' = W s \<and> Q s' = Q s \<and> (\<forall>b. c = Inr b \<longrightarrow> b = matches pw h)"
begin

lemma user_query_wp:
  assumes "Inv s" and "\<And>q. query_ok (\<lambda>s. Inv s \<and> Q s = q) W k f R"
    and "\<And>e s'. Inv s' \<Longrightarrow> W s' = W s \<Longrightarrow> Q s' = Q s \<Longrightarrow> E (RaisedError e) s'"
    and "\<And>x s'. Inv s' \<Longrightarrow> W s' = W s \<Longrightarrow> Q s' = Q s \<Longrightarrow> R (W s k) x \<Longrightarrow> G x s'"
  shows "wp (await_call f) G E s"
  using assms(1) by (intro query_wp [OF assms(2) [of "Q s"]]) (auto intro: assms(3,4))

lemma user_write_wp:
  assumes "Inv s" and "\<And>q. write_ok (\<lambda>s. Inv s \<and> Q s = q) W k f R"
    and "\<And>e s'. Inv s' \<Longrightarrow> W s' = W s \<Longrightarrow> Q s' = Q s \<Longrightarrow> E (RaisedError e) s'"
    and "\<And>x d s'. Inv s' \<Longrightarrow> W s' = (W s)(k := d) \<Longrightarrow> Q s' = Q s \<Longrightarrow> R (W s k) x d \<Longrightarrow> G x s'"
  shows "wp (await_call f) G E s"
  using assms(1) by (intro write_wp [OF assms(2) [of "Q s"]]) (auto intro: assms(3,4))

lemma hash_wp:
  assumes "Inv s"
    and "\<And>e s'. Inv s' \<Longrightarrow> W s' = W s \<Longrightarrow> Q s' = Q s \<Longrightarrow> E (RaisedError e) s'"
    and "\<And>h s'. Inv s' \<Longrightarrow> W s' = W s \<Longrightarrow> Q s' = Q s \<Longrightarrow> matches pw h \<Longrightarrow> G h s'"
  shows "wp (await_call (bcrypt_hash B pw n)) G E s"
proof -
  obtain r s' where h: "bcrypt_hash B pw n s = (r, s')" by fastforce
  from hash_ok [OF assms(1) h] show ?thesis
    using h assms(2,3) by (auto simp: wp_await_call split: sum.split)
qed

lemma compare_wp:
  assumes "Inv s"
    and "\<And>e s'. Inv s' \<Longrightarrow> W s' = W s \<Longrightarrow> Q s' = Q s \<Longrightarrow> E (RaisedError e) s'"
    and "\<And>s'. Inv s' \<Longrightarrow> W s' = W s \<Longrightarrow> Q s' = Q s \<Longrightarrow> G (matches pw h) s'"
  shows "wp (await_call (bcrypt_compare B pw h)) G E s"
proof -
  obtain r s' where h: "bcrypt_compare B pw h s = (r, s')" by fastforce
  from compare_ok [OF assms(1) h] show ?thesis
    using h assms(2,3) by (auto simp: wp_await_call split: sum.split)
qed

lemma announce_wp:
  assumes "Inv s" and "u_tenantCode u = or_undefined (cu_tenantCode dto)" and "cu_role dto = Some ADMIN \<Longrightarrow> u_role u = ADMIN"
  shows "wp (announceTenant A dto (u_id u)) (\<lambda>_ s'. Inv s' \<and> W s' = W s \<and> announced u (Q s) (Q s')) (\<lambda>_ _. False) s"
proof (cases "\<exists>tc. or_undefined (cu_tenantCode dto) = Some tc \<and> cu_role dto = Some ADMIN")
  case True
  then obtain tc where tc: "or_undefined (cu_tenantCode dto) = Some tc" and ad: "cu_role dto = Some ADMIN" by blast
  have "wp (publishDatabaseCreationMessage A \<lparr>dm_userId = u_id u, dm_tenantCode = tc\<rparr>)
      (\<lambda>_ s'. Inv s' \<and> W s' = W s \<and> announced u (Q s) (Q s')) (\<lambda>_ s'. Inv s' \<and> W s' = W s \<and> announced u (Q s) (Q s')) s"
    by (rule wp_conseq [OF broker_store.publishDatabaseCreation_wp [OF broker [of "W s"]]])
       (use assms tc ad in \<open>auto simp: announced_def\<close>)
  then show ?thesis using tc ad by (auto simp: announceTenant_def wp_simps intro: wp_conseq)
next
  case False
  then show ?thesis using assms(1) by (auto simp: announceTenant_def wp_simps announced_def split: option.split)
qed

lemma checkTenantFree_wp:
  assumes "Inv s"
  shows "wp (checkTenantFree U dto)
    (\<lambda>_ s'. Inv s' \<and> W s' = W s \<and> Q s' = Q s \<and> (\<forall>tc. or_undefined (cu_tenantCode dto) = Some tc \<longrightarrow>
       (\<forall>v\<in>ran (W s (uloc DefaultClient)). u_tenantCode v \<noteq> Some tc)))
    (\<lambda>e s'. Inv s' \<and> W s' = W s \<and> Q s' = Q s \<and> creation_refused dto (W s (uloc DefaultClient)) e) s"
proof (cases "or_undefined (cu_tenantCode dto)")
  case None
  then show ?thesis using assms by (simp add: checkTenantFree_def wp_simps)
next
  case (Some tc)
  show ?thesis
    unfolding checkTenantFree_def Some option.case wp_bindE
    by (rule user_query_wp [OF assms user_store.findFirst_tenant_ok [OF store]])
       (use Some in \<open>auto simp: wp_simps first_match_def clash_def split: option.splits\<close>)
qed

lemma userCreate_wp:
  assumes "Inv s"
  shows "wp (userCreate U B A dto)
    (\<lambda>v s'. Inv s' \<and> same_but (uloc DefaultClient) (W s) (W s') \<and> (\<exists>u. v = select_user u \<and>
       user_created matches dto (W s (uloc DefaultClient)) u (W s' (uloc DefaultClient)) \<and> announced u (Q s) (Q s')))
    (\<lambda>e s'. Inv s' \<and> W s' = W s \<and> Q s' = Q s \<and> creation_refused dto (W s (uloc DefaultClient)) e) s"
    (is "wp _ ?G ?E s")
proof (cases "(cu_role dto = Some ADMIN) = truthy (cu_tenantCode dto)")
  case False
  then show ?thesis using assms by (auto simp: userCreate_def wp_simps)
next
  case True
  let ?k = "uloc DefaultClient" and ?m = "\<lambda>h. await_call (user_create U DefaultClient (user_new_of dto h))"
  let ?ann = "\<lambda>u. bindE (announceTenant A dto (u_id u)) (\<lambda>_. ret (select_user u))"
  have insert: "wp (bindE (?m h) ?ann) ?G ?E s1"
    if s1: "Inv s1" "W s1 = W s" "Q s1 = Q s" and h: "matches (cu_password dto) h"
      and free: "\<forall>v\<in>ran (W s ?k). \<not> clash (cu_email dto) (cu_username dto) (or_undefined (cu_tenantCode dto)) v" for s1 h
    unfolding wp_bindE
  proof (rule user_write_wp [OF s1(1) user_store.create_ok [OF store]])
    show "?E (RaisedError e) s2" if "Inv s2" "W s2 = W s1" "Q s2 = Q s1" for e s2
      using that s1 by simp
    fix u d s2 assume s2: "Inv s2" "W s2 = (W s1)(?k := d)" "Q s2 = Q s1"
      and u: "W s1 ?k (u_id u) = None \<and> u_email u = un_email (user_new_of dto h) \<and> u_username u = un_username (user_new_of dto h) \<and>
         u_password u = un_password (user_new_of dto h) \<and> u_role u = un_role (user_new_of dto h) \<and>
         u_tenantCode u = un_tenantCode (user_new_of dto h) \<and>
         u_isDatabaseCreated u = un_isDatabaseCreated (user_new_of dto h) \<and> d = (W s1 ?k)(u_id u \<mapsto> u)"
    have "user_created matches dto (W s ?k) u d"
      using u h free s1 True
      by (auto simp: user_created_def user_new_of_def role_ok_def or_undefined_def truthy_def split: option.splits)
    then show "wp (announceTenant A dto (u_id u)) (\<lambda>_. wp (ret (select_user u)) ?G ?E) ?E s2"
      by (intro wp_conseq [OF announce_wp [OF s2(1)]])
         (use u s1 s2 in \<open>auto simp: wp_simps user_new_of_def same_but_def\<close>)
  qed
  have rest: "wp (bindE (checkTenantFree U dto) (\<lambda>_. bindE (await_call (bcrypt_hash B (cu_password dto) 10)) (\<lambda>h. bindE (?m h) ?ann))) ?G ?E s1"
    if s1: "Inv s1" "W s1 = W s" "Q s1 = Q s"
      and "\<forall>v\<in>ran (W s ?k). u_email v \<noteq> cu_email dto \<and> u_username v \<noteq> cu_username dto" for s1
    unfolding wp_bindE [of "checkTenantFree U dto"]
    by (rule wp_conseq [OF checkTenantFree_wp [OF s1(1)]], unfold wp_bindE [of "await_call (bcrypt_hash B (cu_password dto) 10)"],
        rule hash_wp)
       (use that in \<open>auto simp: clash_def intro!: insert\<close>)
  show ?thesis
    unfolding userCreate_def wp_if wp_bindE [of "await_call (user_findFirst_login U DefaultClient (cu_email dto) (cu_username dto))"]
    using True
    by (auto intro!: user_query_wp [OF assms user_store.findFirst_login_ok [OF store]] rest
        simp: wp_if wp_throw assms first_match_def clash_def split: option.splits)
qed

lemma userFindOne_wp:
  assumes "Inv s"
  shows "wp (userFindOne U uid)
    (\<lambda>v s'. Inv s' \<and> W s' = W s \<and> Q s' = Q s \<and> map_option select_user (W s (uloc DefaultClient) uid) = Some v)
    (\<lambda>e s'. Inv s' \<and> W s' = W s \<and> Q s' = Q s \<and>
       (W s (uloc DefaultClient) uid = None \<and> e = userNotFound uid \<or> (\<exists>m. e = RaisedError m))) s"
  unfolding userFindOne_def wp_bindE
  by (rule user_query_wp [OF assms user_store.findUnique_id_ok [OF store]])
     (auto simp: wp_ret wp_throw split: option.split)

lemma userUpdate_wp:
  assumes "Inv s"
  shows "wp (userUpdate U B uid dto)
    (\<lambda>x s'. Inv s' \<and> Q s' = Q s \<and> (\<exists>u v. W s (uloc DefaultClient) uid = Some u \<and> user_written matches dto u v \<and>
       x = select_user v \<and> W s' = (W s)(uloc DefaultClient := (W s (uloc DefaultClient))(uid \<mapsto> v))))
    (\<lambda>e s'. Inv s' \<and> W s' = W s \<and> Q s' = Q s \<and>
       (W s (uloc DefaultClient) uid = None \<and> e = userNotFound uid \<or> (\<exists>m. e = RaisedError m))) s"
    (is "wp _ ?G ?E s")
proof -
  let ?data = "\<lambda>p. \<lparr>ud_email = uu_email dto, ud_username = uu_username dto, ud_password = p, ud_role = uu_role dto,
    ud_isDatabaseCreated = None\<rparr>"
  have store_row: "wp (bindE (await_call (user_update U DefaultClient uid (?data p))) (\<lambda>u. ret (select_user u))) ?G ?E s1"
    if s1: "Inv s1" "W s1 = W s" "Q s1 = Q s" and p: "(case uu_password dto of None \<Rightarrow> p = None
      | Some pw \<Rightarrow> \<exists>h. p = Some h \<and> (if pw = [] then h = [] else matches pw h))" for s1 p
    unfolding wp_bindE
  proof (rule user_write_wp [OF s1(1) user_store.update_ok [OF store]])
    show "?E (RaisedError e) s2" if "Inv s2" "W s2 = W s1" "Q s2 = Q s1" for e s2 using that s1 by simp
    fix v d s2 assume s2: "Inv s2" "W s2 = (W s1)(uloc DefaultClient := d)" "Q s2 = Q s1"
      and "\<exists>u t. W s1 (uloc DefaultClient) uid = Some u \<and> v = apply_user_data (?data p) t u \<and>
        d = (W s1 (uloc DefaultClient))(uid \<mapsto> v)"
    then obtain u t where u: "W s (uloc DefaultClient) uid = Some u" "v = apply_user_data (?data p) t u"
      "d = (W s (uloc DefaultClient))(uid \<mapsto> v)" using s1 by auto
    have "user_written matches dto u v"
      unfolding u(2) using p by (rule user_writtenI)
    then show "wp (ret (select_user v)) ?G ?E s2"
      using u(1,3) s1 s2 unfolding wp_ret by (intro conjI exI [of _ u] exI [of _ v]) simp_all
  qed
  show ?thesis
  proof (cases "or_undefined (uu_password dto)")
    case None
    then have p: "case uu_password dto of None \<Rightarrow> uu_password dto = None
      | Some pw \<Rightarrow> \<exists>h. uu_password dto = Some h \<and> (if pw = [] then h = [] else matches pw h)"
      by (cases "uu_password dto") (simp_all add: or_undefined_def truthy_def split: if_splits)
    show ?thesis
      unfolding userUpdate_def wp_bindE [of "userFindOne U uid"] None option.case wp_bindE [of "ret x" for x] wp_ret
      by (rule wp_conseq [OF userFindOne_wp [OF assms]], elim conjE, erule (2) store_row [OF _ _ _ p])
  next
    case (Some pw)
    then have "uu_password dto = Some pw \<and> pw \<noteq> []" by (auto simp: or_undefined_def truthy_def split: if_splits)
    then have p: "case uu_password dto of None \<Rightarrow> Some h = None
      | Some pw \<Rightarrow> \<exists>h'. Some h = Some h' \<and> (if pw = [] then h' = [] else matches pw h')" if "matches pw h" for h
      using that by simp
    have hashed: "wp (await_call (bcrypt_hash B pw 10)) (\<lambda>h. wp (bindE (await_call (user_update U DefaultClient uid (?data (Some h))))
        (\<lambda>u. ret (select_user u))) ?G ?E) ?E s1" if "Inv s1" "W s1 = W s" "Q s1 = Q s" for s1
      by (rule hash_wp [OF that(1)]) (use that in simp, rule store_row, use that p in simp_all)
    show ?thesis
      unfolding userUpdate_def wp_bindE [of "userFindOne U uid"] Some option.case bindE_assoc
        wp_bindE [of "await_call (bcrypt_hash B pw 10)"] wp_bindE [of "ret x" for x] wp_ret
      by (rule wp_conseq [OF userFindOne_wp [OF assms]], elim conjE, erule (2) hashed)
  qed
qed

lemma userRemove_wp:
  assumes "Inv s"
  shows "wp (userRemove U uid)
    (\<lambda>x s'. Inv s' \<and> Q s' = Q s \<and> (\<exists>u. W s (uloc DefaultClient) uid = Some u \<and> x = select_user u \<and>
       W s' = (W s)(uloc DefaultClient := (W s (uloc DefaultClient))(uid := None))))
    (\<lambda>e s'. Inv s' \<and> W s' = W s \<and> Q s' = Q s \<and>
       (W s (uloc DefaultClient) uid = None \<and> e = userNotFound uid \<or> (\<exists>m. e = RaisedError m))) s"
  unfolding userRemove_def wp_bindE
  by (rule wp_conseq [OF userFindOne_wp [OF assms]], rule user_write_wp [OF _ user_store.delete_ok [OF store]])
     (auto simp: wp_ret)

end

end
