(* ===== verification/Auth.thy ===== *)
theory Auth
  imports Users
begin

text \<open>
  Authentication and authorisation: \<open>AuthService\<close>, \<open>JwtStrategy\<close>, \<open>RolesGuard\<close>, the guarded endpoints
  of \<open>UserController\<close> and \<open>AuthController\<close>. \<open>JwtService\<close> and passport's \<open>AuthGuard('jwt')\<close> are the
  parameter \<open>'s jwt_api\<close>: signing a payload, and reading the payload of a valid, unexpired bearer
  token from the \<open>Authorization\<close> header.
\<close>

section \<open>Data\<close>

record jwt_payload =
  jp_sub :: string
  jp_email :: string
  jp_role :: Role
  jp_tenantCode :: "string option"

record 's jwt_api =
  jwt_sign :: "jwt_payload \<Rightarrow> ('s, string) call"
  jwt_verify :: "string option \<Rightarrow> ('s, jwt_payload) call"

record auth_response =
  access_token :: string
  ar_user :: auth_user

record login_dto =
  lg_email :: string
  lg_password :: string

record register_dto =
  rg_email :: string
  rg_username :: string
  rg_password :: string

section \<open>AuthService\<close>

definition invalidCredentials :: exn where
  "invalidCredentials = UnauthorizedException ''Invalid credentials''"

definition validateUser :: "'s user_api \<Rightarrow> 's bcrypt_api \<Rightarrow> string \<Rightarrow> string \<Rightarrow> ('s, user_view) handler" where
  "validateUser U B email password =
    bindE (findByEmail U email) (\<lambda>user.
    case user of
      None \<Rightarrow> throw invalidCredentials
    | Some u \<Rightarrow>
        bindE (await_call (bcrypt_compare B password (u_password u))) (\<lambda>isPasswordValid.
        if \<not> isPasswordValid then throw invalidCredentials else ret (select_user u)))"

definition loginPayload :: "user_view \<Rightarrow> jwt_payload" where
  "loginPayload user = \<lparr>jp_sub = uv_id user, jp_email = uv_email user, jp_role = uv_role user,
     jp_tenantCode = or_undefined (uv_tenantCode user)\<rparr>"

definition loginUser :: "user_view \<Rightarrow> auth_user" where
  "loginUser user = \<lparr>au_id = uv_id user, au_email = uv_email user, au_username = uv_username user,
     au_role = uv_role user, au_tenantCode = or_undefined (uv_tenantCode user)\<rparr>"

definition login ::
  "'s user_api \<Rightarrow> 's bcrypt_api \<Rightarrow> 's jwt_api \<Rightarrow> login_dto \<Rightarrow> ('s, auth_response) handler" where
  "login U B J dto =
    bindE (validateUser U B (lg_email dto) (lg_password dto)) (\<lambda>user.
    bindE (await_call (jwt_sign J (loginPayload user))) (\<lambda>tok.
    ret \<lparr>access_token = tok, ar_user = loginUser user\<rparr>))"

text \<open>\<open>{...registerDto, role: 'CUSTOMER'}\<close>.\<close>

definition registerData :: "register_dto \<Rightarrow> create_user" where
  "registerData dto = \<lparr>cu_email = rg_email dto, cu_username = rg_username dto, cu_password = rg_password dto,
     cu_role = Some CUSTOMER, cu_tenantCode = None\<rparr>"

definition registerPayload :: "user_view \<Rightarrow> jwt_payload" where
  "registerPayload user = \<lparr>jp_sub = uv_id user, jp_email = uv_email user, jp_role = uv_role user, jp_tenantCode = None\<rparr>"

definition register ::
  "'s user_api \<Rightarrow> 's bcrypt_api \<Rightarrow> 's amqp_api \<Rightarrow> 's jwt_api \<Rightarrow> register_dto \<Rightarrow> ('s, auth_response) handler" where
  "register U B A J dto = rethrow (
    bindE (userCreate U B A (registerData dto)) (\<lambda>user.
    bindE (await_call (jwt_sign J (registerPayload user))) (\<lambda>tok.
    ret \<lparr>access_token = tok, ar_user = \<lparr>au_id = uv_id user, au_email = uv_email user,
      au_username = uv_username user, au_role = uv_role user, au_tenantCode = None\<rparr>\<rparr>)))"

section \<open>Guards\<close>

definition auth_user_of :: "user_row \<Rightarrow> auth_user" where
  "auth_user_of u = \<lparr>au_id = u_id u, au_email = u_email u, au_username = u_username u, au_role = u_role u,
     au_tenantCode = u_tenantCode u\<rparr>"

text \<open>\<open>JwtStrategy.validate\<close>: the user is read again on every request.\<close>

definition jwtValidate :: "'s user_api \<Rightarrow> jwt_payload \<Rightarrow> ('s, auth_user) handler" where
  "jwtValidate U payload =
    bindE (await_call (user_findUnique_id U DefaultClient (jp_sub payload))) (\<lambda>user.
    case user of None \<Rightarrow> throw (UnauthorizedException ''Unauthorized'') | Some u \<Rightarrow> ret (auth_user_of u))"

text \<open>\<open>RolesGuard.canActivate\<close>, with the metadata of \<open>@Roles\<close>.\<close>

definition canActivate :: "Role list option \<Rightarrow> auth_user option \<Rightarrow> bool" where
  "canActivate requiredRoles user =
    (case requiredRoles of
       None \<Rightarrow> True
     | Some roles \<Rightarrow> list_ex (\<lambda>role. map_option au_role user = Some role) roles)"

text \<open>
  \<open>@UseGuards(JwtAuthGuard, RolesGuard)\<close> on a handler: both guards, then the handler with
  \<open>request.user\<close>.
\<close>

definition withGuards ::
  "'s user_api \<Rightarrow> 's jwt_api \<Rightarrow> Role list option \<Rightarrow> string option \<Rightarrow> (auth_user \<Rightarrow> ('s, 'a) handler) \<Rightarrow> ('s, 'a) handler" where
  "withGuards U J requiredRoles authorization handle =
    bindE (tryCatch (await_call (jwt_verify J authorization)) (\<lambda>_. throw (UnauthorizedException ''Unauthorized''))) (\<lambda>payload.
    bindE (jwtValidate U payload) (\<lambda>user.
    if canActivate requiredRoles (Some user) then handle user
    else throw (ForbiddenException ''Forbidden resource'')))"

section \<open>The controllers\<close>

definition userControllerCreate where
  "userControllerCreate U B A J authorization dto =
    withGuards U J (Some [ADMIN]) authorization (\<lambda>_. userCreate U B A dto)"

definition userControllerFindAll where
  "userControllerFindAll U J authorization = withGuards U J (Some [ADMIN]) authorization (\<lambda>_. userFindAll U)"

definition userControllerFindOne where
  "userControllerFindOne U J authorization uid = withGuards U J (Some [ADMIN]) authorization (\<lambda>_. userFindOne U uid)"

definition userControllerUpdate where
  "userControllerUpdate U B J authorization uid dto =
    withGuards U J (Some [ADMIN]) authorization (\<lambda>_. userUpdate U B uid dto)"

definition userControllerRemove where
  "userControllerRemove U J authorization uid = withGuards U J (Some [ADMIN]) authorization (\<lambda>_. userRemove U uid)"

definition userControllerStatus where
  "userControllerStatus U J authorization uid =
    withGuards U J (Some [ADMIN]) authorization (\<lambda>_. checkDatabaseStatus U uid)"

text \<open>\<open>GET auth/profile\<close>: \<open>JwtAuthGuard\<close> only.\<close>

definition getProfile :: "'s user_api \<Rightarrow> 's jwt_api \<Rightarrow> string option \<Rightarrow> ('s, auth_user) handler" where
  "getProfile U J authorization = withGuards U J None authorization ret"

section \<open>The services authentication relies on\<close>

text \<open>
  \<open>token_of p tok\<close>: \<open>tok\<close> is a token signed with the secret for payload \<open>p\<close>. Verification accepts
  only bearer tokens that were signed.
\<close>

locale auth_services = user_services U B A Inv W uloc Q matches
  for U :: "'s user_api" and B :: "'s bcrypt_api" and A :: "'s amqp_api" and Inv :: "'s \<Rightarrow> bool"
    and W :: "'s \<Rightarrow> 'k \<Rightarrow> string \<rightharpoonup> user_row" and uloc :: "prisma_client \<Rightarrow> 'k"
    and Q :: "'s \<Rightarrow> string \<Rightarrow> string list" and matches :: "string \<Rightarrow> string \<Rightarrow> bool" +
  fixes J :: "'s jwt_api" and token_of :: "jwt_payload \<Rightarrow> string \<Rightarrow> bool"
  assumes sign_ok: "Inv s \<Longrightarrow> jwt_sign J p s = (r, s') \<Longrightarrow>
      Inv s' \<and> W s' = W s \<and> Q s' = Q s \<and> (\<forall>tok. r = Inr tok \<longrightarrow> token_of p tok)"
    and verify_ok: "Inv s \<Longrightarrow> jwt_verify J hdr s = (pr, s') \<Longrightarrow>
      Inv s' \<and> W s' = W s \<and> Q s' = Q s \<and>
      (\<forall>p. pr = Inr p \<longrightarrow> (\<exists>tok. hdr = Some (''Bearer '' @ tok) \<and> token_of p tok))"
begin

lemma sign_wp:
  assumes "Inv s"
    and "\<And>e s'. Inv s' \<Longrightarrow> W s' = W s \<Longrightarrow> Q s' = Q s \<Longrightarrow> E (RaisedError e) s'"
    and "\<And>tok s'. Inv s' \<Longrightarrow> W s' = W s \<Longrightarrow> Q s' = Q s \<Longrightarrow> token_of p tok \<Longrightarrow> G tok s'"
  shows "wp (await_call (jwt_sign J p)) G E s"
proof -
  obtain r s' where h: "jwt_sign J p s = (r, s')" by fastforce
  from sign_ok [OF assms(1) h] show ?thesis
    using h assms(2,3) by (auto simp: wp_await_call split: sum.split)
qed

lemma verify_wp:
  assumes "Inv s"
    and "\<And>e s'. Inv s' \<Longrightarrow> W s' = W s \<Longrightarrow> Q s' = Q s \<Longrightarrow> E (RaisedError e) s'"
    and "\<And>p tok s'. Inv s' \<Longrightarrow> W s' = W s \<Longrightarrow> Q s' = Q s \<Longrightarrow> hdr = Some (''Bearer '' @ tok) \<Longrightarrow> token_of p tok \<Longrightarrow> G p s'"
  shows "wp (await_call (jwt_verify J hdr)) G E s"
proof -
  obtain r s' where h: "jwt_verify J hdr s = (r, s')" by fastforce
  from verify_ok [OF assms(1) h] show ?thesis
    using h assms(2,3) by (auto simp: wp_await_call split: sum.split)
qed

text \<open>The account that a pair of credentials identifies.\<close>

lemma email_unique:
  assumes "Inv s" and "u \<in> ran (W s k)" and "v \<in> ran (W s k)" and "u_email u = u_email v"
  shows "u = v"
proof -
  obtain i j where ij: "W s k i = Some u" "W s k j = Some v" using assms(2,3) by (auto simp: ran_def)
  have "users_wf (W s k)" by (rule user_store.users_wf [OF store [of "Q s"]]) (simp add: assms(1))
  moreover have "clash (u_email u) (u_username u) (u_tenantCode u) v" using assms(4) by (simp add: clash_def)
  ultimately have "i = j" using ij unfolding users_wf_def by blast
  then show ?thesis using ij by simp
qed

lemma validateUser_wp:
  assumes "Inv s"
  shows "wp (validateUser U B email password)
    (\<lambda>v s'. Inv s' \<and> W s' = W s \<and> Q s' = Q s \<and>
       (\<exists>u\<in>ran (W s (uloc DefaultClient)). u_email u = email \<and> matches password (u_password u) \<and> v = select_user u))
    (\<lambda>e s'. Inv s' \<and> W s' = W s \<and> Q s' = Q s \<and>
       (e = invalidCredentials \<and> \<not> (\<exists>u\<in>ran (W s (uloc DefaultClient)). u_email u = email \<and> matches password (u_password u)) \<or>
        (\<exists>m. e = RaisedError m))) s" (is "wp _ ?G ?E s")
proof -
  let ?f = "\<lambda>user. case user of None \<Rightarrow> throw invalidCredentials
    | Some u \<Rightarrow> bindE (await_call (bcrypt_compare B password (u_password u))) (\<lambda>isPasswordValid.
        if \<not> isPasswordValid then throw invalidCredentials else ret (select_user u))"
  have "wp (?f ux) ?G ?E s1"
    if s1: "Inv s1" "W s1 = W s" "Q s1 = Q s"
      and ux: "first_match (W s (uloc DefaultClient)) (\<lambda>u. u_email u = email) ux" for ux s1
  proof (cases ux)
    case None
    then show ?thesis using s1 ux by (auto simp: wp_throw first_match_def)
  next
    case (Some u)
    then have u: "u \<in> ran (W s (uloc DefaultClient))" "u_email u = email" using ux by (auto simp: first_match_def)
    then have sole: "(\<exists>v\<in>ran (W s (uloc DefaultClient)). u_email v = email \<and> matches password (u_password v)) \<longleftrightarrow>
        matches password (u_password u)"
      using email_unique [OF assms] by metis
    have "wp (if \<not> matches password (u_password u) then throw invalidCredentials else ret (select_user u)) ?G ?E s2"
      if "Inv s2" "W s2 = W s" "Q s2 = Q s" for s2
      using that u sole by (cases "matches password (u_password u)") (auto simp: wp_simps)
    then show ?thesis
      unfolding Some option.case wp_bindE using s1 by (intro compare_wp [OF s1(1)]) simp_all
  qed
  then show ?thesis
    unfolding validateUser_def findByEmail_def wp_bindE [of "await_call (user_findUnique_email U DefaultClient email)"]
    by (intro user_query_wp [OF assms user_store.findUnique_email_ok [OF store]]) auto
qed

lemma login_wp:
  assumes "Inv s"
  shows "wp (login U B J dto)
    (\<lambda>a s'. Inv s' \<and> W s' = W s \<and> Q s' = Q s \<and> (\<exists>u\<in>ran (W s (uloc DefaultClient)). u_email u = lg_email dto \<and>
       matches (lg_password dto) (u_password u) \<and> token_of (loginPayload (select_user u)) (access_token a) \<and>
       ar_user a = loginUser (select_user u)))
    (\<lambda>e s'. Inv s' \<and> W s' = W s \<and> Q s' = Q s \<and>
       (e = invalidCredentials \<and>
        \<not> (\<exists>u\<in>ran (W s (uloc DefaultClient)). u_email u = lg_email dto \<and> matches (lg_password dto) (u_password u)) \<or>
        (\<exists>m. e = RaisedError m))) s"
  unfolding login_def wp_bindE wp_ret
  by (rule wp_conseq [OF validateUser_wp [OF assms]], rule sign_wp) auto

lemma register_wp:
  assumes "Inv s"
  shows "wp (register U B A J dto)
    (\<lambda>a s'. Inv s' \<and> Q s' = Q s \<and> same_but (uloc DefaultClient) (W s) (W s') \<and>
       (\<exists>u. user_created matches (registerData dto) (W s (uloc DefaultClient)) u (W s' (uloc DefaultClient)) \<and>
          token_of (registerPayload (select_user u)) (access_token a) \<and> ar_user a = auth_user_of u))
    (\<lambda>e s'. Inv s' \<and> Q s' = Q s \<and> same_but (uloc DefaultClient) (W s) (W s') \<and>
       (W s' = W s \<and> creation_refused (registerData dto) (W s (uloc DefaultClient)) e \<or>
        (\<exists>u m. user_created matches (registerData dto) (W s (uloc DefaultClient)) u (W s' (uloc DefaultClient)) \<and>
           e = RaisedError m))) s"
  unfolding register_def rethrow_wp wp_bindE wp_ret
proof (rule wp_conseq [OF userCreate_wp [OF assms]], elim conjE exE, rule sign_wp)
  fix x s1 u tok s2
  assume u: "user_created matches (registerData dto) (W s (uloc DefaultClient)) u (W s1 (uloc DefaultClient))" "announced u (Q s) (Q s1)"
    and s1: "Inv s1" "same_but (uloc DefaultClient) (W s) (W s1)" "x = select_user u"
  have tc: "u_tenantCode u = None" "Q s1 = Q s" using u
    by (auto simp: user_created_def registerData_def or_undefined_def truthy_def announced_def)
  then show "Inv s1" by (simp add: s1)
  show "Inv s2 \<and> Q s2 = Q s \<and> same_but (uloc DefaultClient) (W s) (W s2) \<and>
       (\<exists>u. user_created matches (registerData dto) (W s (uloc DefaultClient)) u (W s2 (uloc DefaultClient)) \<and>
          token_of (registerPayload (select_user u)) (access_token \<lparr>access_token = tok, ar_user = \<lparr>au_id = uv_id x, au_email = uv_email x,
      au_username = uv_username x, au_role = uv_role x, au_tenantCode = None\<rparr>\<rparr>) \<and> ar_user \<lparr>access_token = tok, ar_user = \<lparr>au_id = uv_id x, au_email = uv_email x,
      au_username = uv_username x, au_role = uv_role x, au_tenantCode = None\<rparr>\<rparr> = auth_user_of u)"
    if "Inv s2" "W s2 = W s1" "Q s2 = Q s1" "token_of (registerPayload x) tok"
    using that s1 tc u(1) by (auto simp: auth_user_of_def select_user_def intro!: exI [of _ u])
  show "Inv s2 \<and> Q s2 = Q s \<and> same_but (uloc DefaultClient) (W s) (W s2) \<and>
       (W s2 = W s \<and> creation_refused (registerData dto) (W s (uloc DefaultClient)) (RaisedError m) \<or>
        (\<exists>u m'. user_created matches (registerData dto) (W s (uloc DefaultClient)) u (W s2 (uloc DefaultClient)) \<and> RaisedError m = RaisedError m'))"
    if "Inv s2" "W s2 = W s1" "Q s2 = Q s1" for m
    using that s1 tc u(1) by auto
qed auto

text \<open>A guarded handler runs only for a user who exists now and has a required role now.\<close>

lemma withGuards_wp:
  assumes "Inv s"
    and "\<And>p tok u s'. Inv s' \<Longrightarrow> W s' = W s \<Longrightarrow> Q s' = Q s \<Longrightarrow> hdr = Some (''Bearer '' @ tok) \<Longrightarrow> token_of p tok \<Longrightarrow>
      W s (uloc DefaultClient) (jp_sub p) = Some u \<Longrightarrow> canActivate roles (Some (auth_user_of u)) \<Longrightarrow>
      wp (handle (auth_user_of u)) G E s'"
    and "\<And>e s'. Inv s' \<Longrightarrow> W s' = W s \<Longrightarrow> Q s' = Q s \<Longrightarrow>
      (\<exists>m. e = UnauthorizedException m \<or> e = ForbiddenException m \<or> e = RaisedError m) \<Longrightarrow> E e s'"
  shows "wp (withGuards U J roles hdr handle) G E s"
  unfolding withGuards_def jwtValidate_def wp_bindE wp_tryCatch wp_throw
proof (rule verify_wp [OF assms(1)], use assms(3) in blast, rule user_query_wp [OF _ user_store.findUnique_id_ok [OF store]], assumption)
  fix p tok s1 s2 m ux
  assume s1: "Inv s1" "W s1 = W s" "Q s1 = Q s" and tok: "hdr = Some (''Bearer '' @ tok)" "token_of p tok"
    and s2: "Inv s2" "W s2 = W s1" "Q s2 = Q s1"
  show "E (RaisedError m) s2" using assms(3) s1 s2 by auto
  assume "ux = W s1 (uloc DefaultClient) (jp_sub p)"
  then show "wp (case ux of None \<Rightarrow> throw (UnauthorizedException ''Unauthorized'') | Some u \<Rightarrow> ret (auth_user_of u))
     (\<lambda>x. wp (if canActivate roles (Some x) then handle x else throw (ForbiddenException ''Forbidden resource'')) G E) E s2"
    using assms(2) [OF _ _ _ tok] assms(3) s1 s2 by (auto simp: wp_simps wp_if split: option.split)
qed

end

end
