(* ===== verification/AuthReference.thy ===== *)
theory AuthReference
  imports Auth Reference
begin

text \<open>
  The reference world as a provider of the user and authentication contracts: the rows of \<open>users\<close>
  in a list shared by all clients, a transparent hash and a transparent token.
\<close>

section \<open>The users table\<close>

definition users_ok :: "user_row list \<Rightarrow> bool" where
  "users_ok us \<longleftrightarrow> distinct (map u_id us) \<and> users_wf (tbl u_id us)"

definition uref_inv :: "ref_state \<Rightarrow> bool" where
  "uref_inv s \<longleftrightarrow> ref_inv s \<and> users_ok (rs_users s)"

definition uref :: "ref_state \<Rightarrow> unit \<Rightarrow> string \<rightharpoonup> user_row" where
  "uref s k = tbl u_id (rs_users s)"

lemma users_ok_ran: "users_ok us \<Longrightarrow> ran (tbl u_id us) = set us"
  by (auto simp: users_ok_def ran_def tbl_Some)

lemma users_wfI:
  assumes "users_wf w" and "\<And>v i. w i = Some v \<Longrightarrow> i \<noteq> u_id u \<Longrightarrow> \<not> clash (u_email u) (u_username u) (u_tenantCode u) v"
  shows "users_wf (w(u_id u \<mapsto> u))"
proof -
  have sym: "clash (u_email x) (u_username x) (u_tenantCode x) y \<longleftrightarrow> clash (u_email y) (u_username y) (u_tenantCode y) x" for x y
    by (auto simp: clash_def)
  show ?thesis
    using assms(1) unfolding users_wf_def
  proof (elim conjE, intro conjI allI impI)
    fix i j x y
    assume wf: "\<forall>i j u v. w i = Some u \<longrightarrow> w j = Some v \<longrightarrow> clash (u_email u) (u_username u) (u_tenantCode u) v \<longrightarrow> i = j"
      and xy: "(w(u_id u \<mapsto> u)) i = Some x" "(w(u_id u \<mapsto> u)) j = Some y"
        "clash (u_email x) (u_username x) (u_tenantCode x) y"
    show "i = j"
    proof (cases "i = u_id u"; cases "j = u_id u")
      assume "i = u_id u" "j \<noteq> u_id u"
      then show ?thesis using assms(2) [of j y] xy by simp
    next
      assume "i \<noteq> u_id u" "j = u_id u"
      then show ?thesis using assms(2) [of i x] xy sym by simp
    next
      assume "i \<noteq> u_id u" "j \<noteq> u_id u"
      then show ?thesis using wf xy by simp
    qed simp
  qed (auto split: if_splits)
qed

lemma users_wf_delete: "users_wf w \<Longrightarrow> users_wf (w(i := None))"
  unfolding users_wf_def by simp

lemma not_taken: "\<not> user_taken e n tc us \<longleftrightarrow> (\<forall>u\<in>set us. \<not> clash e n tc u)"
  by (auto simp: user_taken_def clash_def)

lemma find_first_match: "users_ok us \<Longrightarrow> first_match (tbl u_id us) c (find c us)"
  using users_ok_ran [of us] by (auto simp: first_match_def find_None_iff find_Some_iff split: option.split)

section \<open>The operations keep the contract\<close>

text \<open>\<open>X\<close> says nothing about the users.\<close>

definition off_users :: "(ref_state \<Rightarrow> bool) \<Rightarrow> bool" where
  "off_users X \<longleftrightarrow> (\<forall>s us. X (s\<lparr>rs_users := us\<rparr>) = X s)"

lemma user_op_frame: "off_users X \<Longrightarrow> X (snd (ref_user_op f s)) = X s"
  by (auto simp: off_users_def ref_user_op_def split: sum.split)

lemma uref_query:
  assumes X: "off_users X" and "\<And>us. users_ok us \<Longrightarrow> \<exists>x. f us = Inr (x, us) \<and> R (tbl u_id us) x"
  shows "query_ok (\<lambda>s. uref_inv s \<and> X s) uref k (ref_user_op f) R"
  unfolding query_ok_def user_op_frame [OF X]
proof (intro allI impI)
  fix s assume s: "uref_inv s \<and> X s"
  then obtain x where "f (rs_users s) = Inr (x, rs_users s)" "R (tbl u_id (rs_users s)) x"
    using assms(2) [of "rs_users s"] by (auto simp: uref_inv_def)
  then show "(uref_inv (snd (ref_user_op f s)) \<and> X s) \<and>
      uref (snd (ref_user_op f s)) = uref s \<and> (\<forall>x. fst (ref_user_op f s) = Inr x \<longrightarrow> R (uref s k) x)"
    using s by (simp add: ref_user_op_def uref_def)
qed

lemma uref_write:
  assumes X: "off_users X" and "\<And>us x us'. users_ok us \<Longrightarrow> f us = Inr (x, us') \<Longrightarrow> users_ok us' \<and> R (tbl u_id us) x (tbl u_id us')"
  shows "write_ok (\<lambda>s. uref_inv s \<and> X s) uref k (ref_user_op f) R"
  unfolding write_ok_def user_op_frame [OF X]
proof (intro allI impI)
  fix s assume s: "uref_inv s \<and> X s"
  show "(uref_inv (snd (ref_user_op f s)) \<and> X s) \<and>
      (case fst (ref_user_op f s) of Inl _ \<Rightarrow> uref (snd (ref_user_op f s)) = uref s
       | Inr x \<Rightarrow> \<exists>d. R (uref s k) x d \<and> uref (snd (ref_user_op f s)) = (uref s)(k := d))"
  proof (cases "f (rs_users s)")
    case (Inl e)
    then show ?thesis using s by (simp add: ref_user_op_def)
  next
    case (Inr xu)
    then have "users_ok (snd xu) \<and> R (tbl u_id (rs_users s)) (fst xu) (tbl u_id (snd xu))"
      using assms(2) [of "rs_users s" "fst xu" "snd xu"] s by (simp add: uref_inv_def)
    then show ?thesis
      using s Inr by (auto simp: ref_user_op_def uref_def uref_inv_def ref_inv_def fun_eq_iff)
  qed
qed

lemma ur_create:
  assumes "users_ok us" and "\<not> user_taken (u_email u) (u_username u) (u_tenantCode u) us" and "u_id u = fresh (map u_id us)"
  shows "users_ok (us @ [u]) \<and> tbl u_id us (u_id u) = None \<and> tbl u_id (us @ [u]) = (tbl u_id us)(u_id u \<mapsto> u)"
proof -
  have new: "u_id u \<notin> u_id ` set us" unfolding assms(3) by (rule fresh_key)
  then have app: "tbl u_id (us @ [u]) = (tbl u_id us)(u_id u \<mapsto> u)" by (rule tbl_append)
  have "users_wf ((tbl u_id us)(u_id u \<mapsto> u))"
    using assms(1,2) by (intro users_wfI) (auto simp: users_ok_def tbl_Some not_taken)
  then show ?thesis using assms(1) new app by (auto simp: users_ok_def tbl_None)
qed

lemma ur_update:
  assumes "users_ok us" and "tbl u_id us i = Some u" and "u_id v = i"
    and "\<not> user_taken (u_email v) (u_username v) (u_tenantCode v) (filter (\<lambda>x. u_id x \<noteq> i) us)"
  shows "users_ok (replace_row u_id i v us) \<and> tbl u_id (replace_row u_id i v us) = (tbl u_id us)(i \<mapsto> v)"
proof -
  have rep: "tbl u_id (replace_row u_id i v us) = (tbl u_id us)(i \<mapsto> v)" using assms(2,3) by (intro tbl_replace) auto
  have "users_wf ((tbl u_id us)(u_id v \<mapsto> v))"
    using assms by (intro users_wfI) (auto simp: users_ok_def tbl_Some not_taken)
  then show ?thesis using assms(1,3) rep replace_keys [of u_id v i us] by (simp add: users_ok_def)
qed

lemma ur_create_row:
  assumes "users_ok us"
    and "(if user_taken (un_email n) (un_username n) (un_tenantCode n) us then Inl ''Unique constraint failed''
       else let u = \<lparr>u_id = fresh (map u_id us), u_email = un_email n, u_username = un_username n,
              u_password = un_password n, u_role = un_role n, u_tenantCode = un_tenantCode n,
              u_isDatabaseCreated = un_isDatabaseCreated n, u_createdAt = 0, u_updatedAt = 0\<rparr>
            in Inr (u, us @ [u])) = Inr (u, us')"
  shows "users_ok us' \<and> tbl u_id us (u_id u) = None \<and> u_email u = un_email n \<and> u_username u = un_username n \<and>
    u_password u = un_password n \<and> u_role u = un_role n \<and> u_tenantCode u = un_tenantCode n \<and>
    u_isDatabaseCreated u = un_isDatabaseCreated n \<and> tbl u_id us' = (tbl u_id us)(u_id u \<mapsto> u)"
  using ur_create [OF assms(1), of u] assms(2) by (auto simp: Let_def split: if_splits)

lemma ur_update_row:
  assumes "users_ok us"
    and "(case find (\<lambda>u. u_id u = i) us of None \<Rightarrow> Inl notFound
       | Some u \<Rightarrow> let v = apply_user_data w 0 u in
           if user_taken (u_email v) (u_username v) (u_tenantCode v) (filter (\<lambda>x. u_id x \<noteq> i) us)
           then Inl ''Unique constraint failed'' else Inr (v, replace_row u_id i v us)) = Inr (v, us')"
  shows "users_ok us' \<and> (\<exists>u t. tbl u_id us i = Some u \<and> v = apply_user_data w t u \<and> tbl u_id us' = (tbl u_id us)(i \<mapsto> v))"
proof -
  obtain u where u: "tbl u_id us i = Some u" "v = apply_user_data w 0 u" "us' = replace_row u_id i v us"
      "\<not> user_taken (u_email v) (u_username v) (u_tenantCode v) (filter (\<lambda>x. u_id x \<noteq> i) us)"
    using assms(2) by (auto simp: tbl_find Let_def split: option.splits if_splits)
  have "u_id u = i" using u(1) assms(1) by (auto simp: users_ok_def tbl_Some)
  then have "u_id v = i" by (simp add: u(2) apply_user_data_def)
  from ur_update [OF assms(1) u(1) this u(4)] show ?thesis using u(1-3) by blast
qed

lemma ur_delete:
  assumes "users_ok us"
  shows "users_ok (filter (\<lambda>u. u_id u \<noteq> i) us)"
  using assms users_wf_delete by (auto simp: users_ok_def tbl_delete distinct_map_filter)

lemma uref_frame:
  assumes X: "off_users X"
  shows "user_store ref_user (\<lambda>s. uref_inv s \<and> X s) uref (\<lambda>_. ())"
  apply (unfold_locales; (unfold ref_user_def user_api.simps)?)
  subgoal by (simp add: uref_inv_def users_ok_def uref_def)
  subgoal by (rule uref_query [OF X]) (simp add: find_first_match)
  subgoal by (rule uref_query [OF X]) (simp add: find_first_match)
  subgoal by (rule uref_write [OF X]) (rule ur_create_row)
  subgoal by (rule uref_query [OF X]) (simp add: users_ok_ran, simp add: users_ok_def)
  subgoal by (rule uref_query [OF X]) (simp add: tbl_find)
  subgoal by (rule uref_query [OF X]) (simp add: find_first_match)
  subgoal by (rule uref_query [OF X]) (simp add: find_first_match)
  subgoal by (rule uref_write [OF X]) (rule ur_update_row)
  subgoal by (rule uref_write [OF X]) (auto simp: tbl_find tbl_delete ur_delete split: option.splits)
  done

lemma uref_store: "user_store ref_user (\<lambda>s. uref_inv s \<and> rs_queues s = q) uref (\<lambda>_. ())"
  by (rule uref_frame) (simp add: off_users_def)

section \<open>Hashes and tokens\<close>

definition ref_hash :: "string \<Rightarrow> string" where
  "ref_hash pw = ''$2b$10$'' @ pw"

definition ref_bcrypt :: "ref_state bcrypt_api" where
  "ref_bcrypt = \<lparr>bcrypt_hash = \<lambda>pw _ s. (Inr (ref_hash pw), s),
     bcrypt_compare = \<lambda>pw h s. (Inr (h = ref_hash pw), s)\<rparr>"

definition ref_token :: "jwt_payload \<Rightarrow> string" where
  "ref_token p = stringify (JObj [(''sub'', JStr (jp_sub p)), (''email'', JStr (jp_email p)),
     (''role'', JStr (case jp_role p of ADMIN \<Rightarrow> ''ADMIN'' | CUSTOMER \<Rightarrow> ''CUSTOMER'')),
     (''tenantCode'', case jp_tenantCode p of None \<Rightarrow> JNull | Some t \<Rightarrow> JStr t)])"

definition ref_payload :: "string \<Rightarrow> jwt_payload option" where
  "ref_payload tok = (case json_parse tok of
      Some (JObj [(_, JStr sub), (_, JStr em), (_, JStr ro), (_, tc)]) \<Rightarrow>
        Some \<lparr>jp_sub = sub, jp_email = em, jp_role = (if ro = ''ADMIN'' then ADMIN else CUSTOMER),
          jp_tenantCode = (case tc of JStr t \<Rightarrow> Some t | _ \<Rightarrow> None)\<rparr>
    | _ \<Rightarrow> None)"

definition ref_verify :: "string option \<Rightarrow> string + jwt_payload" where
  "ref_verify hdr = (case hdr of
      None \<Rightarrow> Inl ''No auth token''
    | Some h \<Rightarrow> if startsWith h ''Bearer '' then
        (case ref_payload (drop 7 h) of
           Some p \<Rightarrow> if ref_token p = drop 7 h then Inr p else Inl ''invalid signature''
         | None \<Rightarrow> Inl ''jwt malformed'')
      else Inl ''No auth token'')"

definition ref_jwt :: "ref_state jwt_api" where
  "ref_jwt = \<lparr>jwt_sign = \<lambda>p s. (Inr (ref_token p), s), jwt_verify = \<lambda>h s. (ref_verify h, s)\<rparr>"

lemma ref_verify_signed: "ref_verify hdr = Inr p \<Longrightarrow> hdr = Some (''Bearer '' @ ref_token p)"
  by (auto simp: ref_verify_def startsWith_iff split: option.splits if_splits)

interpretation uref_store: user_store ref_user "\<lambda>s. uref_inv s \<and> rs_queues s = q" uref "\<lambda>_. ()"
  by (rule uref_store)

lemma uref_broker: "broker_store ref_amqp (\<lambda>s. uref_inv s \<and> uref s = w) rs_queues"
  by unfold_locales
     (auto simp: ref_amqp_def when_up_def uref_inv_def ref_inv_def uref_def fun_eq_iff split: if_splits)

interpretation ref_accounts:
  user_services ref_user ref_bcrypt ref_amqp uref_inv uref "\<lambda>_. ()" rs_queues "\<lambda>pw h. h = ref_hash pw"
  by (intro user_services.intro uref_store uref_broker) (auto simp: ref_bcrypt_def)

interpretation ref_auth:
  auth_services ref_user ref_bcrypt ref_amqp uref_inv uref "\<lambda>_. ()" rs_queues "\<lambda>pw h. h = ref_hash pw"
    ref_jwt "\<lambda>p tok. tok = ref_token p"
  by unfold_locales (auto simp: ref_jwt_def dest: ref_verify_signed)

end
