(* ===== verification/AuthTheorems.thy ===== *)
theory AuthTheorems
  imports AuthReference OrderTheorems
begin

text \<open>
  The properties of accounts, login and authorisation, over every world that keeps the contracts of
  the users table, the broker, \<open>bcrypt\<close> and the token library, each with an execution on the
  reference world. \<open>W s k\<close> is the users table of database \<open>k\<close>.
\<close>

section \<open>A concrete world\<close>

definition ex_admin :: user_row where
  "ex_admin = ex_owner\<lparr>u_password := ref_hash ''secret1''\<rparr>"

definition ex_alice :: user_row where
  "ex_alice = \<lparr>u_id = ''alice'', u_email = ''alice@example.com'', u_username = ''alice'', u_password = ref_hash ''secret2'',
     u_role = CUSTOMER, u_tenantCode = None, u_isDatabaseCreated = True, u_createdAt = 0, u_updatedAt = 0\<rparr>"

definition ex_world :: ref_state where
  "ex_world = (ex_state PAID)\<lparr>rs_users := [ex_admin, ex_alice]\<rparr>"

definition ex_bearer :: "user_row \<Rightarrow> string option" where
  "ex_bearer u = Some (''Bearer '' @ ref_token (loginPayload (select_user u)))"

lemma ex_world_inv: "uref_inv ex_world"
proof -
  have "ref_inv ex_world" using ex_inv [of PAID] by (simp add: ex_world_def ref_inv_def)
  moreover have "users_wf (tbl u_id [ex_admin, ex_alice])"
    by (auto simp: users_wf_def tbl_def clash_def ex_admin_def ex_owner_def ex_alice_def split: if_splits)
  moreover have "distinct (map u_id [ex_admin, ex_alice])"
    by (simp add: ex_admin_def ex_owner_def ex_alice_def)
  ultimately show ?thesis by (simp add: uref_inv_def users_ok_def ex_world_def)
qed

lemma canActivate_roles: "canActivate (Some rs) (Some (auth_user_of u)) \<longleftrightarrow> u_role u \<in> set rs"
  by (auto simp: canActivate_def auth_user_of_def list_ex_iff)

section \<open>Login\<close>

text \<open>
  C7: Login answers with a token exactly for the account whose e-mail is given and whose stored hash
  matches the password; the token is signed for that account's id, role and tenant, and the answer
  holds its public data, never the hash. An unknown e-mail and a wrong password are refused with the
  same exception, and only such credentials are. Login changes no account and queues nothing.
\<close>

theorem login_sound:
  assumes "auth_services U B A Inv W uloc Q matches J token_of" and "Inv s" and "run (login U B J dto) s = (r, s')"
  shows "W s' = W s \<and> Q s' = Q s \<and> (case r of
      Inr a \<Rightarrow> \<exists>u\<in>ran (W s (uloc DefaultClient)). u_email u = lg_email dto \<and> matches (lg_password dto) (u_password u) \<and>
        token_of (loginPayload (select_user u)) (access_token a) \<and> ar_user a = loginUser (select_user u)
    | Inl e \<Rightarrow> (\<exists>m. e = RaisedError m) \<or> e = invalidCredentials \<and>
        \<not> (\<exists>u\<in>ran (W s (uloc DefaultClient)). u_email u = lg_email dto \<and> matches (lg_password dto) (u_password u)))"
  using wp_run_case [OF auth_services.login_wp [OF assms(1,2)] assms(3)] by (cases r) auto

theorem login_sound_witness:
  "let dto = \<lparr>lg_email = ''alice@example.com'', lg_password = ''secret2''\<rparr>;
       res = run (login ref_user ref_bcrypt ref_jwt dto) ex_world
   in \<not> isl (fst res) \<and> uref (snd res) = uref ex_world \<and> rs_queues (snd res) = rs_queues ex_world \<and> (case fst res of
      Inr a \<Rightarrow> \<exists>u\<in>ran (uref ex_world ()). u_email u = lg_email dto \<and> u_password u = ref_hash (lg_password dto) \<and>
        access_token a = ref_token (loginPayload (select_user u)) \<and> ar_user a = loginUser (select_user u)
    | Inl e \<Rightarrow> (\<exists>m. e = RaisedError m) \<or> e = invalidCredentials \<and>
        \<not> (\<exists>u\<in>ran (uref ex_world ()). u_email u = lg_email dto \<and> u_password u = ref_hash (lg_password dto)))"
  unfolding Let_def
  by (rule conjI, code_simp)
     (rule login_sound [OF ref_auth.auth_services_axioms ex_world_inv prod.collapse [symmetric]])

section \<open>Authorisation\<close>

lemma wp_run_exact: "wp m (\<lambda>x s'. run m s = (Inr x, s')) (\<lambda>e s'. run m s = (Inl e, s')) s"
  by (auto simp: wp_def split: prod.split sum.split)

text \<open>
  C8: A handler behind \<open>JwtAuthGuard\<close> and \<open>RolesGuard\<close> runs only when the request carries a signed
  bearer token whose subject is a stored account that has one of the required roles at the time of
  the request, and it is given exactly that account's data: a deleted account or a withdrawn role
  takes effect at once, whatever the token says. Otherwise the request is refused and nothing
  changes.
\<close>

theorem guard_current_role:
  assumes "auth_services U B A Inv W uloc Q matches J token_of" and "Inv s"
    and "run (withGuards U J (Some rs) hdr handle) s = (r, s')"
  shows "(\<exists>tok p u s1. hdr = Some (''Bearer '' @ tok) \<and> token_of p tok \<and> W s (uloc DefaultClient) (jp_sub p) = Some u \<and>
        u_role u \<in> set rs \<and> Inv s1 \<and> W s1 = W s \<and> Q s1 = Q s \<and> run (handle (auth_user_of u)) s1 = (r, s')) \<or>
    W s' = W s \<and> Q s' = Q s \<and> (\<exists>m. r \<in> {Inl (UnauthorizedException m), Inl (ForbiddenException m), Inl (RaisedError m)})"
    (is "?ran r s' \<or> ?refused r s'")
proof -
  have "wp (withGuards U J (Some rs) hdr handle) (\<lambda>x s'. ?ran (Inr x) s' \<or> ?refused (Inr x) s') (\<lambda>e s'. ?ran (Inl e) s' \<or> ?refused (Inl e) s') s"
    by (rule auth_services.withGuards_wp [OF assms(1,2)], rule wp_conseq [OF wp_run_exact])
       (unfold canActivate_roles, blast+)
  from wp_run_case [OF this assms(3)] show ?thesis by (cases r) simp_all
qed

theorem guard_current_role_witness:
  "let res = run (userControllerFindOne ref_user ref_jwt (ex_bearer ex_alice) ''owner'') ex_world
   in isl (fst res) \<and>
    ((\<exists>tok p u s1. ex_bearer ex_alice = Some (''Bearer '' @ tok) \<and> tok = ref_token p \<and> uref ex_world () (jp_sub p) = Some u \<and>
        u_role u \<in> set [ADMIN] \<and> uref_inv s1 \<and> uref s1 = uref ex_world \<and> rs_queues s1 = rs_queues ex_world \<and>
        run (userFindOne ref_user ''owner'') s1 = (fst res, snd res)) \<or>
     uref (snd res) = uref ex_world \<and> rs_queues (snd res) = rs_queues ex_world \<and>
     (\<exists>m. fst res \<in> {Inl (UnauthorizedException m), Inl (ForbiddenException m), Inl (RaisedError m)}))"
  unfolding Let_def userControllerFindOne_def
  by (rule conjI, code_simp)
     (rule guard_current_role [OF ref_auth.auth_services_axioms ex_world_inv prod.collapse [symmetric]])

section \<open>Accounts\<close>

text \<open>
  C26: Creating an account: it succeeds only when role and tenant code fit together and no account
  uses the e-mail, the user name or the tenant code; then exactly one row is added, with a fresh id,
  the hash of the password and never the password itself, a database still to be created exactly for
  administrators, and at most the one message that asks for that database is queued. Otherwise
  nothing changes and the exception names the violated rule.
\<close>

theorem user_create_exact:
  assumes "auth_services U B A Inv W uloc Q matches J token_of" and "Inv s" and "run (userCreate U B A dto) s = (r, s')"
  shows "same_but (uloc DefaultClient) (W s) (W s') \<and> (case r of
      Inr x \<Rightarrow> \<exists>u. x = select_user u \<and>
        user_created matches dto (W s (uloc DefaultClient)) u (W s' (uloc DefaultClient)) \<and> announced u (Q s) (Q s')
    | Inl e \<Rightarrow> W s' = W s \<and> Q s' = Q s \<and> creation_refused dto (W s (uloc DefaultClient)) e)"
  using wp_run_case [OF user_services.userCreate_wp [OF auth_services.axioms(1) [OF assms(1)] assms(2)] assms(3)]
  by (cases r) auto

theorem user_create_exact_witness:
  "let dto = \<lparr>cu_email = ''b@x.io'', cu_username = ''bob'', cu_password = ''secret3'', cu_role = Some ADMIN, cu_tenantCode = Some ''beta''\<rparr>;
       res = run (userCreate ref_user ref_bcrypt ref_amqp dto) ex_world
   in \<not> isl (fst res) \<and> same_but () (uref ex_world) (uref (snd res)) \<and> (case fst res of
      Inr x \<Rightarrow> \<exists>u. x = select_user u \<and>
        user_created (\<lambda>pw h. h = ref_hash pw) dto (uref ex_world ()) u (uref (snd res) ()) \<and>
        announced u (rs_queues ex_world) (rs_queues (snd res))
    | Inl e \<Rightarrow> uref (snd res) = uref ex_world \<and> rs_queues (snd res) = rs_queues ex_world \<and> creation_refused dto (uref ex_world ()) e)"
  unfolding Let_def
  by (rule conjI, code_simp)
     (rule user_create_exact [OF ref_auth.auth_services_axioms ex_world_inv prod.collapse [symmetric]])

text \<open>
  The public registration can only create customers: a successful call adds exactly one
  \<open>CUSTOMER\<close> without tenant and asks for no database, and returns a token for that account. A failed
  call adds nothing, except when signing the token fails after the account was stored.
\<close>

theorem register_only_customers:
  assumes "auth_services U B A Inv W uloc Q matches J token_of" and "Inv s" and "run (register U B A J dto) s = (r, s')"
  shows "Q s' = Q s \<and> same_but (uloc DefaultClient) (W s) (W s') \<and>
    (\<forall>i u. W s' (uloc DefaultClient) i = Some u \<longrightarrow> W s (uloc DefaultClient) i = Some u \<or> u_role u = CUSTOMER \<and> u_tenantCode u = None) \<and>
    (case r of
       Inr a \<Rightarrow> \<exists>u. user_created matches (registerData dto) (W s (uloc DefaultClient)) u (W s' (uloc DefaultClient)) \<and>
         token_of (registerPayload (select_user u)) (access_token a) \<and> ar_user a = auth_user_of u
     | Inl e \<Rightarrow> W s' = W s \<and> creation_refused (registerData dto) (W s (uloc DefaultClient)) e \<or>
         (\<exists>u m. user_created matches (registerData dto) (W s (uloc DefaultClient)) u (W s' (uloc DefaultClient)) \<and> e = RaisedError m))"
proof -
  have new: "W s' (uloc DefaultClient) i = Some v \<longrightarrow> W s (uloc DefaultClient) i = Some v \<or> u_role v = CUSTOMER \<and> u_tenantCode v = None"
    if "user_created matches (registerData dto) (W s (uloc DefaultClient)) u (W s' (uloc DefaultClient))" for u i v
    using that by (auto simp: user_created_def registerData_def or_undefined_def truthy_def)
  note res = wp_run_case [OF auth_services.register_wp [OF assms(1,2)] assms(3)]
  show ?thesis
  proof (cases r)
    case (Inl e)
    show ?thesis using res new unfolding Inl sum.case by (elim conjE disjE exE) (intro conjI; simp; blast)+
  next
    case (Inr a)
    show ?thesis using res new unfolding Inr sum.case by blast
  qed
qed

theorem register_only_customers_witness:
  "let dto = \<lparr>rg_email = ''c@x.io'', rg_username = ''carol'', rg_password = ''secret4''\<rparr>;
       res = run (register ref_user ref_bcrypt ref_amqp ref_jwt dto) ex_world
   in \<not> isl (fst res) \<and> rs_queues (snd res) = rs_queues ex_world \<and> same_but () (uref ex_world) (uref (snd res)) \<and>
    (\<forall>i u. uref (snd res) () i = Some u \<longrightarrow> uref ex_world () i = Some u \<or> u_role u = CUSTOMER \<and> u_tenantCode u = None) \<and>
    (case fst res of
       Inr a \<Rightarrow> \<exists>u. user_created (\<lambda>pw h. h = ref_hash pw) (registerData dto) (uref ex_world ()) u (uref (snd res) ()) \<and>
         access_token a = ref_token (registerPayload (select_user u)) \<and> ar_user a = auth_user_of u
     | Inl e \<Rightarrow> uref (snd res) = uref ex_world \<and> creation_refused (registerData dto) (uref ex_world ()) e \<or>
         (\<exists>u m. user_created (\<lambda>pw h. h = ref_hash pw) (registerData dto) (uref ex_world ()) u (uref (snd res) ()) \<and> e = RaisedError m))"
  unfolding Let_def
  by (rule conjI, code_simp)
     (rule register_only_customers [OF ref_auth.auth_services_axioms ex_world_inv prod.collapse [symmetric]])

text \<open>
  C35: Updating an account writes exactly the given columns of exactly that account (a new password
  only as its hash) and leaves its tenant code and database flag alone. So changing the role is the
  one update that separates role and tenant: it leaves an administrator without tenant or a customer
  that owns one. A failed update changes nothing.
\<close>

theorem user_update_exact:
  assumes "auth_services U B A Inv W uloc Q matches J token_of" and "Inv s" and "run (userUpdate U B uid dto) s = (r, s')"
  shows "Q s' = Q s \<and> (case r of
      Inr x \<Rightarrow> \<exists>u v. W s (uloc DefaultClient) uid = Some u \<and> user_written matches dto u v \<and> x = select_user v \<and>
        W s' = (W s)(uloc DefaultClient := (W s (uloc DefaultClient))(uid \<mapsto> v)) \<and>
        (role_ok u \<longrightarrow> (role_ok v \<longleftrightarrow> uu_role dto = None \<or> uu_role dto = Some (u_role u)))
    | Inl e \<Rightarrow> W s' = W s \<and> (W s (uloc DefaultClient) uid = None \<and> e = userNotFound uid \<or> (\<exists>m. e = RaisedError m)))"
proof -
  note res = wp_run_case [OF user_services.userUpdate_wp [OF auth_services.axioms(1) [OF assms(1)] assms(2)] assms(3)]
  have role: "role_ok v \<longleftrightarrow> uu_role dto = None \<or> uu_role dto = Some (u_role u)" if "user_written matches dto u v" "role_ok u" for u v
    using that by (cases "uu_role dto"; cases "u_role u"; cases "the (uu_role dto)")
      (auto simp: user_written_def role_ok_def upd_opt_def)
  show ?thesis
  proof (cases r)
    case (Inl e)
    then show ?thesis using res by simp
  next
    case (Inr x)
    show ?thesis using res role unfolding Inr sum.case by blast
  qed
qed

theorem user_update_exact_witness:
  "let dto = \<lparr>uu_email = None, uu_username = None, uu_password = Some ''secret9'', uu_role = Some ADMIN\<rparr>;
       res = run (userUpdate ref_user ref_bcrypt ''alice'' dto) ex_world
   in \<not> isl (fst res) \<and> rs_queues (snd res) = rs_queues ex_world \<and> (case fst res of
      Inr x \<Rightarrow> \<exists>u v. uref ex_world () ''alice'' = Some u \<and> user_written (\<lambda>pw h. h = ref_hash pw) dto u v \<and> x = select_user v \<and>
        uref (snd res) = (uref ex_world)(() := (uref ex_world ())(''alice'' \<mapsto> v)) \<and>
        (role_ok u \<longrightarrow> (role_ok v \<longleftrightarrow> uu_role dto = None \<or> uu_role dto = Some (u_role u)))
    | Inl e \<Rightarrow> uref (snd res) = uref ex_world \<and>
        (uref ex_world () ''alice'' = None \<and> e = userNotFound ''alice'' \<or> (\<exists>m. e = RaisedError m)))"
  unfolding Let_def
  by (rule conjI, code_simp)
     (rule user_update_exact [OF ref_auth.auth_services_axioms ex_world_inv prod.collapse [symmetric]])

section \<open>Accounts over time\<close>

text \<open>
  The requests that change accounts, in any order and from anybody; an update may change anything but
  the role.
\<close>

inductive account_step ::
  "'s user_api \<Rightarrow> 's bcrypt_api \<Rightarrow> 's amqp_api \<Rightarrow> 's jwt_api \<Rightarrow> 's \<Rightarrow> 's \<Rightarrow> bool" for U B A J where
  register: "account_step U B A J s (snd (run (register U B A J rd) s))"
| login: "account_step U B A J s (snd (run (login U B J ld) s))"
| create: "account_step U B A J s (snd (run (userControllerCreate U B A J hdr cd) s))"
| update: "uu_role ud = None \<Longrightarrow> account_step U B A J s (snd (run (userControllerUpdate U B J hdr uid ud) s))"
| remove: "account_step U B A J s (snd (run (userControllerRemove U J hdr uid) s))"

definition accounts_ok :: "(string \<rightharpoonup> user_row) \<Rightarrow> bool" where
  "accounts_ok w \<longleftrightarrow> users_wf w \<and> (\<forall>i u. w i = Some u \<longrightarrow> role_ok u)"

lemma wp_snd: "wp m (\<lambda>_. I) (\<lambda>_. I) s \<Longrightarrow> I (snd (run m s))"
  by (auto simp: wp_def split: prod.splits sum.splits)

context auth_services
begin

lemma inv_users_wf: "Inv s \<Longrightarrow> users_wf (W s k)"
  by (rule user_store.users_wf [OF store [of "Q s"]]) simp

definition acc_inv :: "'s \<Rightarrow> bool" where
  "acc_inv s \<longleftrightarrow> Inv s \<and> accounts_ok (W s (uloc DefaultClient))"

lemma acc_inv_same: "acc_inv s \<Longrightarrow> Inv s' \<Longrightarrow> W s' = W s \<Longrightarrow> acc_inv s'"
  by (simp add: acc_inv_def)

lemma acc_inv_created:
  assumes "acc_inv s" and "Inv s'" and "user_created matches dto (W s (uloc DefaultClient)) u (W s' (uloc DefaultClient))"
  shows "acc_inv s'"
proof -
  have "role_ok v" if "W s' (uloc DefaultClient) i = Some v" for i v
    using that assms(1,3) by (auto simp: acc_inv_def accounts_ok_def user_created_def split: if_splits)
  then show ?thesis using assms(2) inv_users_wf [OF assms(2)] by (simp add: acc_inv_def accounts_ok_def)
qed

lemma acc_inv_written:
  assumes "acc_inv s" and "Inv s'" and "W s' = (W s)(uloc DefaultClient := (W s (uloc DefaultClient))(uid \<mapsto> v))"
    and "W s (uloc DefaultClient) uid = Some u" and "user_written matches ud u v" and "uu_role ud = None"
  shows "acc_inv s'"
proof -
  have "role_ok u" using assms(1,4) by (simp add: acc_inv_def accounts_ok_def)
  then have "role_ok v" using assms(5,6) by (auto simp: user_written_def upd_opt_def role_ok_def)
  then have "role_ok x" if "W s' (uloc DefaultClient) i = Some x" for i x
    using that assms(1,3) by (auto simp: acc_inv_def accounts_ok_def split: if_splits)
  then show ?thesis using assms(2) inv_users_wf [OF assms(2)] by (simp add: acc_inv_def accounts_ok_def)
qed

lemma acc_inv_removed:
  assumes "acc_inv s" and "Inv s'" and "W s' = (W s)(uloc DefaultClient := (W s (uloc DefaultClient))(uid := None))"
  shows "acc_inv s'"
proof -
  have "role_ok x" if "W s' (uloc DefaultClient) i = Some x" for i x
    using that assms(1,3) by (auto simp: acc_inv_def accounts_ok_def split: if_splits)
  then show ?thesis using assms(2) inv_users_wf [OF assms(2)] by (simp add: acc_inv_def accounts_ok_def)
qed

lemma acc_inv_guarded:
  assumes "acc_inv s" and "\<And>x s. acc_inv s \<Longrightarrow> wp (handle x) (\<lambda>_. acc_inv) (\<lambda>_. acc_inv) s"
  shows "wp (withGuards U J roles hdr handle) (\<lambda>_. acc_inv) (\<lambda>_. acc_inv) s"
proof (rule withGuards_wp)
  show "Inv s" using assms(1) by (simp add: acc_inv_def)
qed (use acc_inv_same [OF assms(1)] assms(2) in blast)+

lemma account_step_keeps:
  assumes "account_step U B A J s s'" and "acc_inv s"
  shows "acc_inv s'"
  using assms(1)
proof (cases rule: account_step.cases)
  case (register rd)
  have "wp (register U B A J rd) (\<lambda>_. acc_inv) (\<lambda>_. acc_inv) s"
    by (rule wp_conseq [OF register_wp])
       (use assms(2) acc_inv_created acc_inv_same in \<open>(simp add: acc_inv_def; fail) | blast\<close>)+
  then show ?thesis unfolding register by (rule wp_snd)
next
  case (login ld)
  show ?thesis unfolding login using assms(2)
    by (intro wp_snd [where I = acc_inv] wp_conseq [OF login_wp]) (auto simp: acc_inv_def)
next
  case (create hdr cd)
  have h: "wp (userCreate U B A cd) (\<lambda>_. acc_inv) (\<lambda>_. acc_inv) s1" if "acc_inv s1" for s1
    by (rule wp_conseq [OF userCreate_wp]) (use that acc_inv_created acc_inv_same in \<open>(simp add: acc_inv_def; fail) | blast\<close>)+
  show ?thesis unfolding create userControllerCreate_def
    by (rule wp_snd [where I = acc_inv], rule acc_inv_guarded [OF assms(2)], rule h)
next
  case (update ud hdr uid)
  have h: "wp (userUpdate U B uid ud) (\<lambda>_. acc_inv) (\<lambda>_. acc_inv) s1" if "acc_inv s1" for s1
    by (rule wp_conseq [OF userUpdate_wp])
       (use that acc_inv_written update(2) acc_inv_same in \<open>(simp add: acc_inv_def; fail) | blast\<close>)+
  show ?thesis unfolding update(1) userControllerUpdate_def
    by (rule wp_snd [where I = acc_inv], rule acc_inv_guarded [OF assms(2)], rule h)
next
  case (remove hdr uid)
  have h: "wp (userRemove U uid) (\<lambda>_. acc_inv) (\<lambda>_. acc_inv) s1" if "acc_inv s1" for s1
    by (rule wp_conseq [OF userRemove_wp])
       (use that acc_inv_removed acc_inv_same in \<open>(simp add: acc_inv_def; fail) | blast\<close>)+
  show ?thesis unfolding remove userControllerRemove_def
    by (rule wp_snd [where I = acc_inv], rule acc_inv_guarded [OF assms(2)], rule h)
qed

lemma account_steps_keep: "(account_step U B A J)\<^sup>*\<^sup>* s s' \<Longrightarrow> acc_inv s \<Longrightarrow> acc_inv s'"
  by (induction rule: rtranclp_induct) (use account_step_keeps in blast)+

lemma account_steps_ok:
  assumes "(account_step U B A J)\<^sup>*\<^sup>* s s'" and "Inv s" and "accounts_ok (W s (uloc DefaultClient))"
  shows "accounts_ok (W s' (uloc DefaultClient))"
  using account_steps_keep [OF assms(1)] assms(2,3) by (simp add: acc_inv_def)

end



end
