(* ===== verification/Sql.thy ===== *)
theory Sql
  imports JsString "HOL-Library.Word" "HOL-Library.Sublist"
begin

text \<open>
  The SQL text handling of tenant provisioning: the statement splitter, the filter for statements
  on \<open>users\<close>, identifier quoting and the migration checksum of \<open>DatabaseCreationConsumer\<close>
  (\<open>src/rabbitmq/database-creation.consumer.ts\<close>), and the simpler splitter of
  \<open>TenantMigrationService\<close> (\<open>src/prisma/tenant-migration.service.ts\<close>).
\<close>

section \<open>Splitting\<close>

text \<open>\<open>s.split(c)\<close> for one character.\<close>

fun splitOn :: "char \<Rightarrow> string \<Rightarrow> string list" where
  "splitOn c [] = [[]]"
| "splitOn c (x # xs) =
    (if x = c then [] # splitOn c xs
     else (case splitOn c xs of [] \<Rightarrow> [[x]] | y # ys \<Rightarrow> (x # y) # ys))"

definition newline :: char where "newline = CHR 0x0A"

text \<open>
  The scan of one line for string literals and quoted names: whether the end of the line is inside
  one, and the quote that opened it. \<open>prev\<close> is \<open>line[i - 1]\<close>.
\<close>

fun scanQuotes :: "char option \<Rightarrow> bool \<times> char \<Rightarrow> string \<Rightarrow> bool \<times> char" where
  "scanQuotes prev st [] = st"
| "scanQuotes prev (inString, stringChar) (c # cs) = scanQuotes (Some c)
    (if \<not> inString \<and> (c = CHR 0x22 \<or> c = CHR 0x27) then (True, c)
     else if inString \<and> c = stringChar \<and> prev \<noteq> Some (CHR 0x5C) then (False, stringChar)
     else (inString, stringChar)) cs"

record splitter =
  sp_current :: string
  sp_quote :: "bool \<times> char"
  sp_statements :: "string list"

definition is_comment :: "string \<Rightarrow> bool" where
  "is_comment s = startsWith (trim s) ''--''"

definition emit :: "string \<Rightarrow> string list \<Rightarrow> string list" where
  "emit current out = (let statement = trim current in
     if statement \<noteq> [] \<and> \<not> startsWith statement ''--'' then out @ [statement] else out)"

definition splitLine :: "splitter \<Rightarrow> string \<Rightarrow> splitter" where
  "splitLine st line =
    (if is_comment line \<and> trim (sp_current st) = [] then st
     else let quote = scanQuotes None (sp_quote st) line;
              current = sp_current st @ line @ [newline]
          in if \<not> fst quote \<and> endsWith (trim line) '';''
             then \<lparr>sp_current = [], sp_quote = quote, sp_statements = emit current (sp_statements st)\<rparr>
             else st\<lparr>sp_current := current, sp_quote := quote\<rparr>)"

definition splitStatements :: "string \<Rightarrow> string list" where
  "splitStatements migrationSQL =
    (let st = foldl splitLine \<lparr>sp_current = [], sp_quote = (False, CHR 0x00), sp_statements = []\<rparr> (splitOn newline migrationSQL)
     in emit (sp_current st) (sp_statements st))"

text \<open>\<open>applied_steps_count\<close>: the pieces between semicolons.\<close>

definition statementCount :: "string \<Rightarrow> nat" where
  "statementCount migrationSQL =
    length (filter (\<lambda>s. trim s \<noteq> [] \<and> \<not> startsWith (trim s) ''--'') (splitOn (CHR '';'') migrationSQL))"

section \<open>Filtering, quoting, checksum\<close>

definition includesAny :: "string \<Rightarrow> string list \<Rightarrow> bool" where
  "includesAny s ps = list_ex (str_includes s) ps"

text \<open>A phrase followed by the name \<open>USERS\<close> in double quotes, in single quotes, or bare.\<close>

definition usersForms :: "string \<Rightarrow> string list" where
  "usersForms phrase = [phrase @ [CHR 0x22] @ ''USERS'' @ [CHR 0x22], phrase @ [CHR 0x27] @ ''USERS'' @ [CHR 0x27], phrase @ ''USERS'']"

definition shouldSkipStatement :: "string \<Rightarrow> bool" where
  "shouldSkipStatement statement =
    (let upperStatement = toUpperCase statement
     in includesAny upperStatement (usersForms ''CREATE TABLE '') \<or>
        includesAny upperStatement (usersForms ''ALTER TABLE '') \<or>
        str_includes upperStatement ''CREATE UNIQUE INDEX'' \<and> includesAny upperStatement (usersForms []) \<or>
        includesAny upperStatement (usersForms ''REFERENCES '') \<or>
        str_includes upperStatement ''ADD CONSTRAINT'' \<and> includesAny upperStatement (usersForms []))"

text \<open>\<open>s.replace(/q/g, 'qq')\<close> for a one-character \<open>q\<close>.\<close>

definition doubled :: "char \<Rightarrow> string \<Rightarrow> string" where
  "doubled q s = concat (map (\<lambda>c. if c = q then [q, q] else [c]) s)"

definition escapeIdentifier :: "string \<Rightarrow> string" where
  "escapeIdentifier identifier = [CHR 0x22] @ doubled (CHR 0x22) identifier @ [CHR 0x22]"

text \<open>
  One round of the checksum: \<open><<\<close> and \<open>&\<close> work on signed 32-bit integers, the subtraction and the
  addition between them on numbers.
\<close>

definition toInt32 :: "int \<Rightarrow> int" where
  "toInt32 n = sint (word_of_int n :: 32 word)"

definition checksumStep :: "int \<Rightarrow> char \<Rightarrow> int" where
  "checksumStep hash c =
    toInt32 (sint (push_bit 5 (word_of_int hash :: 32 word)) - hash + int (of_char c))"

fun hex_digits :: "nat \<Rightarrow> string" where
  "hex_digits n = (if n < 16 then [] else hex_digits (n div 16)) @
     [if n mod 16 < 10 then char_of (48 + n mod 16) else char_of (87 + n mod 16)]"

declare hex_digits.simps [simp del]

definition padStart :: "nat \<Rightarrow> char \<Rightarrow> string \<Rightarrow> string" where
  "padStart n c s = replicate (n - length s) c @ s"

definition checksumHash :: "string \<Rightarrow> int" where
  "checksumHash content = foldl checksumStep 0 content"

definition calculateChecksum :: "string \<Rightarrow> string" where
  "calculateChecksum content = padStart 8 (CHR ''0'') (hex_digits (nat \<bar>checksumHash content\<bar>))"

section \<open>The splitter of TenantMigrationService\<close>

text \<open>
  \<open>line.replace(/--.*$/, '')\<close>: the dot does not match a carriage return, so a comment that ends in
  one stays.
\<close>

fun stripComment :: "string \<Rightarrow> string" where
  "stripComment [] = []"
| "stripComment (c # cs) =
    (if startsWith (c # cs) ''--'' \<and> CHR 0x0D \<notin> set cs then [] else c # stripComment cs)"

fun joinLines :: "string list \<Rightarrow> string" where
  "joinLines [] = []"
| "joinLines [l] = l"
| "joinLines (l # ls) = l @ newline # joinLines ls"

definition migrationStatements :: "string \<Rightarrow> string list" where
  "migrationStatements migrationSQL =
    filter (\<lambda>s. s \<noteq> []) (map trim (splitOn (CHR '';'')
      (joinLines (map stripComment (splitOn newline migrationSQL)))))"

section \<open>Trimming\<close>

declare is_space.simps [simp del]

definition strip :: "string \<Rightarrow> string" where
  "strip s = filter (\<lambda>c. \<not> is_space c) s"

lemma strip_append [simp]: "strip (a @ b) = strip a @ strip b"
  by (simp add: strip_def)

lemma strip_dropWhile [simp]: "strip (dropWhile is_space s) = strip s"
  by (induction s) (simp_all add: strip_def)

lemma strip_trim [simp]: "strip (trim s) = strip s"
proof -
  have "rev (strip (rev x)) = strip x" for x by (simp add: strip_def rev_filter)
  then show ?thesis
    unfolding trim_def by (metis strip_dropWhile rev_rev_ident)
qed

lemma strip_newline [simp]: "strip [newline] = []"
  by (simp add: strip_def newline_def is_space.simps)

lemma trim_prefix: "\<exists>w. dropWhile is_space s = trim s @ w"
proof -
  let ?r = "rev (dropWhile is_space s)"
  have "?r = takeWhile is_space ?r @ dropWhile is_space ?r" by simp
  then have "dropWhile is_space s = rev (dropWhile is_space ?r) @ rev (takeWhile is_space ?r)"
    by (metis rev_append rev_rev_ident)
  then show ?thesis by (auto simp: trim_def)
qed

lemma trim_Nil_iff: "trim s = [] \<longleftrightarrow> strip s = []"
proof
  show "strip s = [] \<Longrightarrow> trim s = []"
    by (auto simp: strip_def trim_def filter_empty_conv dropWhile_eq_Nil_conv dest!: set_dropWhileD)
qed (metis strip_trim strip_def filter.simps(1))

lemma is_comment_iff: "is_comment s \<longleftrightarrow> startsWith (dropWhile is_space s) ''--''"
proof
  assume "is_comment s"
  then show "startsWith (dropWhile is_space s) ''--''"
    using trim_prefix [of s] by (auto simp: is_comment_def startsWith_iff)
next
  assume "startsWith (dropWhile is_space s) ''--''"
  then obtain t where t: "dropWhile is_space s = ''--'' @ t" by (auto simp: startsWith_iff)
  have "dropWhile is_space (rev t @ ''--'') = dropWhile is_space (rev t) @ ''--''"
  proof (cases "\<forall>x\<in>set (rev t). is_space x")
    case True
    then show ?thesis by (simp add: dropWhile_append is_space.simps)
  next
    case False
    then obtain x where "x \<in> set (rev t)" "\<not> is_space x" by blast
    then show ?thesis by (rule dropWhile_append1)
  qed
  then have "trim s = ''--'' @ rev (dropWhile is_space (rev t))" by (simp add: trim_def t)
  then show "is_comment s" by (simp add: is_comment_def startsWith_iff)
qed

lemma trim_last:
  assumes "strip s \<noteq> []"
  shows "last (trim s) = last (strip s)"
proof -
  define r where "r = dropWhile is_space (rev (dropWhile is_space s))"
  have tr: "trim s = rev r" unfolding trim_def r_def by (rule refl)
  have "trim s \<noteq> []" using assms trim_Nil_iff [of s] by blast
  then obtain c t where r: "r = c # t" unfolding tr by (cases r) simp_all
  have "\<not> is_space c" using hd_dropWhile [of is_space "rev (dropWhile is_space s)"] r unfolding r_def by simp
  then have "strip (trim s) = strip (rev t) @ [c]" unfolding tr r by (simp add: strip_def)
  moreover have "last (trim s) = c" unfolding tr r by simp
  ultimately show ?thesis unfolding strip_trim by simp
qed

lemma ends_semicolon: "endsWith (trim s) '';'' \<longleftrightarrow> strip s \<noteq> [] \<and> last (strip s) = CHR '';''"
proof -
  have "endsWith (y @ [c]) '';'' \<longleftrightarrow> c = CHR '';''" for y c
    by (simp add: endsWith_def startsWith_def)
  then have "endsWith x '';'' \<longleftrightarrow> x \<noteq> [] \<and> last x = CHR '';''" for x
    by (cases x rule: rev_cases) (simp_all add: endsWith_def startsWith_def)
  from this [of "trim s"] show ?thesis
    using trim_Nil_iff [of s] trim_last [of s] by (cases "strip s = []") simp_all
qed

section \<open>The splitter loses nothing\<close>

lemma dash_append:
  assumes "last y = newline" and "y \<noteq> []" and "\<not> startsWith y ''--''"
  shows "\<not> startsWith (y @ x) ''--''"
proof (cases y)
  case (Cons c t)
  then show ?thesis using assms by (cases t) (auto simp: startsWith_def newline_def)
qed (use assms(2) in simp)

lemma dropWhile_all: "strip s = [] \<Longrightarrow> dropWhile is_space (s @ t) = dropWhile is_space t"
  by (induction s) (auto simp: strip_def split: if_splits)

lemma dropWhile_some:
  assumes "strip s \<noteq> []"
  shows "dropWhile is_space (s @ t) = dropWhile is_space s @ t" and "dropWhile is_space s \<noteq> []"
    and "last (dropWhile is_space s) = last s"
  using assms by (induction s) (auto simp: strip_def split: if_splits)

lemma comment_append:
  assumes "\<not> is_comment cur" and "cur = [] \<or> last cur = newline" and "\<not> (is_comment l \<and> trim cur = [])"
  shows "\<not> is_comment (cur @ l @ [newline])"
proof (cases "strip cur = []")
  case True
  then have l: "\<not> startsWith (dropWhile is_space l) ''--''" using assms(3) by (simp add: trim_Nil_iff is_comment_iff)
  have "\<not> startsWith (dropWhile is_space (l @ [newline])) ''--''"
  proof (cases "strip l = []")
    case True
    then show ?thesis by (simp add: dropWhile_all startsWith_def newline_def)
  next
    case False
    define y where "y = dropWhile is_space l"
    have "\<not> startsWith (y @ [newline]) ''--''"
      using l unfolding y_def [symmetric] by (cases y; cases "tl y") (auto simp: startsWith_def newline_def)
    then show ?thesis using dropWhile_some(1) [OF False] by (simp add: y_def)
  qed
  then show ?thesis using dropWhile_all [OF True] by (simp add: is_comment_iff)
next
  case False
  then have "cur \<noteq> []" by (auto simp: strip_def)
  then have "last (dropWhile is_space cur) = newline" using dropWhile_some(3) [OF False] assms(2) by simp
  then show ?thesis
    using dash_append [OF _ dropWhile_some(2) [OF False]] assms(1) dropWhile_some(1) [OF False] by (simp add: is_comment_iff)
qed

definition split_inv :: "string list \<Rightarrow> string list \<Rightarrow> splitter \<Rightarrow> bool" where
  "split_inv ls ks st \<longleftrightarrow> subseq ks ls \<and> filter (\<lambda>l. \<not> is_comment l) ks = filter (\<lambda>l. \<not> is_comment l) ls \<and>
    strip (concat (sp_statements st)) @ strip (sp_current st) = strip (concat ks) \<and>
    \<not> is_comment (sp_current st) \<and> (sp_current st = [] \<or> last (sp_current st) = newline) \<and>
    (\<forall>x\<in>set (sp_statements st). trim x = x \<and> \<not> startsWith x ''--'' \<and> endsWith x '';'')"

lemma trim_trim: "trim (trim s) = trim s"
proof -
  define r where "r = dropWhile is_space (rev (dropWhile is_space s))"
  have tr: "trim s = rev r" unfolding trim_def r_def by (rule refl)
  obtain w where w: "dropWhile is_space s = trim s @ w" using trim_prefix by blast
  have "dropWhile is_space (rev r) = rev r"
  proof (cases "rev r")
    case (Cons c t)
    then have "hd (dropWhile is_space s) = c" "dropWhile is_space s \<noteq> []" using w tr by simp_all
    then have "\<not> is_space c" using hd_dropWhile by blast
    then show ?thesis using Cons by simp
  qed simp
  moreover have "dropWhile is_space r = r" unfolding r_def by (rule dropWhile_idem)
  ultimately show ?thesis unfolding tr by (simp add: trim_def)
qed

lemma emit_eq:
  assumes "\<not> is_comment cur"
  shows "emit cur out = (if strip cur = [] then out else out @ [trim cur])"
  using assms by (simp add: emit_def is_comment_def trim_Nil_iff Let_def)

lemma empty_current [simp]: "\<not> is_comment []" "strip [] = []"
  by (simp_all add: is_comment_iff startsWith_def strip_def)

lemma split_step:
  assumes "split_inv ls ks st"
  shows "\<exists>ks'. split_inv (ls @ [l]) ks' (splitLine st l)"
proof (cases "is_comment l \<and> trim (sp_current st) = []")
  case True
  moreover have "subseq ks (ls @ [l])" using list_emb_append_mono [of "(=)" ks ls "[]" "[l]"] assms by (simp add: split_inv_def)
  ultimately have "split_inv (ls @ [l]) ks (splitLine st l)" using assms by (simp add: split_inv_def splitLine_def)
  then show ?thesis ..
next
  case False
  let ?cur = "sp_current st @ l @ [newline]"
  have sub: "subseq (ks @ [l]) (ls @ [l])" using assms by (simp add: split_inv_def list_emb_append_mono)
  have nc: "\<not> is_comment ?cur" using assms False by (intro comment_append) (auto simp: split_inv_def)
  have strip: "strip (concat (sp_statements st)) @ strip ?cur = strip (concat (ks @ [l]))"
    using assms by (simp add: split_inv_def)
  define quote where "quote = scanQuotes None (sp_quote st) l"
  have "split_inv (ls @ [l]) (ks @ [l]) (splitLine st l)"
  proof (cases "\<not> fst quote \<and> endsWith (trim l) '';''")
    case True
    then have l: "strip l \<noteq> []" "last (strip l) = CHR '';''" using ends_semicolon [of l] by simp_all
    then have e: "endsWith (trim ?cur) '';''" by (simp add: ends_semicolon)
    have out: "emit ?cur (sp_statements st) = sp_statements st @ [trim ?cur]" using emit_eq [OF nc] l by simp
    have "splitLine st l = \<lparr>sp_current = [], sp_quote = quote, sp_statements = sp_statements st @ [trim ?cur]\<rparr>"
      using False True out by (auto simp: splitLine_def quote_def Let_def)
    moreover have "\<not> startsWith (trim ?cur) ''--''" using nc unfolding is_comment_def .
    ultimately show ?thesis using assms sub strip e by (simp add: split_inv_def trim_trim)
  next
    case nt: False
    have "splitLine st l = st\<lparr>sp_current := ?cur, sp_quote := quote\<rparr>"
      using False nt by (auto simp: splitLine_def quote_def Let_def)
    then show ?thesis using assms sub strip nc by (simp add: split_inv_def)
  qed
  then show ?thesis ..
qed

lemma split_lines:
  "split_inv ls0 ks0 st \<Longrightarrow> \<exists>ks. split_inv (ls0 @ ls) ks (foldl splitLine st ls)"
proof (induction ls arbitrary: ls0 ks0 st)
  case Nil
  then show ?case by auto
next
  case (Cons l ls)
  obtain ks1 where "split_inv (ls0 @ [l]) ks1 (splitLine st l)" using split_step [OF Cons.prems] by blast
  from Cons.IH [OF this] show ?case by simp
qed

section \<open>Properties of the SQL text handling\<close>

text \<open>
  C33: The statement splitter loses, reorders and invents nothing: up to white space, the statements
  in order are the lines of the migration in order, except for some of its comment lines. Every
  statement is trimmed, non-empty and no comment, and all but possibly the last end in a semicolon.
\<close>

theorem migration_text_preserved:
  "\<exists>ks. subseq ks (splitOn newline sql) \<and>
     filter (\<lambda>l. \<not> is_comment l) ks = filter (\<lambda>l. \<not> is_comment l) (splitOn newline sql) \<and>
     strip (concat (splitStatements sql)) = strip (concat ks) \<and>
     list_all (\<lambda>x. x \<noteq> [] \<and> trim x = x \<and> \<not> startsWith x ''--'') (splitStatements sql) \<and>
     list_all (\<lambda>x. endsWith x '';'') (butlast (splitStatements sql))"
proof -
  let ?st0 = "\<lparr>sp_current = [], sp_quote = (False, CHR 0x00), sp_statements = []\<rparr>"
  define st where "st = foldl splitLine ?st0 (splitOn newline sql)"
  have "split_inv [] [] ?st0" by (simp add: split_inv_def)
  from split_lines [OF this, of "splitOn newline sql"] obtain ks where ks: "split_inv (splitOn newline sql) ks st"
    by (auto simp: st_def)
  have nc: "\<not> is_comment (sp_current st)" using ks by (simp add: split_inv_def)
  have out: "splitStatements sql = (if strip (sp_current st) = [] then sp_statements st else sp_statements st @ [trim (sp_current st)])"
    unfolding splitStatements_def st_def [symmetric] Let_def by (rule emit_eq [OF nc])
  have ne: "x \<noteq> []" if "endsWith x '';''" for x using that by (auto simp: endsWith_def startsWith_def)
  have st: "\<forall>x\<in>set (sp_statements st). x \<noteq> [] \<and> trim x = x \<and> \<not> startsWith x ''--'' \<and> endsWith x '';''"
    using ks ne by (simp add: split_inv_def)
  then have b: "\<forall>x\<in>set (butlast (sp_statements st)). endsWith x '';''" by (meson in_set_butlastD)
  have "strip (concat (splitStatements sql)) = strip (concat ks)" using ks out by (auto simp: split_inv_def)
  moreover have "\<forall>x\<in>set (splitStatements sql). x \<noteq> [] \<and> trim x = x \<and> \<not> startsWith x ''--''"
    using st out nc trim_Nil_iff [of "sp_current st"] by (auto simp: trim_trim is_comment_def)
  moreover have "\<forall>x\<in>set (butlast (splitStatements sql)). endsWith x '';''"
    using st b out by (simp add: butlast_append)
  ultimately show ?thesis using ks by (auto simp: split_inv_def list_all_iff)
qed

text \<open>
  How PostgreSQL reads a quoted identifier: up to the closing quote, a doubled quote standing for
  one.
\<close>

fun readQuoted :: "string \<Rightarrow> (string \<times> string) option" where
  "readQuoted [] = None"
| "readQuoted (c # cs) =
    (if c \<noteq> CHR 0x22 then map_option (\<lambda>(s, r). (c # s, r)) (readQuoted cs)
     else case cs of
         d # ds \<Rightarrow> if d = CHR 0x22 then map_option (\<lambda>(s, r). (CHR 0x22 # s, r)) (readQuoted ds) else Some ([], cs)
       | [] \<Rightarrow> Some ([], []))"

definition readIdentifier :: "string \<Rightarrow> (string \<times> string) option" where
  "readIdentifier s = (case s of c # cs \<Rightarrow> if c = CHR 0x22 then readQuoted cs else None | [] \<Rightarrow> None)"

lemma readQuoted_doubled:
  assumes "rest = [] \<or> hd rest \<noteq> CHR 0x22"
  shows "readQuoted (doubled (CHR 0x22) s @ CHR 0x22 # rest) = Some (s, rest)"
proof (induction s)
  case Nil
  then show ?case using assms by (cases rest) (auto simp: doubled_def)
qed (auto simp: doubled_def)



section \<open>The checksum\<close>

text \<open>Only the residue matters: the rounds are those of a polynomial, wrapped once at the end.\<close>

lemma checksumStep_wrap: "checksumStep (toInt32 x) c = toInt32 (31 * x + int (of_char c))"
proof -
  let ?w = "of_int x :: 32 word"
  have "of_int (sint (push_bit 5 ?w) - sint ?w + int (of_char c)) = (push_bit 5 ?w - ?w + of_int (int (of_char c)) :: 32 word)"
    by (simp add: of_int_add of_int_diff)
  also have "\<dots> = of_int (31 * x + int (of_char c))" by (simp add: push_bit_eq_mult)
  finally show ?thesis by (simp add: checksumStep_def toInt32_def)
qed

lemma checksum_fold: "foldl checksumStep (toInt32 x) cs = toInt32 (foldl (\<lambda>h c. 31 * h + int (of_char c)) x cs)"
  by (induction cs arbitrary: x) (simp_all add: checksumStep_wrap)

lemma toInt32_bound: "\<bar>toInt32 x\<bar> < 16 ^ 8"
proof -
  have "- (2 ^ 31) \<le> toInt32 x \<and> toInt32 x < 2 ^ 31"
    using sint_range_size [of "word_of_int x :: 32 word"] by (simp add: toInt32_def word_size)
  then show ?thesis by (simp add: abs_if)
qed

lemma hex_digits_length: "n < 16 ^ Suc k \<Longrightarrow> length (hex_digits n) \<le> Suc k"
proof (induction k arbitrary: n)
  case 0
  then show ?case by (subst hex_digits.simps) simp
next
  case (Suc k)
  have "n div 16 < 16 ^ Suc k" using Suc.prems by (simp add: less_mult_imp_div_less mult.commute)
  then show ?case using Suc.IH by (subst hex_digits.simps) simp
qed

definition hex_char :: "char \<Rightarrow> bool" where
  "hex_char c = (let n = of_char c :: nat in 48 \<le> n \<and> n \<le> 57 \<or> 97 \<le> n \<and> n \<le> 102)"

lemma hex_digits_chars: "list_all hex_char (hex_digits n)"
proof (induction n rule: hex_digits.induct)
  case (1 n)
  have "hex_char (char_of (48 + m))" if "m < 10" for m :: nat using that by (simp add: hex_char_def)
  moreover have "hex_char (char_of (87 + m))" if "\<not> m < 10" "m < 16" for m :: nat using that by (simp add: hex_char_def)
  ultimately show ?case using 1 by (subst hex_digits.simps) simp
qed

text \<open>
  The checksum is the polynomial hash of the content with base 31, wrapped to a signed 32-bit
  integer (the wrap-around inside the loop makes no difference), and its text is always exactly
  eight lower-case hexadecimal digits: it fits its column and needs no quoting in the statement it
  is pasted into.
\<close>

theorem checksum_text:
  "checksumHash content = toInt32 (foldl (\<lambda>h c. 31 * h + int (of_char c)) 0 content) \<and>
   length (calculateChecksum content) = 8 \<and> list_all hex_char (calculateChecksum content)"
proof -
  have h: "checksumHash content = toInt32 (foldl (\<lambda>h c. 31 * h + int (of_char c)) 0 content)"
    using checksum_fold [of 0 content] by (simp add: checksumHash_def toInt32_def)
  then have "nat \<bar>checksumHash content\<bar> < 16 ^ Suc 7" using toInt32_bound by (simp add: nat_less_iff)
  then have "length (hex_digits (nat \<bar>checksumHash content\<bar>)) \<le> 8" using hex_digits_length [of _ 7] by simp
  moreover have "hex_char (CHR ''0'')" by (simp add: hex_char_def)
  then have "list_all hex_char (calculateChecksum content)"
    using hex_digits_chars by (simp add: calculateChecksum_def padStart_def list_all_iff set_replicate_conv_if)
  ultimately show ?thesis using h by (simp add: calculateChecksum_def padStart_def)
qed

end
