(* ===== verification/Provisioning.thy ===== *)
theory Provisioning
  imports Sql Users "HOL-Library.Char_ord" "HOL-Library.List_Lexorder"
begin

text \<open>
  Tenant databases: \<open>DatabaseCreationConsumer\<close>
  (\<open>src/rabbitmq/database-creation.consumer.ts\<close>), which creates and migrates the database of a new
  administrator, and \<open>TenantMigrationService\<close> (\<open>src/prisma/tenant-migration.service.ts\<close>). Raw SQL on
  a client is the parameter \<open>'s sql_api\<close>, the file system \<open>'s fs_api\<close>.
\<close>

section \<open>Interfaces\<close>

record 's sql_api =
  sql_connect :: "prisma_client \<Rightarrow> ('s, unit) call"
  sql_disconnect :: "prisma_client \<Rightarrow> ('s, unit) call"
  sql_execute :: "prisma_client \<Rightarrow> string \<Rightarrow> ('s, unit) call"
  sql_query :: "prisma_client \<Rightarrow> string \<Rightarrow> ('s, string list) call"

text \<open>\<open>readdirSync\<close> with file types: names, and whether they are directories.\<close>

record 's fs_api =
  fs_readdir :: "string \<Rightarrow> ('s, (string \<times> bool) list) call"
  fs_exists :: "string \<Rightarrow> 's \<Rightarrow> bool \<times> 's"
  fs_readFile :: "string \<Rightarrow> ('s, string) call"
  fs_cwd :: string

text \<open>\<open>try { m } finally { f }\<close>.\<close>

definition tryFinally :: "('s, 'a) handler \<Rightarrow> ('s, unit) handler \<Rightarrow> ('s, 'a) handler" where
  "tryFinally m f = bindA m (\<lambda>r. bindE f (\<lambda>_. Done r))"

section \<open>SQL texts\<close>

definition dq :: "string \<Rightarrow> string" where "dq s = [CHR 0x22] @ s @ [CHR 0x22]"
definition sq :: "string \<Rightarrow> string" where "sq s = [CHR 0x27] @ s @ [CHR 0x27]"

text \<open>A template literal whose continuation lines are indented by \<open>n\<close> blanks.\<close>

definition template :: "nat \<Rightarrow> string list \<Rightarrow> string" where
  "template n ls = concat (map (\<lambda>l. newline # replicate n (CHR '' '') @ l) ls) @ newline # replicate (n - 2) (CHR '' '')"

definition migrationsColumns :: "string list" where
  "migrationsColumns = [dq ''id'' @ '' VARCHAR(36) NOT NULL,'', dq ''checksum'' @ '' VARCHAR(64) NOT NULL,'',
     dq ''finished_at'' @ '' TIMESTAMP(3),'', dq ''migration_name'' @ '' VARCHAR(255) NOT NULL,'',
     dq ''logs'' @ '' TEXT,'', dq ''rolled_back_at'' @ '' TIMESTAMP(3),'',
     dq ''started_at'' @ '' TIMESTAMP(3) NOT NULL DEFAULT CURRENT_TIMESTAMP,'',
     dq ''applied_steps_count'' @ '' INTEGER NOT NULL DEFAULT 0,'',
     ''CONSTRAINT '' @ dq ''_prisma_migrations_pkey'' @ '' PRIMARY KEY ('' @ dq ''id'' @ '')'']"

definition createMigrationsTable :: string where
  "createMigrationsTable = template 10
    (((''CREATE TABLE IF NOT EXISTS '' @ dq ''_prisma_migrations'' @ '' ('') # map (\<lambda>l. ''  '' @ l) migrationsColumns) @ ['')''])"

definition selectMigration :: "string \<Rightarrow> string" where
  "selectMigration dir = ''SELECT id FROM '' @ dq ''_prisma_migrations'' @ '' WHERE migration_name = '' @ sq (doubled (CHR 0x27) dir)"

definition insertMigration :: "string \<Rightarrow> string \<Rightarrow> string \<Rightarrow> string" where
  "insertMigration migrationId checksum dir = template 16
    [''INSERT INTO '' @ dq ''_prisma_migrations'' @ '' '',
     ''(id, checksum, migration_name, started_at, applied_steps_count)'',
     ''VALUES ('' @ sq migrationId @ '', '' @ sq checksum @ '', '' @ sq (doubled (CHR 0x27) dir) @ '', CURRENT_TIMESTAMP, 0)'']"

definition finishMigration :: "string \<Rightarrow> nat \<Rightarrow> string" where
  "finishMigration migrationId steps = template 18
    [''UPDATE '' @ dq ''_prisma_migrations'',
     ''SET finished_at = CURRENT_TIMESTAMP, applied_steps_count = '' @ show_nat steps,
     ''WHERE id = '' @ sq migrationId]"

definition rollbackMigration :: "string \<Rightarrow> string" where
  "rollbackMigration migrationId = template 18
    [''UPDATE '' @ dq ''_prisma_migrations'', ''SET rolled_back_at = CURRENT_TIMESTAMP'', ''WHERE id = '' @ sq migrationId]"

section \<open>DatabaseCreationConsumer\<close>

text \<open>The constructor: its default prefix is not the one of \<open>DatabaseManagerService\<close>.\<close>

definition consumerPrefix :: "config \<Rightarrow> string" where
  "consumerPrefix cfg = env_or (cf_DATABASE_PREFIX cfg) ''tenant_''"

definition provisionedName :: "config \<Rightarrow> string \<Rightarrow> string" where
  "provisionedName cfg tenantCode = consumerPrefix cfg @ toLowerCase tenantCode"

definition provisionedUrl :: "config \<Rightarrow> string \<Rightarrow> string" where
  "provisionedUrl cfg tenantCode = baseDatabaseUrl cfg @ CHR ''/'' # provisionedName cfg tenantCode @ queryParams cfg"

definition postgresUrl :: "config \<Rightarrow> string" where
  "postgresUrl cfg = baseDatabaseUrl cfg @ ''/postgres'' @ queryParams cfg"

definition createDbClient :: "'s sql_api \<Rightarrow> config \<Rightarrow> ('s, prisma_client) handler" where
  "createDbClient S cfg =
    tryCatch (bindE (await_call (sql_connect S (UrlClient (postgresUrl cfg)))) (\<lambda>_. ret (UrlClient (postgresUrl cfg))))
      (\<lambda>_. ret DefaultClient)"

definition createStatement :: "string \<Rightarrow> string" where
  "createStatement dbName = ''CREATE DATABASE '' @ escapeIdentifier dbName"

definition createDatabase :: "'s sql_api \<Rightarrow> config \<Rightarrow> string \<Rightarrow> ('s, unit) handler" where
  "createDatabase S cfg dbName =
    bindE (createDbClient S cfg) (\<lambda>c.
    tryFinally (await_call (sql_execute S c (createStatement dbName)))
      (if c \<noteq> DefaultClient then await_call (sql_disconnect S c) else ret ()))"

definition migrationsPath :: "'s fs_api \<Rightarrow> string" where
  "migrationsPath F = fs_cwd F @ ''/prisma/tenant_migrations''"

definition migrationFile :: "'s fs_api \<Rightarrow> string \<Rightarrow> string" where
  "migrationFile F dir = migrationsPath F @ CHR ''/'' # dir @ ''/migration.sql''"

definition migrationDirs :: "(string \<times> bool) list \<Rightarrow> string list" where
  "migrationDirs entries = sort (map fst (filter snd entries))"

text \<open>The statements of a migration, those on \<open>users\<close> left out.\<close>

definition runStatements :: "'s sql_api \<Rightarrow> prisma_client \<Rightarrow> string \<Rightarrow> ('s, unit) handler" where
  "runStatements S c migrationSQL = forEach (splitStatements migrationSQL) (\<lambda>statement.
    if shouldSkipStatement statement then ret () else await_call (sql_execute S c statement))"

definition applyMigration ::
  "'s sql_api \<Rightarrow> 's fs_api \<Rightarrow> ('s \<Rightarrow> string \<times> 's) \<Rightarrow> prisma_client \<Rightarrow> string \<Rightarrow> ('s, unit) handler" where
  "applyMigration S F gen c dir =
    bindE (sync (fs_exists F (migrationFile F dir))) (\<lambda>present.
    if \<not> present then ret () else
    bindE (await_call (fs_readFile F (migrationFile F dir))) (\<lambda>migrationSQL.
    bindE (await_call (sql_query S c (selectMigration dir))) (\<lambda>existingMigration.
    if existingMigration \<noteq> [] then ret () else
    bindE (sync gen) (\<lambda>migrationId.
    bindE (await_call (sql_execute S c (insertMigration migrationId (calculateChecksum migrationSQL) dir))) (\<lambda>_.
    tryCatch
      (bindE (runStatements S c migrationSQL) (\<lambda>_.
       await_call (sql_execute S c (finishMigration migrationId (statementCount migrationSQL)))))
      (\<lambda>e. bindE (await_call (sql_execute S c (rollbackMigration migrationId))) (\<lambda>_. throw e)))))))"

definition migrateTenant ::
  "'s sql_api \<Rightarrow> 's fs_api \<Rightarrow> ('s \<Rightarrow> string \<times> 's) \<Rightarrow> prisma_client \<Rightarrow> ('s, unit) handler" where
  "migrateTenant S F gen c =
    bindE (await_call (sql_connect S c)) (\<lambda>_.
    bindE (await_call (sql_execute S c createMigrationsTable)) (\<lambda>_.
    bindE (await_call (fs_readdir F (migrationsPath F))) (\<lambda>entries.
    bindE (forEach (migrationDirs entries) (applyMigration S F gen c)) (\<lambda>_.
    await_call (sql_disconnect S c)))))"

definition dropDatabase :: "string \<Rightarrow> string" where
  "dropDatabase dbName = ''DROP DATABASE IF EXISTS '' @ escapeIdentifier dbName"

definition createAndMigrateTenantDatabase ::
  "'s sql_api \<Rightarrow> 's fs_api \<Rightarrow> ('s \<Rightarrow> string \<times> 's) \<Rightarrow> config \<Rightarrow> string \<Rightarrow> ('s, unit) handler" where
  "createAndMigrateTenantDatabase S F gen cfg tenantCode =
    tryCatch
      (bindE (createDatabase S cfg (provisionedName cfg tenantCode)) (\<lambda>_.
       tryCatch (migrateTenant S F gen (UrlClient (provisionedUrl cfg tenantCode)))
         (\<lambda>e. bindE (tryCatch (await_call (sql_execute S DefaultClient (dropDatabase (provisionedName cfg tenantCode)))) (\<lambda>_. ret ()))
                (\<lambda>_. throw e))))
      (\<lambda>e. if str_includes (message e) ''already exists'' then ret ()
            else throw (RaisedError (''Failed to create and migrate tenant database: '' @ message e)))"

definition handleDatabaseCreation ::
  "'s user_api \<Rightarrow> 's sql_api \<Rightarrow> 's fs_api \<Rightarrow> ('s \<Rightarrow> string \<times> 's) \<Rightarrow> config \<Rightarrow> db_msg \<Rightarrow> ('s, unit) handler" where
  "handleDatabaseCreation U S F gen cfg dat = rethrow (
    bindE (createAndMigrateTenantDatabase S F gen cfg (dm_tenantCode dat)) (\<lambda>_.
    bindE (await_call (user_update U DefaultClient (dm_userId dat)
      \<lparr>ud_email = None, ud_username = None, ud_password = None, ud_role = None, ud_isDatabaseCreated = Some True\<rparr>)) (\<lambda>_.
    ret ())))"

definition deliverDatabaseCreation ::
  "'s amqp_api \<Rightarrow> 's user_api \<Rightarrow> 's sql_api \<Rightarrow> 's fs_api \<Rightarrow> ('s \<Rightarrow> string \<times> 's) \<Rightarrow> config \<Rightarrow> nat \<Rightarrow> string \<Rightarrow> ('s, unit) handler" where
  "deliverDatabaseCreation A U S F gen cfg tag content =
    onDelivery A db_msg_of (handleDatabaseCreation U S F gen cfg) tag content"

section \<open>TenantMigrationService\<close>

datatype migration_status = Applied | Failed string | AlreadyApplied

type_synonym migration_result = "string \<times> string \<times> migration_status"

definition recordMigration :: "string \<Rightarrow> nat \<Rightarrow> string" where
  "recordMigration dir steps =
    ''INSERT INTO '' @ dq ''_prisma_migrations'' @ '' (id, checksum, migration_name, started_at, applied_steps_count, finished_at)'' @
    newline # replicate 17 (CHR '' '') @ ''VALUES (gen_random_uuid(), '' @ sq ''-'' @ '', '' @ sq (doubled (CHR 0x27) dir) @
    '', CURRENT_TIMESTAMP, '' @ show_nat steps @ '', CURRENT_TIMESTAMP)''"

definition tenantMigrationsTable :: string where
  "tenantMigrationsTable = ''CREATE TABLE IF NOT EXISTS '' @ dq ''_prisma_migrations'' @ '' ('' @ template 8 migrationsColumns @ '')''"

definition migrateOne ::
  "'s sql_api \<Rightarrow> 's fs_api \<Rightarrow> prisma_client \<Rightarrow> string \<Rightarrow> string \<Rightarrow> ('s, migration_result list) handler" where
  "migrateOne S F c tenantCode dir =
    bindE (sync (fs_exists F (migrationFile F dir))) (\<lambda>present.
    if \<not> present then ret [] else
    bindE (await_call (fs_readFile F (migrationFile F dir))) (\<lambda>migrationSQL.
    bindE (await_call (sql_query S c (selectMigration dir))) (\<lambda>existingMigration.
    if existingMigration \<noteq> [] then ret [(tenantCode, dir, AlreadyApplied)] else
    let statements = migrationStatements migrationSQL in
    tryCatch
      (bindE (forEach statements (\<lambda>stmt. await_call (sql_execute S c (stmt @ '';'')))) (\<lambda>_.
       bindE (await_call (sql_execute S c (recordMigration dir (length statements)))) (\<lambda>_.
       ret [(tenantCode, dir, Applied)])))
      (\<lambda>e. ret [(tenantCode, dir, Failed (message e))]))))"

text \<open>\<open>results.push\<close> in a loop: the results of the rounds in order.\<close>

primrec collect :: "'x list \<Rightarrow> ('x \<Rightarrow> ('s, 'r list) handler) \<Rightarrow> ('s, 'r list) handler" where
  "collect [] body = ret []"
| "collect (x # xs) body = bindE (body x) (\<lambda>r. bindE (collect xs body) (\<lambda>rs. ret (r @ rs)))"

definition migrateAllTenants ::
  "'s user_api \<Rightarrow> 's manager \<Rightarrow> 's sql_api \<Rightarrow> 's fs_api \<Rightarrow> ('s, migration_result list) handler" where
  "migrateAllTenants U M S F =
    bindE (await_call (user_findMany_ready U DefaultClient)) (\<lambda>tenants.
    bindE (await_call (fs_readdir F (migrationsPath F))) (\<lambda>entries.
    collect tenants (\<lambda>tenantCode.
      bindE (clientFor M (Some tenantCode)) (\<lambda>c.
      bindE (await_call (sql_connect S c)) (\<lambda>_.
      bindE (await_call (sql_execute S c tenantMigrationsTable)) (\<lambda>_.
      bindE (collect (migrationDirs entries) (migrateOne S F c tenantCode)) (\<lambda>rs.
      bindE (await_call (sql_disconnect S c)) (\<lambda>_. ret rs))))))))"

section \<open>The contract of raw SQL and of the migration files\<close>

text \<open>
  \<open>L s c\<close> are the statements executed successfully through client \<open>c\<close>, in order; a rejected statement
  has no effect. \<open>files\<close> and \<open>entries\<close> are the content of the file system, which does not change.
\<close>

locale sql_log =
  fixes S :: "'s sql_api" and F :: "'s fs_api" and gen :: "'s \<Rightarrow> string \<times> 's" and Inv :: "'s \<Rightarrow> bool"
    and L :: "'s \<Rightarrow> prisma_client \<Rightarrow> string list" and files :: "string \<rightharpoonup> string" and entries :: "string \<Rightarrow> (string \<times> bool) list"
  assumes execute_ok: "Inv s \<Longrightarrow> sql_execute S c q s = (r, s') \<Longrightarrow>
      Inv s' \<and> L s' = (case r of Inl _ \<Rightarrow> L s | Inr _ \<Rightarrow> (L s)(c := L s c @ [q]))"
    and connect_ok: "Inv s \<Longrightarrow> sql_connect S c s = (r, s') \<Longrightarrow> Inv s' \<and> L s' = L s"
    and disconnect_ok: "Inv s \<Longrightarrow> sql_disconnect S c s = (r, s') \<Longrightarrow> Inv s' \<and> L s' = L s"
    and query_ok: "Inv s \<Longrightarrow> sql_query S c q s = (qr, s') \<Longrightarrow> Inv s' \<and> L s' = L s"
    and readdir_ok: "Inv s \<Longrightarrow> fs_readdir F p s = (er, s') \<Longrightarrow> Inv s' \<and> L s' = L s \<and> (\<forall>es. er = Inr es \<longrightarrow> es = entries p)"
    and exists_ok: "Inv s \<Longrightarrow> fs_exists F p s = (b, s') \<Longrightarrow> Inv s' \<and> L s' = L s \<and> b = (files p \<noteq> None)"
    and readFile_ok: "Inv s \<Longrightarrow> fs_readFile F p s = (fr, s') \<Longrightarrow> Inv s' \<and> L s' = L s \<and> (\<forall>t. fr = Inr t \<longrightarrow> files p = Some t)"
    and gen_ok: "Inv s \<Longrightarrow> gen s = (u, s') \<Longrightarrow> Inv s' \<and> L s' = L s"

text \<open>What one migration executes, and what a run over directories executes after the log \<open>l\<close>.\<close>

definition migration_block :: "string \<Rightarrow> string \<Rightarrow> string \<Rightarrow> string list" where
  "migration_block migrationId sql dir =
    insertMigration migrationId (calculateChecksum sql) dir #
    filter (\<lambda>st. \<not> shouldSkipStatement st) (splitStatements sql) @ [finishMigration migrationId (statementCount sql)]"

inductive migrated ::
  "(string \<rightharpoonup> string) \<Rightarrow> (string list \<Rightarrow> string \<Rightarrow> bool) \<Rightarrow> string list \<Rightarrow> string list \<Rightarrow> string list \<Rightarrow> bool" for texts seen where
  no_more: "migrated texts seen [] l l"
| apply_dir: "texts d = Some sql \<Longrightarrow> migrated texts seen ds (l @ migration_block mid sql d) l' \<Longrightarrow> migrated texts seen (d # ds) l l'"
| skip_dir: "texts d = None \<or> seen l d \<Longrightarrow> migrated texts seen ds l l' \<Longrightarrow> migrated texts seen (d # ds) l l'"

inductive_cases migrated_NilE: "migrated texts seen [] l l'"
inductive_cases migrated_ConsE: "migrated texts seen (d # ds) l l'"

text \<open>The text of a migration, and that a query finds a record of it when the log of \<open>c\<close> is \<open>l\<close>.\<close>

definition sqlOf :: "'s fs_api \<Rightarrow> (string \<rightharpoonup> string) \<Rightarrow> string \<Rightarrow> string option" where
  "sqlOf F files d = files (migrationFile F d)"

definition recorded ::
  "'s sql_api \<Rightarrow> ('s \<Rightarrow> bool) \<Rightarrow> ('s \<Rightarrow> prisma_client \<Rightarrow> string list) \<Rightarrow> prisma_client \<Rightarrow> string list \<Rightarrow> string \<Rightarrow> bool" where
  "recorded S Inv L c l d \<longleftrightarrow> (\<exists>s. Inv s \<and> L s c = l \<and> (\<exists>x xs. fst (sql_query S c (selectMigration d) s) = Inr (x # xs)))"

context sql_log
begin

lemma execute_wp:
  assumes "Inv s" and "\<And>e s'. Inv s' \<Longrightarrow> L s' = L s \<Longrightarrow> E (RaisedError e) s'"
    and "\<And>s'. Inv s' \<Longrightarrow> L s' = (L s)(c := L s c @ [q]) \<Longrightarrow> G () s'"
  shows "wp (await_call (sql_execute S c q)) G E s"
proof -
  obtain r s' where x: "sql_execute S c q s = (r, s')" by fastforce
  from execute_ok [OF assms(1) x] show ?thesis using x assms(2,3) by (auto simp: wp_await_call split: sum.split)
qed

lemma silent_wp:
  assumes "Inv s" and "\<And>r s'. f s = (r, s') \<Longrightarrow> Inv s' \<and> L s' = L s \<and> (\<forall>x. r = Inr x \<longrightarrow> R x s')"
    and "\<And>e s'. Inv s' \<Longrightarrow> L s' = L s \<Longrightarrow> E (RaisedError e) s'" and "\<And>x s'. Inv s' \<Longrightarrow> L s' = L s \<Longrightarrow> R x s' \<Longrightarrow> G x s'"
  shows "wp (await_call f) G E s"
proof -
  obtain r s' where x: "f s = (r, s')" by fastforce
  from assms(2) [OF x] show ?thesis using x assms(3,4) by (auto simp: wp_await_call split: sum.split)
qed

lemma runStatements_wp:
  assumes "Inv s"
  shows "wp (runStatements S c sql)
    (\<lambda>_ s'. Inv s' \<and> L s' = (L s)(c := L s c @ filter (\<lambda>st. \<not> shouldSkipStatement st) (splitStatements sql)))
    (\<lambda>_ s'. Inv s' \<and> same_but c (L s) (L s')) s"
  unfolding runStatements_def
proof (rule wp_forEach [where J = "\<lambda>ys s'. Inv s' \<and> L s' = (L s)(c := L s c @ filter (\<lambda>st. \<not> shouldSkipStatement st) ys)"])
  fix ys x zs s1
  assume s1: "Inv s1 \<and> L s1 = (L s)(c := L s c @ filter (\<lambda>st. \<not> shouldSkipStatement st) ys)"
  show "wp (if shouldSkipStatement x then ret () else await_call (sql_execute S c x))
     (\<lambda>_ s'. Inv s' \<and> L s' = (L s)(c := L s c @ filter (\<lambda>st. \<not> shouldSkipStatement st) (ys @ [x])))
     (\<lambda>_ s'. Inv s' \<and> same_but c (L s) (L s')) s1"
  proof (cases "shouldSkipStatement x")
    case True
    then show ?thesis using s1 by (simp add: wp_ret)
  next
    case False
    then show ?thesis using s1 by (simp only: if_False) (rule execute_wp, auto simp: same_but_def)
  qed
qed (use assms in auto)

definition dir_done :: "prisma_client \<Rightarrow> string list \<Rightarrow> string \<Rightarrow> string list \<Rightarrow> bool" where
  "dir_done c l d l' \<longleftrightarrow> (sqlOf F files d = None \<or> recorded S Inv L c l d) \<and> l' = l \<or>
     (\<exists>mid sql. sqlOf F files d = Some sql \<and> l' = l @ migration_block mid sql d)"

lemma migrated_snoc: "migrated (sqlOf F files) (recorded S Inv L c) ds l l1 \<Longrightarrow> dir_done c l1 d l2 \<Longrightarrow> migrated (sqlOf F files) (recorded S Inv L c) (ds @ [d]) l l2"
proof (induction rule: migrated.induct)
  case (no_more l)
  then show ?case by (auto simp: dir_done_def intro: migrated.intros)
qed (auto intro: migrated.intros)

text \<open>The part of a migration that is recorded: it runs to the end, or is marked as rolled back.\<close>

lemma recordedRun_wp:
  assumes "Inv s"
  shows "wp (bindE (await_call (sql_execute S c (insertMigration mid (calculateChecksum sql) d))) (\<lambda>_.
      tryCatch (bindE (runStatements S c sql) (\<lambda>_. await_call (sql_execute S c (finishMigration mid (statementCount sql)))))
        (\<lambda>e. bindE (await_call (sql_execute S c (rollbackMigration mid))) (\<lambda>_. throw e))))
    (\<lambda>_ s'. Inv s' \<and> L s' = (L s)(c := L s c @ migration_block mid sql d)) (\<lambda>_ s'. Inv s' \<and> same_but c (L s) (L s')) s"
    (is "wp _ ?G ?E s")
proof -
  have undo: "wp (bindE (await_call (sql_execute S c (rollbackMigration mid))) (\<lambda>_. throw e)) ?G ?E s1"
    if "Inv s1" "same_but c (L s) (L s1)" for e s1
    unfolding wp_bindE wp_throw by (rule execute_wp [OF that(1)]) (use that in \<open>auto simp: same_but_def\<close>)
  show ?thesis
    unfolding wp_bindE [of "await_call (sql_execute S c (insertMigration mid (calculateChecksum sql) d))"] wp_tryCatch
      wp_bindE [of "runStatements S c sql"]
  proof (rule execute_wp [OF assms])
    fix s1 assume s1: "Inv s1" "L s1 = (L s)(c := L s c @ [insertMigration mid (calculateChecksum sql) d])"
    show "wp (runStatements S c sql)
        (\<lambda>_. wp (await_call (sql_execute S c (finishMigration mid (statementCount sql)))) ?G
           (\<lambda>e. wp (bindE (await_call (sql_execute S c (rollbackMigration mid))) (\<lambda>_. throw e)) ?G ?E))
        (\<lambda>e. wp (bindE (await_call (sql_execute S c (rollbackMigration mid))) (\<lambda>_. throw e)) ?G ?E) s1"
    proof (rule wp_conseq [OF runStatements_wp [OF s1(1)]], elim conjE)
      fix s2 assume s2: "Inv s2" "L s2 = (L s1)(c := L s1 c @ filter (\<lambda>st. \<not> shouldSkipStatement st) (splitStatements sql))"
      show "wp (await_call (sql_execute S c (finishMigration mid (statementCount sql)))) ?G
           (\<lambda>e. wp (bindE (await_call (sql_execute S c (rollbackMigration mid))) (\<lambda>_. throw e)) ?G ?E) s2"
        by (rule execute_wp [OF s2(1)], rule undo) (use s1 s2 in \<open>simp_all add: migration_block_def\<close>)
    next
      show "wp (bindE (await_call (sql_execute S c (rollbackMigration mid))) (\<lambda>_. throw e)) ?G ?E s2"
        if "Inv s2 \<and> same_but c (L s1) (L s2)" for e s2
        by (rule undo) (use that s1 in \<open>auto simp: same_but_def\<close>)
    qed
  qed (auto simp: same_but_def)
qed

lemma applyMigration_wp:
  assumes "Inv s"
  shows "wp (applyMigration S F gen c d)
    (\<lambda>_ s'. Inv s' \<and> same_but c (L s) (L s') \<and> dir_done c (L s c) d (L s' c)) (\<lambda>_ s'. Inv s' \<and> same_but c (L s) (L s')) s"
    (is "wp _ ?G ?E s")
proof -
  define body where "body = (\<lambda>sql mid. bindE (await_call (sql_execute S c (insertMigration mid (calculateChecksum sql) d))) (\<lambda>_.
      tryCatch (bindE (runStatements S c sql) (\<lambda>_. await_call (sql_execute S c (finishMigration mid (statementCount sql)))))
        (\<lambda>e. bindE (await_call (sql_execute S c (rollbackMigration mid))) (\<lambda>_. throw e))))"
  have body: "wp (body sql mid) ?G ?E s1" if "Inv s1" "L s1 = L s" "sqlOf F files d = Some sql" for sql mid s1
    unfolding body_def
    by (rule wp_conseq [OF recordedRun_wp [OF that(1)]]) (use that in \<open>auto simp: same_but_def dir_done_def\<close>)
  have query: "wp (bindE (await_call (sql_query S c (selectMigration d))) (\<lambda>found.
      if found \<noteq> [] then ret () else bindE (sync gen) (body sql))) ?G ?E s1"
    if s1: "Inv s1" "L s1 = L s" "sqlOf F files d = Some sql" for sql s1
  proof -
    have "wp (if found \<noteq> [] then ret () else bindE (sync gen) (body sql)) ?G ?E s2"
      if s2: "Inv s2" "L s2 = L s1" and found: "fst (sql_query S c (selectMigration d) s1) = Inr found" for found s2
    proof (cases found)
      case Nil
      obtain u s3 where g: "gen s2 = (u, s3)" by fastforce
      then have "Inv s3" "L s3 = L s" using gen_ok [OF s2(1) g] s1 s2 by auto
      from body [OF this s1(3)] show ?thesis using Nil g by (simp add: wp_bindE wp_sync)
    next
      case (Cons x xs)
      then have "recorded S Inv L c (L s c) d" using s1 found unfolding recorded_def by metis
      then show ?thesis using Cons s1 s2 by (simp add: wp_ret same_but_def dir_done_def)
    qed
    then show ?thesis
      unfolding wp_bindE [of "await_call (sql_query S c (selectMigration d))"]
      by (intro silent_wp [OF s1(1), where R = "\<lambda>x s2. fst (sql_query S c (selectMigration d) s1) = Inr x"])
         (use query_ok [OF s1(1)] s1 in \<open>auto simp: same_but_def\<close>)
  qed
  obtain b s1 where ex: "fs_exists F (migrationFile F d) s = (b, s1)" by fastforce
  then have s1: "Inv s1" "L s1 = L s" "b \<longleftrightarrow> sqlOf F files d \<noteq> None" using exists_ok [OF assms ex] by (auto simp: sqlOf_def)
  have "wp (if \<not> b then ret () else bindE (await_call (fs_readFile F (migrationFile F d))) (\<lambda>sql.
      bindE (await_call (sql_query S c (selectMigration d))) (\<lambda>found.
      if found \<noteq> [] then ret () else bindE (sync gen) (body sql)))) ?G ?E s1"
  proof (cases b)
    case True
    have "wp (await_call (fs_readFile F (migrationFile F d))) (\<lambda>sql. wp (bindE (await_call (sql_query S c (selectMigration d))) (\<lambda>found.
        if found \<noteq> [] then ret () else bindE (sync gen) (body sql))) ?G ?E) ?E s1"
      by (rule silent_wp [OF s1(1), where R = "\<lambda>x _. sqlOf F files d = Some x"])
         (use readFile_ok [OF s1(1)] s1 query in \<open>auto simp: sqlOf_def\<close>)
    then show ?thesis using True by (simp add: wp_bindE [of "await_call (fs_readFile F (migrationFile F d))"])
  next
    case False
    then show ?thesis using s1 by (simp add: wp_ret same_but_def dir_done_def)
  qed
  then show ?thesis
    unfolding applyMigration_def body_def wp_bindE [of "sync (fs_exists F (migrationFile F d))"] wp_sync by (simp add: ex)
qed

lemma migrateTenant_wp:
  assumes "Inv s"
  shows "wp (migrateTenant S F gen c)
    (\<lambda>_ s'. Inv s' \<and> same_but c (L s) (L s') \<and> migrated (sqlOf F files) (recorded S Inv L c)
       (migrationDirs (entries (migrationsPath F))) (L s c @ [createMigrationsTable]) (L s' c))
    (\<lambda>_ s'. Inv s' \<and> same_but c (L s) (L s')) s" (is "wp _ ?G ?E s")
proof -
  let ?dirs = "migrationDirs (entries (migrationsPath F))" and ?l = "L s c @ [createMigrationsTable]"
  let ?J = "\<lambda>ys s'. Inv s' \<and> same_but c (L s) (L s') \<and> migrated (sqlOf F files) (recorded S Inv L c) ys ?l (L s' c)"
  have loop: "wp (forEach ?dirs (applyMigration S F gen c)) (\<lambda>_. wp (await_call (sql_disconnect S c)) ?G ?E) ?E s3"
    if s3: "Inv s3" "L s3 = (L s)(c := ?l)" for s3
  proof (rule wp_forEach [where J = ?J])
    show "?J [] s3" using s3 migrated.no_more by (simp add: same_but_def)
    show "wp (applyMigration S F gen c x) (\<lambda>_. ?J (ys @ [x])) ?E s4" if "?J ys s4" for ys x s4
      by (rule wp_conseq [OF applyMigration_wp]) (use that migrated_snoc in \<open>auto simp: same_but_def\<close>)
    show "wp (await_call (sql_disconnect S c)) ?G ?E s4" if "?J ?dirs s4" for s4
      by (rule silent_wp [where R = "\<lambda>_ _. True"]) (use that disconnect_ok in auto)
  qed
  show ?thesis
    unfolding migrateTenant_def wp_bindE
  proof (rule silent_wp [OF assms, where R = "\<lambda>_ _. True"])
    fix s1 assume s1: "Inv s1" "L s1 = L s"
    show "wp (await_call (sql_execute S c createMigrationsTable)) (\<lambda>_. wp (await_call (fs_readdir F (migrationsPath F)))
        (\<lambda>es. wp (forEach (migrationDirs es) (applyMigration S F gen c)) (\<lambda>_. wp (await_call (sql_disconnect S c)) ?G ?E) ?E) ?E) ?E s1"
    proof (rule execute_wp [OF s1(1)])
      fix s2 assume s2: "Inv s2" "L s2 = (L s1)(c := L s1 c @ [createMigrationsTable])"
      show "wp (await_call (fs_readdir F (migrationsPath F)))
        (\<lambda>es. wp (forEach (migrationDirs es) (applyMigration S F gen c)) (\<lambda>_. wp (await_call (sql_disconnect S c)) ?G ?E) ?E) ?E s2"
        by (rule silent_wp [OF s2(1), where R = "\<lambda>es _. es = entries (migrationsPath F)"])
           (use readdir_ok [OF s2(1)] s1 s2 loop in \<open>auto simp: same_but_def\<close>)
    qed (use s1 in simp)
  qed (use connect_ok [OF assms] in auto)
qed

lemma createDatabase_wp:
  assumes "Inv s"
  shows "wp (createDatabase S cfg name)
    (\<lambda>_ s'. Inv s' \<and> (\<exists>a. a \<in> {UrlClient (postgresUrl cfg), DefaultClient} \<and> L s' = (L s)(a := L s a @ [createStatement name])))
    (\<lambda>_ s'. Inv s') s" (is "wp _ ?G ?E s")
proof -
  have create: "wp (tryFinally (await_call (sql_execute S a (createStatement name)))
      (if a \<noteq> DefaultClient then await_call (sql_disconnect S a) else ret ())) ?G ?E s1"
    if "Inv s1" "L s1 = L s" "a \<in> {UrlClient (postgresUrl cfg), DefaultClient}" for a s1
  proof -
    obtain r s2 where x: "sql_execute S a (createStatement name) s1 = (r, s2)" by fastforce
    have s2: "Inv s2 \<and> L s2 = (case r of Inl _ \<Rightarrow> L s1 | Inr _ \<Rightarrow> (L s1)(a := L s1 a @ [createStatement name]))"
      by (rule execute_ok [OF that(1) x])
    obtain z s3 where z: "sql_disconnect S a s2 = (z, s3)" by fastforce
    then have s3: "Inv s3 \<and> L s3 = L s2" using s2 disconnect_ok by blast
    show ?thesis
      using that(2,3) x s2 z s3
      by (cases r; cases z; cases "a = DefaultClient")
         (auto simp: tryFinally_def wp_def run_bindA run_bindE run_await_call run_ret)
  qed
  have client: "wp (createDbClient S cfg) (\<lambda>a s1. Inv s1 \<and> L s1 = L s \<and> a \<in> {UrlClient (postgresUrl cfg), DefaultClient}) (\<lambda>_ _. False) s"
    unfolding createDbClient_def wp_tryCatch wp_bindE wp_ret
    by (rule silent_wp [OF assms, where R = "\<lambda>_ _. True"]) (use connect_ok [OF assms] in auto)
  show ?thesis
    unfolding createDatabase_def wp_bindE [of "createDbClient S cfg"]
    by (rule wp_conseq [OF client]) (use create in auto)
qed

end

end
