(* ===== verification/ProvisioningTheorems.thy ===== *)
theory ProvisioningTheorems
  imports Provisioning
begin

text \<open>
  The properties of tenant provisioning, with executions on a small world that logs the executed
  statements and rejects chosen ones.
\<close>

section \<open>A concrete world\<close>

record prov_world =
  pw_log :: "(prisma_client \<times> string) list"
  pw_ready :: "string list"
  pw_conns :: connections

definition prov_log :: "prov_world \<Rightarrow> prisma_client \<Rightarrow> string list" where
  "prov_log w c = map snd (filter (\<lambda>x. fst x = c) (pw_log w))"

text \<open>\<open>rej q\<close> is the message a statement is rejected with.\<close>

definition prov_sql :: "(string \<Rightarrow> string option) \<Rightarrow> prov_world sql_api" where
  "prov_sql rej = \<lparr>sql_connect = \<lambda>_ w. (Inr (), w), sql_disconnect = \<lambda>_ w. (Inr (), w),
     sql_execute = \<lambda>c q w. (case rej q of Some m \<Rightarrow> (Inl m, w) | None \<Rightarrow> (Inr (), w\<lparr>pw_log := pw_log w @ [(c, q)]\<rparr>)),
     sql_query = \<lambda>_ _ w. (Inr [], w)\<rparr>"

definition prov_text :: string where
  "prov_text = ''-- CreateTable'' @ [newline] @ ''CREATE TABLE p ('' @ [newline] @ ''  id TEXT'' @ [newline] @ '');'' @ [newline] @
     ''ALTER TABLE users ADD x TEXT;'' @ [newline]"

definition prov_files :: "string \<Rightarrow> string option" where
  "prov_files p = Some prov_text"

definition prov_entries :: "string \<Rightarrow> (string \<times> bool) list" where
  "prov_entries p = [(''readme'', False), (''1_p'', True)]"

definition prov_fs :: "prov_world fs_api" where
  "prov_fs = \<lparr>fs_readdir = \<lambda>p w. (Inr (prov_entries p), w), fs_exists = \<lambda>p w. (prov_files p \<noteq> None, w),
     fs_readFile = \<lambda>p w. (case prov_files p of None \<Rightarrow> Inl ''ENOENT'' | Some t \<Rightarrow> Inr t, w), fs_cwd = ''/app''\<rparr>"

definition prov_gen :: "prov_world \<Rightarrow> string \<times> prov_world" where
  "prov_gen w = (''id-1'', w)"

definition prov_user :: "prov_world user_api" where
  "prov_user = (let no = \<lambda>w. (Inl ''unavailable'', w) in \<lparr>user_findFirst_login = \<lambda>_ _ _. no, user_findFirst_tenant = \<lambda>_ _. no,
     user_create = \<lambda>_ _. \<lambda>w. (Inl ''unavailable'', w), user_findMany = \<lambda>_ w. (Inr [], w), user_findMany_ready = \<lambda>_ w. (Inr [''Acme''], w),
     user_findUnique_id = \<lambda>_ _. no, user_findUnique_email = \<lambda>_ _. no, user_findUnique_username = \<lambda>_ _. no,
     user_update = \<lambda>_ uid _ w. (Inr \<lparr>u_id = uid, u_email = [], u_username = [], u_password = [], u_role = ADMIN,
       u_tenantCode = Some ''acme'', u_isDatabaseCreated = True, u_createdAt = 0, u_updatedAt = 0\<rparr>, w\<lparr>pw_ready := uid # pw_ready w\<rparr>),
     user_delete = \<lambda>_ _ w. (Inl ''unavailable'', w)\<rparr>)"

definition prov_config :: config where
  "prov_config = \<lparr>cf_DATABASE_URL = Some ''postgresql://u@h/main'', cf_DATABASE_PREFIX = None, cf_parseUrl = \<lambda>_. None\<rparr>"

definition prov_start :: prov_world where
  "prov_start = \<lparr>pw_log = [], pw_ready = [], pw_conns = Map.empty\<rparr>"

interpretation prov: sql_log "prov_sql rej" prov_fs prov_gen "\<lambda>_. True" prov_log prov_files prov_entries
  by unfold_locales
     (auto simp: prov_sql_def prov_fs_def prov_gen_def prov_log_def fun_eq_iff split: option.splits sum.split)

text \<open>A handler that never throws; without rejected statements provisioning is one.\<close>

definition never_throws :: "('s, 'a) handler \<Rightarrow> bool" where
  "never_throws m \<longleftrightarrow> (\<forall>w. \<exists>x w'. run m w = (Inr x, w'))"

lemma never_throws_await: "(\<And>w. \<not> isl (fst (g w))) \<Longrightarrow> never_throws (await_call g)"
  unfolding never_throws_def run_await_call by (metis isl_def map_sum.simps(2) sum.exhaust)

lemma never_throwsE:
  assumes "never_throws m"
  obtains x w' where "run m w = (Inr x, w')"
  using assms unfolding never_throws_def by blast

lemma never_throws_bindE:
  assumes "never_throws m" and "\<And>x. never_throws (k x)"
  shows "never_throws (bindE m k)"
  unfolding never_throws_def
proof
  fix w
  obtain x w1 where "run m w = (Inr x, w1)" using assms(1) by (rule never_throwsE)
  moreover obtain y w2 where "run (k x) w1 = (Inr y, w2)" using assms(2) by (rule never_throwsE)
  ultimately show "\<exists>y w'. run (bindE m k) w = (Inr y, w')" by (simp add: run_bindE)
qed

lemma never_throws_tryCatch:
  assumes "never_throws m"
  shows "never_throws (tryCatch m h)"
  unfolding never_throws_def
proof
  fix w
  obtain x w1 where "run m w = (Inr x, w1)" using assms by (rule never_throwsE)
  then show "\<exists>y w'. run (tryCatch m h) w = (Inr y, w')" by (simp add: run_tryCatch)
qed

lemma never_throws_tryFinally:
  assumes "never_throws m" and "never_throws l"
  shows "never_throws (tryFinally m l)"
  unfolding never_throws_def
proof
  fix w
  obtain x w1 where "run m w = (Inr x, w1)" using assms(1) by (rule never_throwsE)
  moreover obtain y w2 where "run l w1 = (Inr y, w2)" using assms(2) by (rule never_throwsE)
  ultimately show "\<exists>y w'. run (tryFinally m l) w = (Inr y, w')" by (simp add: tryFinally_def run_bindA run_bindE)
qed

lemmas never_throws_intros = never_throws_await never_throws_bindE never_throws_tryCatch never_throws_tryFinally

lemma never_throws_simple [simp, intro]: "never_throws (ret x)" "never_throws (sync f)"
  by (simp_all add: never_throws_def async_simps)

lemma never_throws_if: "(b \<Longrightarrow> never_throws m) \<Longrightarrow> (\<not> b \<Longrightarrow> never_throws n) \<Longrightarrow> never_throws (if b then m else n)"
  by simp

lemma never_throws_forEach: "(\<And>x. never_throws (body x)) \<Longrightarrow> never_throws (forEach xs body)"
  by (induction xs) (simp_all add: never_throws_intros)

lemma prov_calls:
  "\<not> isl (fst (sql_connect (prov_sql (\<lambda>_. None)) c w))" "\<not> isl (fst (sql_disconnect (prov_sql (\<lambda>_. None)) c w))"
  "\<not> isl (fst (sql_execute (prov_sql (\<lambda>_. None)) c q w))" "\<not> isl (fst (sql_query (prov_sql (\<lambda>_. None)) c q w))"
  "\<not> isl (fst (fs_readdir prov_fs p w))" "\<not> isl (fst (fs_readFile prov_fs p w))"
  by (simp_all add: prov_sql_def prov_fs_def prov_files_def)

lemma prov_never_throws: "never_throws (createAndMigrateTenantDatabase (prov_sql (\<lambda>_. None)) prov_fs prov_gen cfg tc)"
  unfolding createAndMigrateTenantDatabase_def createDatabase_def createDbClient_def migrateTenant_def applyMigration_def runStatements_def
  by (intro never_throws_intros never_throws_simple never_throws_if never_throws_forEach prov_calls)

section \<open>Properties\<close>

lemma tenant_not_admin:
  assumes "provisionedName cfg tc \<noteq> ''postgres''"
  shows "UrlClient (provisionedUrl cfg tc) \<notin> {UrlClient (postgresUrl cfg), DefaultClient}"
proof -
  have "provisionedUrl cfg tc \<noteq> postgresUrl cfg"
  proof
    assume "provisionedUrl cfg tc = postgresUrl cfg"
    then have "provisionedName cfg tc @ queryParams cfg = ''postgres'' @ queryParams cfg"
      by (simp add: provisionedUrl_def postgresUrl_def)
    then show False using assms by (simp only: append_same_eq)
  qed
  then show ?thesis by simp
qed



text \<open>
  C38: A conflict during migration is reported as success: when the new database was created and a
  statement of a migration is then rejected with a message containing \<open>already exists\<close>, the handler
  drops the database again, swallows the error and marks the account's database as created.
\<close>

theorem conflict_marks_dropped_ready:
  assumes "run (createDatabase S cfg (provisionedName cfg (dm_tenantCode d))) s = (Inr (), s0)"
    and "run (migrateTenant S F gen (UrlClient (provisionedUrl cfg (dm_tenantCode d)))) s0 = (Inl e, s1)"
    and "str_includes (message e) ''already exists''"
    and "sql_execute S DefaultClient (dropDatabase (provisionedName cfg (dm_tenantCode d))) s1 = (Inr (), s2)"
    and "user_update U DefaultClient (dm_userId d)
      \<lparr>ud_email = None, ud_username = None, ud_password = None, ud_role = None, ud_isDatabaseCreated = Some True\<rparr> s2 = (Inr u, s3)"
  shows "run (handleDatabaseCreation U S F gen cfg d) s = (Inr (), s3)"
  using assms by (simp add: handleDatabaseCreation_def createAndMigrateTenantDatabase_def rethrow_run async_simps)

definition prov_conflict :: "string \<Rightarrow> string option" where
  "prov_conflict q = (if q = createMigrationsTable then Some ''relation already exists'' else None)"

lemma prov_conflict_simps:
  "prov_conflict createMigrationsTable = Some ''relation already exists''"
  "prov_conflict (createStatement n) = None" "prov_conflict (dropDatabase n) = None"
  by (simp_all add: prov_conflict_def createMigrationsTable_def createStatement_def dropDatabase_def template_def newline_def)

theorem conflict_marks_dropped_ready_witness:
  "run (handleDatabaseCreation prov_user (prov_sql prov_conflict) prov_fs prov_gen prov_config \<lparr>dm_userId = ''u1'', dm_tenantCode = ''Acme''\<rparr>) prov_start =
    (Inr (), \<lparr>pw_log = [(UrlClient (postgresUrl prov_config), createStatement (provisionedName prov_config ''Acme'')),
       (DefaultClient, dropDatabase (provisionedName prov_config ''Acme''))], pw_ready = [''u1''], pw_conns = Map.empty\<rparr>)"
proof (rule conflict_marks_dropped_ready)
  let ?d = "\<lparr>dm_userId = ''u1'', dm_tenantCode = ''Acme''\<rparr>"
  let ?s0 = "\<lparr>pw_log = [(UrlClient (postgresUrl prov_config), createStatement (provisionedName prov_config ''Acme''))], pw_ready = [], pw_conns = Map.empty\<rparr>"
  show "run (createDatabase (prov_sql prov_conflict) prov_config (provisionedName prov_config (dm_tenantCode ?d))) prov_start = (Inr (), ?s0)"
    by (simp add: createDatabase_def createDbClient_def tryFinally_def async_simps run_bindA prov_sql_def prov_start_def prov_conflict_simps)
  show "run (migrateTenant (prov_sql prov_conflict) prov_fs prov_gen (UrlClient (provisionedUrl prov_config (dm_tenantCode ?d)))) ?s0 =
      (Inl (RaisedError ''relation already exists''), ?s0)"
    by (simp add: migrateTenant_def async_simps prov_sql_def prov_conflict_simps)
  show "str_includes (message (RaisedError ''relation already exists'')) ''already exists''" by code_simp
  show "sql_execute (prov_sql prov_conflict) DefaultClient (dropDatabase (provisionedName prov_config (dm_tenantCode ?d))) ?s0 =
    (Inr (), ?s0\<lparr>pw_log := [(UrlClient (postgresUrl prov_config), createStatement (provisionedName prov_config ''Acme'')),
       (DefaultClient, dropDatabase (provisionedName prov_config ''Acme''))]\<rparr>)"
    by (simp add: prov_sql_def prov_conflict_simps)
qed (simp add: prov_user_def Let_def)

text \<open>
  Without \<open>DATABASE_PREFIX\<close> the database created for a tenant is never the one its requests are sent
  to: it is the database of the tenant whose code has a leading underscore.
\<close>

lemma default_prefix_mismatch:
  assumes "cf_DATABASE_PREFIX cfg = None"
  shows "provisionedUrl cfg tc = databaseUrl cfg tc' \<longleftrightarrow> toLowerCase tc' = CHR ''_'' # toLowerCase tc"
proof -
  have "provisionedUrl cfg tc = databaseUrl cfg tc' \<longleftrightarrow>
      (''_'' @ toLowerCase tc) @ queryParams cfg = toLowerCase tc' @ queryParams cfg"
    using assms by (simp add: provisionedUrl_def databaseUrl_def provisionedName_def databaseName_def consumerPrefix_def
        databasePrefix_def env_or_def)
  also have "\<dots> \<longleftrightarrow> ''_'' @ toLowerCase tc = toLowerCase tc'" by (rule append_same_eq)
  finally show ?thesis by auto
qed

end
