(* ===== verification/ServiceTheorems.thy ===== *)
theory ServiceTheorems
  imports OrderTheorems
begin

text \<open>
  Properties of the two shared services: the connections of \<open>DatabaseManagerService\<close> and the
  publishers of \<open>RabbitMQService\<close> while the broker is reachable.
\<close>

section \<open>The connection map\<close>

text \<open>The calls on the manager that answer with a client, and those that close one.\<close>

datatype manager_op = Get "string option" | GetDefault | Disconnect string

primrec manager_run :: "config \<Rightarrow> manager_op list \<Rightarrow> connections \<Rightarrow> prisma_client list" where
  "manager_run cfg [] cs = []"
| "manager_run cfg (p # ps) cs =
    (case p of
       Get tc \<Rightarrow> (case getClient cfg tc cs of (c, cs') \<Rightarrow> c # manager_run cfg ps cs')
     | GetDefault \<Rightarrow> (case getDefaultClient cs of (c, cs') \<Rightarrow> c # manager_run cfg ps cs')
     | Disconnect tc \<Rightarrow> manager_run cfg ps (disconnectTenant tc cs))"

text \<open>The specification has no state: a tenant's client is the one of its database.\<close>

definition client_spec :: "config \<Rightarrow> string option \<Rightarrow> prisma_client" where
  "client_spec cfg tc = (if truthy tc then UrlClient (databaseUrl cfg (the tc)) else DefaultClient)"

fun manager_spec :: "config \<Rightarrow> manager_op \<Rightarrow> prisma_client list" where
  "manager_spec cfg (Get tc) = [client_spec cfg tc]"
| "manager_spec cfg GetDefault = [DefaultClient]"
| "manager_spec cfg (Disconnect tc) = []"

fun uses_default_key :: "manager_op \<Rightarrow> bool" where
  "uses_default_key (Get tc) = (tc = Some defaultKey)"
| "uses_default_key _ = False"

definition conns_sim :: "config \<Rightarrow> connections \<Rightarrow> bool" where
  "conns_sim cfg cs \<longleftrightarrow> conns_ok cfg cs \<and> cs defaultKey \<in> {None, Some DefaultClient}"

lemma sim_default:
  "conns_sim cfg cs \<Longrightarrow> fst (getDefaultClient cs) = DefaultClient \<and> conns_sim cfg (snd (getDefaultClient cs))"
  by (auto simp: conns_sim_def getDefaultClient_def conns_ok_def split: option.splits)

lemma sim_get:
  assumes "conns_sim cfg cs" and "tc \<noteq> Some defaultKey"
  shows "fst (getClient cfg tc cs) = client_spec cfg tc \<and> conns_sim cfg (snd (getClient cfg tc cs))"
proof (cases "truthy tc")
  case True
  then obtain t where t: "tc = Some t" "t \<noteq> []" by (auto simp: truthy_def)
  then have "fst (getClient cfg tc cs) = client_spec cfg tc"
    using getClient_tenant [of cfg cs t] assms True by (simp add: conns_sim_def client_spec_def)
  moreover have "snd (getClient cfg tc cs) defaultKey = cs defaultKey"
    using t assms(2) by (cases t) (auto simp: getClient_def Let_def split: option.split)
  ultimately show ?thesis using assms(1) getClient_ok [of cfg cs tc] by (simp add: conns_sim_def)
next
  case False
  then have "getClient cfg tc cs = getDefaultClient cs"
    by (auto simp: truthy_def getClient_def split: option.split list.split)
  then show ?thesis using sim_default [OF assms(1)] False by (simp add: client_spec_def)
qed

lemma sim_disconnect: "conns_sim cfg cs \<Longrightarrow> conns_sim cfg (disconnectTenant tc cs)"
  using disconnectTenant_ok [of cfg cs tc] by (auto simp: conns_sim_def disconnectTenant_def split: option.split)

lemma manager_refines:
  "conns_sim cfg cs \<Longrightarrow> \<forall>p\<in>set ps. \<not> uses_default_key p \<Longrightarrow> manager_run cfg ps cs = concat (map (manager_spec cfg) ps)"
proof (induction ps arbitrary: cs)
  case (Cons p ps)
  show ?case
  proof (cases p)
    case (Get tc)
    then show ?thesis using Cons.prems Cons.IH sim_get [of cfg cs tc] by (simp add: split_beta)
  next
    case GetDefault
    then show ?thesis using Cons.prems Cons.IH sim_default [of cfg cs] by (simp add: split_beta)
  next
    case (Disconnect tc)
    then show ?thesis using Cons.prems Cons.IH sim_disconnect [of cfg cs tc] by simp
  qed
qed simp



text \<open>The reserved code breaks this: it makes every later default client a tenant's client.\<close>

lemma default_key_poisoned:
  "manager_run cfg [Get (Some defaultKey), GetDefault] Map.empty =
    [UrlClient (databaseUrl cfg defaultKey), UrlClient (databaseUrl cfg defaultKey)]"
  by (simp add: getClient_def getDefaultClient_def defaultKey_def Let_def)

section \<open>Publishing while the broker is reachable\<close>

text \<open>
  No call rejects, and the fields of the service are ordinary memory.
\<close>

locale broker_up = broker_store A Inv Q
  for A :: "'s amqp_api" and Inv :: "'s \<Rightarrow> bool" and Q :: "'s \<Rightarrow> string \<Rightarrow> string list" +
  assumes connect_up: "Inv s \<Longrightarrow> \<not> isl (fst (amqp_connect A url s)) \<and> rmq_get A (snd (amqp_connect A url s)) = rmq_get A s"
    and createChannel_up: "Inv s \<Longrightarrow> \<not> isl (fst (amqp_createChannel A s)) \<and> rmq_get A (snd (amqp_createChannel A s)) = rmq_get A s"
    and assertQueue_up: "Inv s \<Longrightarrow> \<not> isl (fst (amqp_assertQueue A q s)) \<and> rmq_get A (snd (amqp_assertQueue A q s)) = rmq_get A s"
    and send_up: "Inv s \<Longrightarrow> \<not> isl (fst (amqp_sendToQueue A q m s))"
    and put_get: "rmq_get A (rmq_put A v s) = v"
begin

lemma resolved_wp:
  assumes "\<not> isl (fst (f s))" and "\<And>x. fst (f s) = Inr x \<Longrightarrow> G x (snd (f s))"
  shows "wp (await_call f) G E s"
  using assms by (cases "fst (f s)") (auto simp: wp_await_call)

lemma attempt_up:
  assumes "Inv s"
  shows "wp (attemptConnection A) (\<lambda>_ s'. Inv s' \<and> Q s' = Q s \<and> rq_channel (rmq_get A s')) (\<lambda>_ _. False) s"
  unfolding attemptConnection_def set_connection_def set_channel_def wp_simps
  using assms connect_up createChannel_up assertQueue_up put_get connect_Q createChannel_Q assertQueue_Q rmq_put_Q
  by (intro resolved_wp) simp_all

lemma wait_up:
  assumes "Inv s" and "rq_channel (rmq_get A s) \<or> \<not> rq_connection (rmq_get A s)"
  shows "wp (waitForConnection A) (\<lambda>_ s'. Inv s' \<and> Q s' = Q s) (\<lambda>_ _. False) s"
proof (cases "rq_channel (rmq_get A s)")
  case True
  then show ?thesis
    using waitLoop_channel [of A s 9] assms(1) by (simp add: wp_def waitForConnection_def eval_nat_numeral del: waitLoop.simps)
next
  case False
  have again: "wp (bindE sleep (\<lambda>_. waitLoop A 9)) (\<lambda>_ s'. Inv s' \<and> Q s' = Q s) (\<lambda>_ _. False) s1"
    if "Inv s1 \<and> Q s1 = Q s \<and> rq_channel (rmq_get A s1)" for s1
  proof -
    have "run (waitLoop A 9) s1 = (Inr (), s1)" using waitLoop_channel [of A s1 8] that by (simp add: eval_nat_numeral del: waitLoop.simps)
    then show ?thesis using that by (simp add: wp_bindE sleep_def wp_sync) (simp add: wp_def)
  qed
  have "wp (attemptConnection A) (\<lambda>_. wp (bindE sleep (\<lambda>_. waitLoop A 9)) (\<lambda>_ s'. Inv s' \<and> Q s' = Q s) (\<lambda>_ _. False))
      (\<lambda>_. wp (bindE sleep (\<lambda>_. waitLoop A 9)) (\<lambda>_ s'. Inv s' \<and> Q s' = Q s) (\<lambda>_ _. False)) s"
    by (rule wp_conseq [OF attempt_up [OF assms(1)]]) (simp_all add: again)
  then have "wp (waitLoop A (Suc 9)) (\<lambda>_ s'. Inv s' \<and> Q s' = Q s) (\<lambda>_ _. False) s"
    using False assms(2) unfolding waitLoop.simps
    by (simp add: wp_bindE [of "sync f" for f] wp_sync wp_bindE [of "tryCatch m h" for m h] wp_tryCatch wp_ret)
  moreover have "waitForConnection A = waitLoop A (Suc 9)" unfolding waitForConnection_def by (rule arg_cong [where f = "waitLoop A"]) simp
  ultimately show ?thesis by simp
qed

lemma publish_up:
  assumes "Inv s" and "rq_channel (rmq_get A s) \<or> \<not> rq_connection (rmq_get A s)"
  shows "\<not> isl (fst (run (publishOrderProcessingMessage A d) s))"
proof -
  have "wp (publishOrderProcessingMessage A d) (\<lambda>_ _. True) (\<lambda>_ _. False) s"
    unfolding publishOrderProcessingMessage_def rethrow_wp wp_bindE wp_ret
    by (rule wp_conseq [OF wait_up [OF assms]], intro resolved_wp)
       (use assertQueue_up send_up assertQueue_Q in \<open>simp_all\<close>)
  then show ?thesis by (auto simp: wp_def split: prod.splits sum.splits)
qed

end


lemma ref_up: "broker_up ref_amqp (\<lambda>s. ref_inv s \<and> ref_tables s = t \<and> rs_up s) rs_queues"
  by unfold_locales
     (auto simp: ref_amqp_def when_up_def ref_inv_def ref_tables_def fun_eq_iff split: if_splits)

interpretation ref_up: broker_up ref_amqp "\<lambda>s. ref_inv s \<and> ref_tables s = t \<and> rs_up s" rs_queues
  by (rule ref_up)


end
