(* ===== verification/HttpTheorems.thy ===== *)
theory HttpTheorems
  imports Http
begin

text \<open>
  What the log lines of the HTTP layer reveal: the request log and the masked database URLs are
  unchanged when only a secret changes.
\<close>

section \<open>The request log\<close>

text \<open>
  Two bodies with the same properties whose values differ at most in the secret ones, where both
  have a secret.
\<close>

definition secretKeys :: "string list" where
  "secretKeys = [''password'', ''token'']"

fun same_but_secret :: "string \<times> json \<Rightarrow> string \<times> json \<Rightarrow> bool" where
  "same_but_secret (k, v) (k', v') = (k = k' \<and> (v = v' \<or> k \<in> set secretKeys \<and> js_truthy v \<and> js_truthy v'))"

definition hide :: "string \<Rightarrow> string \<times> json \<Rightarrow> string \<times> json" where
  "hide k kv = (if fst kv = k \<and> js_truthy (snd kv) then (k, redacted) else kv)"

lemma fst_hide [simp]: "fst (hide k kv) = fst kv"
  by (simp add: hide_def)

lemma hide_absent: "k \<notin> fst ` set kvs \<Longrightarrow> map (hide k) kvs = kvs"
  by (induction kvs) (auto simp: hide_def)

lemma js_put_hide:
  "distinct (map fst kvs) \<Longrightarrow> map_of kvs k = Some v \<Longrightarrow> js_truthy v \<Longrightarrow> js_put k redacted kvs = map (hide k) kvs"
  by (induction kvs) (auto simp: hide_def hide_absent split: if_splits)

lemma hide_falsy:
  "distinct (map fst kvs) \<Longrightarrow> map_of kvs k = Some v \<Longrightarrow> \<not> js_truthy v \<Longrightarrow> map (hide k) kvs = kvs"
  by (induction kvs) (auto simp: hide_def hide_absent split: if_splits)

lemma redact_hide: "distinct (map fst kvs) \<Longrightarrow> redact k kvs = map (hide k) kvs"
  using hide_absent [of k kvs] by (auto simp: redact_def js_put_hide hide_falsy map_of_eq_None_iff split: option.split)

lemma hide_secrets:
  "same_but_secret x y \<Longrightarrow> hide ''token'' (hide ''password'' x) = hide ''token'' (hide ''password'' y)"
  by (cases x; cases y) (auto simp: hide_def secretKeys_def)

lemma redact_secrets:
  assumes "distinct (map fst kvs)" and "list_all2 same_but_secret kvs kvs'"
  shows "redact ''token'' (redact ''password'' kvs) = redact ''token'' (redact ''password'' kvs')"
proof -
  have keys: "map fst kvs = map fst kvs'" using assms(2) by (induction rule: list_all2_induct) auto
  have "map (\<lambda>x. hide ''token'' (hide ''password'' x)) kvs = map (\<lambda>x. hide ''token'' (hide ''password'' x)) kvs'"
    using assms(2) by (induction rule: list_all2_induct) (auto simp: hide_secrets simp del: same_but_secret.simps)
  then show ?thesis using assms(1) keys by (simp add: redact_hide comp_def)
qed

text \<open>
  C30: The request log reveals nothing of a password or token sent in the body: for two requests that
  differ only in the value of such properties, both times a value that counts as present, the
  interceptor is the same program around the same handler, so every line it ever writes is the same.
\<close>

theorem request_log_redacts:
  assumes "hr_body hq = Some (JObj kvs)" and "distinct (map fst kvs)" and "list_all2 same_but_secret kvs kvs'"
  shows "logIntercept E hq handle = logIntercept E (hq\<lparr>hr_body := Some (JObj kvs')\<rparr>) handle"
proof -
  have "kvs = [] \<longleftrightarrow> kvs' = []" using assms(3) by (auto dest: list_all2_lengthD)
  then have "buildRequestDetails (Some (JObj kvs)) q p = buildRequestDetails (Some (JObj kvs')) q p" for q p
    using redact_secrets [OF assms(2,3)] by (simp add: buildRequestDetails_def)
  then have "requestLine ts hq = requestLine ts (hq\<lparr>hr_body := Some (JObj kvs')\<rparr>)" for ts
    using assms(1) by (simp add: requestLine_def logUsername_def)
  then show ?thesis by (simp add: logIntercept_def responseLine_def errorLine_def logUsername_def)
qed

theorem request_log_redacts_witness:
  "let req = \<lparr>rq_ip = ''::1'', rq_params = [], rq_query = [], rq_user = None\<rparr>;
       hq = \<lparr>hr_method = ''POST'', hr_url = ''/api/auth/login'', hr_userAgent = None, hr_authorization = None,
         hr_body = Some (JObj [(''email'', JStr ''a@x.io''), (''password'', JStr ''secret1'')]), hr_statusCode = 201, hr_request = req\<rparr>;
       E = \<lparr>we_now = \<lambda>s. (0, s), we_log = (#), we_setHeader = \<lambda>_ _ s. s, we_getCounters = \<lambda>_. Map.empty, we_putCounters = \<lambda>_ s. s\<rparr>
   in logIntercept E hq (ret ()) =
      logIntercept E (hq\<lparr>hr_body := Some (JObj [(''email'', JStr ''a@x.io''), (''password'', JStr ''other'')])\<rparr>) (ret ())"
  unfolding Let_def
  by (rule request_log_redacts [where kvs = "[(''email'', JStr ''a@x.io''), (''password'', JStr ''secret1'')]"])
     (simp_all add: secretKeys_def)

text \<open>
  The lines repeat the URL as it was sent: a password in the query string is taken out of the list
  of query arguments but stays in the URL.
\<close>

lemma url_logged: "\<exists>pre post. requestLine ts hq = pre @ hr_url hq @ post"
  unfolding requestLine_def Let_def
  by (rule exI [of _ "''['' @ ts @ ''] '' @ hr_method hq @ '' ''"], rule exI) (simp only: append_assoc append_Cons append_Nil)

section \<open>Database URLs\<close>

text \<open>
  Two URLs that differ only in a non-empty password: as \<open>URL\<close> objects when they parse, as texts
  \<open>...:password@...\<close> when they do not.
\<close>

definition same_but_password :: "'u url_api \<Rightarrow> string \<Rightarrow> string \<Rightarrow> bool" where
  "same_but_password N a b \<longleftrightarrow>
    (\<exists>u q. url_new N a = Some u \<and> url_new N b = Some (url_setPassword N q u) \<and>
       url_getPassword N u \<noteq> [] \<and> url_getPassword N (url_setPassword N q u) \<noteq> []) \<or>
    (url_new N a = None \<and> url_new N b = None \<and>
     (\<exists>pre pw pw' post. a = pre @ '':'' @ pw @ ''@'' @ post \<and> b = pre @ '':'' @ pw' @ ''@'' @ post \<and>
        CHR ''@'' \<notin> set pre \<and> pw \<noteq> [] \<and> pw' \<noteq> [] \<and> list_all plainChar pw \<and> list_all plainChar pw'))"

lemma plain_until:
  assumes "list_all plainChar pw" and "\<not> plainChar c"
  shows "takeWhile plainChar (pw @ c # post) = pw \<and> dropWhile plainChar (pw @ c # post) = c # post"
  using assms by (induction pw) auto

lemma replace_password:
  assumes "CHR ''@'' \<notin> set pre" and "pw \<noteq> []" and "list_all plainChar pw"
  shows "replaceCredentials (pre @ '':'' @ pw @ ''@'' @ post) = pre @ '':***@'' @ post"
  using assms(1)
proof (induction pre)
  case Nil
  then show ?case using assms(2) plain_until [OF assms(3), of "CHR ''@''" post] by (simp add: plainChar_def startsWith_def)
next
  case (Cons c pre)
  have "\<not> startsWith (dropWhile plainChar (pre @ '':'' @ pw @ ''@'' @ post)) ''@''"
    using Cons.prems by (induction pre) (auto simp: plainChar_def startsWith_def)
  then show ?case using Cons by simp
qed

text \<open>
  The log lines that name the database in use do not depend on its password: for two URLs that
  differ only in a non-empty password the masked URL is the same, both when \<open>URL\<close> can parse them and
  when the pattern is used, for a password without colon and at sign.
\<close>

theorem masked_url_hides_password:
  assumes "\<And>p q u. url_setPassword N p (url_setPassword N q u) = url_setPassword N p u" and "same_but_password N a b"
  shows "maskDatabaseUrl N a = maskDatabaseUrl N b"
  using assms(2) unfolding same_but_password_def
proof (elim disjE exE conjE)
  fix u q
  assume "url_new N a = Some u" "url_new N b = Some (url_setPassword N q u)"
    "url_getPassword N u \<noteq> []" "url_getPassword N (url_setPassword N q u) \<noteq> []"
  then show ?thesis using assms(1) by (simp add: maskDatabaseUrl_def)
next
  fix pre pw pw' post
  assume "url_new N a = None" "url_new N b = None" and ab: "a = pre @ '':'' @ pw @ ''@'' @ post" "b = pre @ '':'' @ pw' @ ''@'' @ post"
    and "CHR ''@'' \<notin> set pre" "pw \<noteq> []" "pw' \<noteq> []" "list_all plainChar pw" "list_all plainChar pw'"
  then show ?thesis
    using replace_password [of pre pw post] replace_password [of pre pw' post] by (simp add: maskDatabaseUrl_def)
qed

text \<open>A URL object with user, password and host, for concrete runs.\<close>

definition ref_url :: "(string \<times> string \<times> string) url_api" where
  "ref_url = \<lparr>
     url_new = \<lambda>t. let r = drop 13 t; u = takeWhile plainChar r; p = takeWhile plainChar (drop (Suc (length u)) r)
       in if startsWith t ''postgresql://'' \<and> startsWith (drop (length u) r) '':'' then Some (u, p, drop (length u + length p + 2) r) else None,
     url_getPassword = \<lambda>(u, p, h). p,
     url_setPassword = \<lambda>q (u, p, h). (u, q, h),
     url_toString = \<lambda>(u, p, h). ''postgresql://'' @ u @ '':'' @ p @ ''@'' @ h\<rparr>"

theorem masked_url_hides_password_witness:
  "maskDatabaseUrl ref_url ''postgresql://app:hunter2@db:5432/main'' = ''postgresql://app:***@db:5432/main'' \<and>
   maskDatabaseUrl ref_url ''postgresql://app:hunter2@db:5432/main'' = maskDatabaseUrl ref_url ''postgresql://app:sesame@db:5432/main'' \<and>
   maskDatabaseUrl ref_url ''mysql://app:hunter2@db'' = maskDatabaseUrl ref_url ''mysql://app:sesame@db''"
proof (intro conjI)
  show "maskDatabaseUrl ref_url ''postgresql://app:hunter2@db:5432/main'' = ''postgresql://app:***@db:5432/main''" by code_simp
  have set: "url_setPassword ref_url p (url_setPassword ref_url q u) = url_setPassword ref_url p u" for p q u
    by (cases u) (simp add: ref_url_def)
  have "same_but_password ref_url ''postgresql://app:hunter2@db:5432/main'' ''postgresql://app:sesame@db:5432/main''"
    unfolding same_but_password_def
    by (intro disjI1 exI [of _ "(''app'', ''hunter2'', ''db:5432/main'')"] exI [of _ "''sesame''"]) code_simp
  with set show "maskDatabaseUrl ref_url ''postgresql://app:hunter2@db:5432/main'' = maskDatabaseUrl ref_url ''postgresql://app:sesame@db:5432/main''"
    by (rule masked_url_hides_password)
  have "same_but_password ref_url ''mysql://app:hunter2@db'' ''mysql://app:sesame@db''"
    unfolding same_but_password_def
    by (intro disjI2 conjI exI [of _ "''mysql://app''"] exI [of _ "''hunter2''"] exI [of _ "''sesame''"] exI [of _ "''db''"])
       (simp_all add: ref_url_def startsWith_def plainChar_def)
  with set show "maskDatabaseUrl ref_url ''mysql://app:hunter2@db'' = maskDatabaseUrl ref_url ''mysql://app:sesame@db''"
    by (rule masked_url_hides_password)
qed

text \<open>
  When a URL does not parse, a password with a colon or an at sign is only masked in part.
\<close>

lemma partly_masked:
  "replaceCredentials ''postgresql://app:p@ss@db'' = ''postgresql://app:***@ss@db''"
  "replaceCredentials ''postgresql://app:se:cret@db'' = ''postgresql://app:se:***@db''"
  by code_simp+

end
