(* ===== verification/Routes.thy ===== *)
theory Routes
  imports Http Products Auth Provisioning
begin

text \<open>
  The HTTP endpoints: for each method of the five controllers its decorators, as a \<open>route\<close>, and the
  whole way of a request through guards, interceptors, parameter decorators and the handler, to the
  JSON value that is sent. The framework's order is the documented one: guards, then the global
  interceptors, then those of the controller from left to right, then parameters and pipes, then the
  method; results pass the interceptors in reverse order. What the validation pipe makes of a body
  is an argument: its exception or the DTO.
\<close>

section \<open>JSON of the results\<close>

text \<open>
  \<open>Decimal.toJSON\<close> belongs to a library and is the argument \<open>D\<close>; dates are written by
  \<open>toISOString\<close>, an absent optional column is \<open>null\<close>, an undefined property is left out.
\<close>

definition dateJson :: "int \<Rightarrow> json" where
  "dateJson t = JStr (toISOString t)"

definition nullable :: "string option \<Rightarrow> json" where
  "nullable v = (case v of None \<Rightarrow> JNull | Some s \<Rightarrow> JStr s)"

definition statusName :: "OrderStatus \<Rightarrow> string" where
  "statusName st = (case st of PENDING \<Rightarrow> ''PENDING'' | WAITING_FOR_PAYMENT \<Rightarrow> ''WAITING_FOR_PAYMENT''
     | PAID \<Rightarrow> ''PAID'' | COMPLETE \<Rightarrow> ''COMPLETE'' | CANCELLED \<Rightarrow> ''CANCELLED'')"

definition productJson :: "(rat \<Rightarrow> string) \<Rightarrow> product_row \<Rightarrow> json" where
  "productJson D p = JObj [(''id'', JStr (p_id p)), (''name'', JStr (p_name p)), (''description'', nullable (p_description p)),
     (''price'', JStr (D (p_price p))), (''stock'', JInt (p_stock p)),
     (''createdAt'', dateJson (p_createdAt p)), (''updatedAt'', dateJson (p_updatedAt p))]"

definition productInfoJson :: "(rat \<Rightarrow> string) \<Rightarrow> product_info \<Rightarrow> json" where
  "productInfoJson D p = JObj [(''id'', JStr (pi_id p)), (''name'', JStr (pi_name p)),
     (''description'', nullable (pi_description p)), (''price'', JStr (D (pi_price p)))]"

definition itemJson :: "(rat \<Rightarrow> string) \<Rightarrow> item_full \<Rightarrow> json" where
  "itemJson D x = (case x of (i, p) \<Rightarrow> JObj [(''id'', JStr (i_id i)), (''orderId'', JStr (i_orderId i)),
     (''productId'', JStr (i_productId i)), (''quantity'', JInt (i_quantity i)), (''price'', JStr (D (i_price i))),
     (''createdAt'', dateJson (i_createdAt i)), (''updatedAt'', dateJson (i_updatedAt i)), (''product'', productInfoJson D p)])"

definition orderProps :: "(rat \<Rightarrow> string) \<Rightarrow> order_full \<Rightarrow> (string \<times> json) list" where
  "orderProps D f = (case f of (r, xs) \<Rightarrow> [(''id'', JStr (o_id r)), (''userId'', JStr (o_userId r)),
     (''status'', JStr (statusName (o_status r))), (''total'', JStr (D (o_total r))),
     (''paymentId'', nullable (o_paymentId r)), (''transactionId'', nullable (o_transactionId r)),
     (''createdAt'', dateJson (o_createdAt r)), (''updatedAt'', dateJson (o_updatedAt r)),
     (''items'', JArr (map (itemJson D) xs))])"

definition orderJson :: "(rat \<Rightarrow> string) \<Rightarrow> order_full \<Rightarrow> json" where
  "orderJson D f = JObj (orderProps D f)"

text \<open>\<open>{...order, tenantCode: tenant.tenantCode}\<close>.\<close>

definition tenantOrderJson :: "(rat \<Rightarrow> string) \<Rightarrow> order_full \<times> string \<Rightarrow> json" where
  "tenantOrderJson D x = JObj (orderProps D (fst x) @ [(''tenantCode'', JStr (snd x))])"

text \<open>The numbers of a page are integers or, for a page beyond every bound, written as \<open>null\<close>.\<close>

definition numJson :: "jsnum \<Rightarrow> json" where
  "numJson v = (case v of Num r \<Rightarrow> JInt \<lfloor>r\<rfloor> | _ \<Rightarrow> JNull)"

definition pageJson :: "('a \<Rightarrow> json) \<Rightarrow> 'a page_result \<Rightarrow> json" where
  "pageJson f pg = JObj [(''page'', numJson (pg_page pg)), (''per_page'', numJson (pg_per_page pg)),
     (''total'', JInt (int (pg_total pg))), (''total_pages'', numJson (pg_total_pages pg)), (''data'', JArr (map f (pg_data pg)))]"

definition userJson :: "user_view \<Rightarrow> json" where
  "userJson u = JObj [(''id'', JStr (uv_id u)), (''email'', JStr (uv_email u)), (''username'', JStr (uv_username u)),
     (''role'', JStr (roleName (uv_role u))), (''tenantCode'', nullable (uv_tenantCode u)),
     (''isDatabaseCreated'', JBool (uv_isDatabaseCreated u)),
     (''createdAt'', dateJson (uv_createdAt u)), (''updatedAt'', dateJson (uv_updatedAt u))]"

definition profileJson :: "auth_user \<Rightarrow> json" where
  "profileJson u = JObj [(''id'', JStr (au_id u)), (''email'', JStr (au_email u)), (''username'', JStr (au_username u)),
     (''role'', JStr (roleName (au_role u))), (''tenantCode'', nullable (au_tenantCode u))]"

definition authJson :: "auth_response \<Rightarrow> json" where
  "authJson a = (let u = ar_user a in JObj [(''access_token'', JStr (access_token a)),
     (''user'', JObj ([(''id'', JStr (au_id u)), (''email'', JStr (au_email u)), (''username'', JStr (au_username u)),
        (''role'', JStr (roleName (au_role u)))] @
        (case au_tenantCode u of None \<Rightarrow> [] | Some t \<Rightarrow> [(''tenantCode'', JStr t)])))])"

definition databaseStatusJson :: "database_status \<Rightarrow> json" where
  "databaseStatusJson d = JObj [(''userId'', JStr (st_userId d)), (''isDatabaseCreated'', JBool (st_isDatabaseCreated d)),
     (''message'', JStr (st_message d))]"

definition migrationResultJson :: "migration_result \<Rightarrow> json" where
  "migrationResultJson x = (case x of (tenantCode, dir, st) \<Rightarrow>
     JObj ([(''tenantCode'', JStr tenantCode), (''migration'', JStr dir)] @
       (case st of Applied \<Rightarrow> [(''status'', JStr ''applied'')]
        | Failed m \<Rightarrow> [(''status'', JStr ''failed''), (''error'', JStr m)]
        | AlreadyApplied \<Rightarrow> [(''status'', JStr ''already_applied'')])))"

section \<open>The application\<close>

record 's web =
  wb_env :: "'s web_env"
  wb_prisma :: "'s prisma_api"
  wb_user :: "'s user_api"
  wb_bcrypt :: "'s bcrypt_api"
  wb_amqp :: "'s amqp_api"
  wb_jwt :: "'s jwt_api"
  wb_redis :: "'s redis_api"
  wb_manager :: "'s manager"
  wb_sql :: "'s sql_api"
  wb_fs :: "'s fs_api"
  wb_decimal :: "rat \<Rightarrow> string"

text \<open>The decorators of a controller method.\<close>

record route =
  rt_controller :: string
  rt_method :: string
  rt_roles :: "Role list option"
  rt_apiResponse :: "api_options option"
  rt_cacheable :: "cache_options option"
  rt_invalidate :: "invalidate_target list option"
  rt_rateLimit :: "rate_limit_options option"
  rt_classRateLimit :: "rate_limit_options option"

definition wrapper :: "string \<Rightarrow> api_options option" where
  "wrapper m = Some \<lparr>ao_message = Some m, ao_status = None\<rparr>"

definition limit :: "int \<Rightarrow> int \<Rightarrow> rate_limit_options option" where
  "limit ms n = Some \<lparr>rl_windowMs = Some ms, rl_max = Some n, rl_keyByUser = None\<rparr>"

definition cacheFor :: "int \<Rightarrow> cache_options option" where
  "cacheFor ttl = Some \<lparr>co_ttl = Some ttl, co_includeArgs = None, co_includeUserId = None\<rparr>"

text \<open>A response on its way out: the value and the work its interceptors do after it was emitted.\<close>

type_synonym 's answer = "(json \<times> ('s, unit) handler) api_response"

definition answerJson :: "'s answer \<Rightarrow> json" where
  "answerJson a = JObj [(''status'', JStr (case re_status a of Success \<Rightarrow> ''success'' | Failure \<Rightarrow> ''error'')),
     (''data'', fst (re_data a)), (''message'', JStr (re_message a)), (''timestamp'', JStr (re_timestamp a))]"

text \<open>The global interceptors around the interceptors of the controller and the method.\<close>

definition serve ::
  "'s web \<Rightarrow> route \<Rightarrow> http_request \<Rightarrow> ('s, json \<times> ('s, unit) handler) handler \<Rightarrow> ('s, 's answer) handler" where
  "serve W rt hq handle =
    logIntercept (wb_env W) hq (apiIntercept (wb_env W) (rt_apiResponse rt) (rt_method rt) (hr_method hq) handle)"

definition withUser :: "auth_user \<Rightarrow> http_request \<Rightarrow> http_request" where
  "withUser u hq = hq\<lparr>hr_request := (hr_request hq)\<lparr>rq_user := Some u\<rparr>\<rparr>"

definition guarded_route ::
  "'s web \<Rightarrow> route \<Rightarrow> http_request \<Rightarrow> (auth_user \<Rightarrow> request \<Rightarrow> ('s, json \<times> ('s, unit) handler) handler) \<Rightarrow> ('s, 's answer) handler" where
  "guarded_route W rt hq handle =
    withGuards (wb_user W) (wb_jwt W) (rt_roles rt) (hr_authorization hq) (\<lambda>user.
      serve W rt (withUser user hq) (handle user (hr_request (withUser user hq))))"

definition cached ::
  "'s web \<Rightarrow> route \<Rightarrow> request \<Rightarrow> tenant_context \<Rightarrow> ('s, tenant_context \<times> json) handler \<Rightarrow> ('s, json \<times> ('s, unit) handler) handler" where
  "cached W rt req ctx handle =
    cacheIntercept (wb_redis W) (rt_cacheable rt) (rt_invalidate rt) req (rt_controller rt) (rt_method rt) ctx handle"

text \<open>\<open>@UseInterceptors(TenantInterceptor, CacheInterceptor, RateLimitInterceptor)\<close>.\<close>

definition productEndpoint ::
  "'s web \<Rightarrow> route \<Rightarrow> http_request \<Rightarrow> (request \<Rightarrow> tenant_context \<Rightarrow> ('s, json) handler) \<Rightarrow> ('s, 's answer) handler" where
  "productEndpoint W rt hq handle = guarded_route W rt hq (\<lambda>_ req.
    let ctx = tenantIntercept req None
    in cached W rt req ctx
         (rateLimited (wb_env W) req (rt_method rt) (rt_controller rt) (rt_rateLimit rt) (rt_classRateLimit rt)
           (bindE (handle req ctx) (\<lambda>d. ret (ctx, d)))))"

text \<open>\<open>@UseInterceptors(TenantInterceptor, CacheInterceptor)\<close>: the order controller has no limiter.\<close>

definition orderEndpoint ::
  "'s web \<Rightarrow> route \<Rightarrow> http_request \<Rightarrow> (auth_user \<Rightarrow> request \<Rightarrow> tenant_context \<Rightarrow> ('s, tenant_context \<times> json) handler) \<Rightarrow>
   ('s, 's answer) handler" where
  "orderEndpoint W rt hq handle = guarded_route W rt hq (\<lambda>user req.
    let ctx = tenantIntercept req None in cached W rt req ctx (handle user req ctx))"

definition plainEndpoint :: "('s, json) handler \<Rightarrow> ('s, json \<times> ('s, unit) handler) handler" where
  "plainEndpoint handle = bindE handle (\<lambda>d. ret (d, ret ()))"

text \<open>\<open>PrismaService.client\<close> on its first use in the request.\<close>

definition requestClient :: "'s web \<Rightarrow> tenant_context \<Rightarrow> ('s, prisma_client) handler" where
  "requestClient W ctx = clientFor (wb_manager W) (getTenantCode ctx)"

definition fromPipe :: "exn + 'a \<Rightarrow> ('s, 'a) handler" where
  "fromPipe r = (case r of Inl e \<Rightarrow> throw e | Inr x \<Rightarrow> ret x)"

section \<open>Products\<close>

definition productRoute :: "string \<Rightarrow> Role list \<Rightarrow> string \<Rightarrow> route" where
  "productRoute m roles msg = \<lparr>rt_controller = ''ProductController'', rt_method = m, rt_roles = Some roles,
     rt_apiResponse = wrapper msg, rt_cacheable = None, rt_invalidate = None, rt_rateLimit = None,
     rt_classRateLimit = limit 60000 60\<rparr>"

definition productCreateRoute :: route where
  "productCreateRoute = (productRoute ''create'' [ADMIN] ''Product created successfully'')\<lparr>rt_invalidate := Some [TName ''findAll'']\<rparr>"

definition productCreateEndpoint :: "'s web \<Rightarrow> http_request \<Rightarrow> exn + create_product \<Rightarrow> ('s, 's answer) handler" where
  "productCreateEndpoint W hq body =
    productEndpoint W productCreateRoute hq (\<lambda>req ctx.
    bindE (fromPipe body) (\<lambda>dto.
    bindE (requestClient W ctx) (\<lambda>c.
    bindE (productCreate (wb_prisma W) c ctx dto) (\<lambda>p. ret (productJson (wb_decimal W) p)))))"

definition productFindAllEndpoint :: "'s web \<Rightarrow> http_request \<Rightarrow> ('s, 's answer) handler" where
  "productFindAllEndpoint W hq =
    productEndpoint W ((productRoute ''findAll'' [ADMIN, CUSTOMER] ''Products retrieved successfully'')
      \<lparr>rt_cacheable := cacheFor 300, rt_rateLimit := limit 60000 30\<rparr>) hq (\<lambda>req ctx.
    bindE (fromPipe (tenantCodeParam req)) (\<lambda>tenantCode.
    bindE (requestClient W ctx) (\<lambda>c.
    bindE (productControllerFindAll (wb_prisma W) c tenantCode (map_of (rq_query req) ''page'') (map_of (rq_query req) ''per_page''))
      (\<lambda>pg. ret (pageJson (productJson (wb_decimal W)) pg)))))"

definition paramId :: "request \<Rightarrow> string" where
  "paramId req = (case map_of (rq_params req) ''id'' of Some i \<Rightarrow> i | None \<Rightarrow> [])"

definition productFindOneRoute :: route where
  "productFindOneRoute = (productRoute ''findOne'' [ADMIN, CUSTOMER] ''Product retrieved successfully'')\<lparr>rt_cacheable := cacheFor 300\<rparr>"

definition productFindOneEndpoint :: "'s web \<Rightarrow> http_request \<Rightarrow> ('s, 's answer) handler" where
  "productFindOneEndpoint W hq =
    productEndpoint W productFindOneRoute hq (\<lambda>req ctx.
    bindE (fromPipe (tenantCodeParam req)) (\<lambda>tenantCode.
    bindE (requestClient W ctx) (\<lambda>c.
    bindE (productFindOne (wb_prisma W) c (paramId req) tenantCode) (\<lambda>p. ret (productJson (wb_decimal W) p)))))"

definition productUpdateRoute :: route where
  "productUpdateRoute = (productRoute ''update'' [ADMIN] ''Product updated successfully'')
     \<lparr>rt_invalidate := Some [TName ''findAll'', TName ''findOne'']\<rparr>"

definition productUpdateEndpoint :: "'s web \<Rightarrow> http_request \<Rightarrow> exn + product_data \<Rightarrow> ('s, 's answer) handler" where
  "productUpdateEndpoint W hq body =
    productEndpoint W productUpdateRoute hq (\<lambda>req ctx.
    bindE (fromPipe body) (\<lambda>dto.
    bindE (fromPipe (tenantCodeParam req)) (\<lambda>tenantCode.
    bindE (requestClient W ctx) (\<lambda>c.
    bindE (productUpdate (wb_prisma W) c (paramId req) dto tenantCode) (\<lambda>p. ret (productJson (wb_decimal W) p))))))"

definition productRemoveEndpoint :: "'s web \<Rightarrow> http_request \<Rightarrow> ('s, 's answer) handler" where
  "productRemoveEndpoint W hq =
    productEndpoint W ((productRoute ''remove'' [ADMIN] ''Product deleted successfully'')
      \<lparr>rt_invalidate := Some [TName ''findAll'', TName ''findOne'']\<rparr>) hq (\<lambda>req ctx.
    bindE (fromPipe (tenantCodeParam req)) (\<lambda>tenantCode.
    bindE (requestClient W ctx) (\<lambda>c.
    bindE (productRemove (wb_prisma W) c (paramId req) tenantCode) (\<lambda>p. ret (productJson (wb_decimal W) p)))))"

section \<open>Orders\<close>

definition orderRoute :: "string \<Rightarrow> Role list \<Rightarrow> string \<Rightarrow> route" where
  "orderRoute m roles msg = \<lparr>rt_controller = ''OrderController'', rt_method = m, rt_roles = Some roles,
     rt_apiResponse = wrapper msg, rt_cacheable = None, rt_invalidate = None, rt_rateLimit = None,
     rt_classRateLimit = limit 60000 30\<rparr>"

text \<open>A body or transaction id that the method rejects is rejected before \<open>this.prisma\<close> is used.\<close>

definition clientIf :: "'s web \<Rightarrow> tenant_context \<Rightarrow> bool \<Rightarrow> ('s, prisma_client) handler" where
  "clientIf W ctx used = (if used then requestClient W ctx else ret DefaultClient)"

definition orderCreateEndpoint :: "'s web \<Rightarrow> http_request \<Rightarrow> exn + create_item list option \<Rightarrow> ('s, 's answer) handler" where
  "orderCreateEndpoint W hq body =
    orderEndpoint W ((orderRoute ''create'' [CUSTOMER] ''Order created successfully'')
      \<lparr>rt_invalidate := Some [orderInvalidation]\<rparr>) hq (\<lambda>user req ctx.
    bindE (fromPipe (tenantCodeParam req)) (\<lambda>tenantCode.
    bindE (fromPipe body) (\<lambda>dto.
    bindE (clientIf W ctx (dto \<noteq> None \<and> dto \<noteq> Some [])) (\<lambda>c.
    bindE (controllerCreate (wb_prisma W) (wb_amqp W) c user tenantCode dto) (\<lambda>f.
    ret (ctx, orderJson (wb_decimal W) f))))))"

definition orderFindAllEndpoint :: "'s web \<Rightarrow> http_request \<Rightarrow> ('s, 's answer) handler" where
  "orderFindAllEndpoint W hq =
    orderEndpoint W ((orderRoute ''findAll'' [CUSTOMER, ADMIN] ''Orders retrieved successfully'')
      \<lparr>rt_cacheable := Some \<lparr>co_ttl = Some 300, co_includeArgs = None, co_includeUserId = Some True\<rparr>\<rparr>) hq (\<lambda>user req ctx.
    bindE (controllerFindAll (wb_prisma W) (wb_user W) (wb_manager W) user ctx
      (map_of (rq_query req) ''page'') (map_of (rq_query req) ''per_page'')) (\<lambda>cp.
    ret (fst cp, pageJson (tenantOrderJson (wb_decimal W)) (snd cp))))"

definition orderFindOneEndpoint :: "'s web \<Rightarrow> http_request \<Rightarrow> ('s, 's answer) handler" where
  "orderFindOneEndpoint W hq =
    orderEndpoint W (orderRoute ''findOne'' [CUSTOMER, ADMIN] ''Order retrieved successfully'') hq (\<lambda>user req ctx.
    bindE (requestClient W ctx) (\<lambda>c.
    bindE (controllerFindOne (wb_prisma W) c (paramId req) user) (\<lambda>f. ret (ctx, orderJson (wb_decimal W) f))))"

definition orderPaymentEndpoint :: "'s web \<Rightarrow> http_request \<Rightarrow> ('s, 's answer) handler" where
  "orderPaymentEndpoint W hq =
    orderEndpoint W (orderRoute ''paymentReceived'' [CUSTOMER] ''Payment marked as received'') hq (\<lambda>user req ctx.
    bindE (fromPipe (tenantCodeParam req)) (\<lambda>tenantCode.
    bindE (requestClient W ctx) (\<lambda>c.
    bindE (controllerPaymentReceived (wb_prisma W) c (paramId req) user tenantCode) (\<lambda>f.
    ret (ctx, orderJson (wb_decimal W) f)))))"

definition orderCompleteEndpoint :: "'s web \<Rightarrow> http_request \<Rightarrow> string option \<Rightarrow> ('s, 's answer) handler" where
  "orderCompleteEndpoint W hq transactionId =
    orderEndpoint W ((orderRoute ''completeOrder'' [CUSTOMER] ''Order completion queued'')
      \<lparr>rt_invalidate := Some [orderInvalidation]\<rparr>) hq (\<lambda>user req ctx.
    bindE (fromPipe (tenantCodeParam req)) (\<lambda>tenantCode.
    bindE (clientIf W ctx (transactionId \<noteq> None \<and> trim (the transactionId) \<noteq> [])) (\<lambda>c.
    bindE (controllerComplete (wb_prisma W) (wb_amqp W) c (paramId req) user tenantCode transactionId) (\<lambda>b.
    ret (ctx, JObj [(''queued'', JBool b)])))))"

section \<open>Accounts and application\<close>

definition authRoute :: "string \<Rightarrow> string \<Rightarrow> route" where
  "authRoute m msg = \<lparr>rt_controller = ''AuthController'', rt_method = m, rt_roles = None, rt_apiResponse = wrapper msg,
     rt_cacheable = None, rt_invalidate = None, rt_rateLimit = None, rt_classRateLimit = None\<rparr>"

definition registerEndpoint :: "'s web \<Rightarrow> http_request \<Rightarrow> exn + register_dto \<Rightarrow> ('s, 's answer) handler" where
  "registerEndpoint W hq body =
    serve W (authRoute ''register'' ''User registered successfully'') hq (plainEndpoint (
      bindE (fromPipe body) (\<lambda>dto.
      bindE (register (wb_user W) (wb_bcrypt W) (wb_amqp W) (wb_jwt W) dto) (\<lambda>a. ret (authJson a)))))"

definition loginEndpoint :: "'s web \<Rightarrow> http_request \<Rightarrow> exn + login_dto \<Rightarrow> ('s, 's answer) handler" where
  "loginEndpoint W hq body =
    serve W (authRoute ''login'' ''Login successful'') hq (plainEndpoint (
      bindE (fromPipe body) (\<lambda>dto.
      bindE (login (wb_user W) (wb_bcrypt W) (wb_jwt W) dto) (\<lambda>a. ret (authJson a)))))"

definition profileEndpoint :: "'s web \<Rightarrow> http_request \<Rightarrow> ('s, 's answer) handler" where
  "profileEndpoint W hq =
    guarded_route W (authRoute ''getProfile'' ''User profile retrieved successfully'') hq
      (\<lambda>user _. plainEndpoint (ret (profileJson user)))"

text \<open>The user controller has no envelope decorator: its messages are the default ones.\<close>

definition userRoute :: "string \<Rightarrow> route" where
  "userRoute m = \<lparr>rt_controller = ''UserController'', rt_method = m, rt_roles = Some [ADMIN], rt_apiResponse = None,
     rt_cacheable = None, rt_invalidate = None, rt_rateLimit = None, rt_classRateLimit = None\<rparr>"

definition userEndpoint ::
  "'s web \<Rightarrow> string \<Rightarrow> http_request \<Rightarrow> (request \<Rightarrow> ('s, json) handler) \<Rightarrow> ('s, 's answer) handler" where
  "userEndpoint W m hq handle = guarded_route W (userRoute m) hq (\<lambda>_ req. plainEndpoint (handle req))"

definition userCreateEndpoint :: "'s web \<Rightarrow> http_request \<Rightarrow> exn + create_user \<Rightarrow> ('s, 's answer) handler" where
  "userCreateEndpoint W hq body = userEndpoint W ''create'' hq (\<lambda>_.
     bindE (fromPipe body) (\<lambda>dto.
     bindE (userCreate (wb_user W) (wb_bcrypt W) (wb_amqp W) dto) (\<lambda>u. ret (userJson u))))"

definition userFindAllEndpoint :: "'s web \<Rightarrow> http_request \<Rightarrow> ('s, 's answer) handler" where
  "userFindAllEndpoint W hq = userEndpoint W ''findAll'' hq (\<lambda>_.
     bindE (userFindAll (wb_user W)) (\<lambda>us. ret (JArr (map userJson us))))"

definition userFindOneEndpoint :: "'s web \<Rightarrow> http_request \<Rightarrow> ('s, 's answer) handler" where
  "userFindOneEndpoint W hq = userEndpoint W ''findOne'' hq (\<lambda>req.
     bindE (userFindOne (wb_user W) (paramId req)) (\<lambda>u. ret (userJson u)))"

definition userUpdateEndpoint :: "'s web \<Rightarrow> http_request \<Rightarrow> exn + update_user \<Rightarrow> ('s, 's answer) handler" where
  "userUpdateEndpoint W hq body = userEndpoint W ''update'' hq (\<lambda>req.
     bindE (fromPipe body) (\<lambda>dto.
     bindE (userUpdate (wb_user W) (wb_bcrypt W) (paramId req) dto) (\<lambda>u. ret (userJson u))))"

definition userRemoveEndpoint :: "'s web \<Rightarrow> http_request \<Rightarrow> ('s, 's answer) handler" where
  "userRemoveEndpoint W hq = userEndpoint W ''remove'' hq (\<lambda>req.
     bindE (userRemove (wb_user W) (paramId req)) (\<lambda>u. ret (userJson u)))"

definition userStatusEndpoint :: "'s web \<Rightarrow> http_request \<Rightarrow> ('s, 's answer) handler" where
  "userStatusEndpoint W hq = userEndpoint W ''checkDatabaseStatus'' hq (\<lambda>req.
     bindE (checkDatabaseStatus (wb_user W) (paramId req)) (\<lambda>d. ret (databaseStatusJson d)))"

text \<open>\<open>GET migrate-tenants\<close>: no guard and no role.\<close>

definition migrateEndpoint :: "'s web \<Rightarrow> http_request \<Rightarrow> ('s, 's answer) handler" where
  "migrateEndpoint W hq =
    serve W \<lparr>rt_controller = ''AppController'', rt_method = ''migrateAllTenants'', rt_roles = None, rt_apiResponse = None,
      rt_cacheable = None, rt_invalidate = None, rt_rateLimit = None, rt_classRateLimit = None\<rparr> hq (plainEndpoint (
      bindE (migrateAllTenants (wb_user W) (wb_manager W) (wb_sql W) (wb_fs W)) (\<lambda>rs.
      ret (JObj [(''status'', JStr ''completed''), (''results'', JArr (map migrationResultJson rs))]))))"

end
