(* ===== verification/WebServices.thy ===== *)
theory WebServices
  imports Routes OrderListing
begin

text \<open>
  The services behind the HTTP endpoints taken together. What the endpoints act on is seen through
  five parts: the tables of every database, the queues, the accounts, the content of Redis and the
  counters of the rate limiter. The contract \<open>web_services\<close> says that each service keeps its own
  contract and leaves the parts of the others alone; the judgement \<open>spec\<close> speaks about a program on
  these parts, and the endpoint pieces have one rule each.
\<close>

section \<open>Programs on an abstract state\<close>

definition spec ::
  "('s \<Rightarrow> bool) \<Rightarrow> ('s \<Rightarrow> 'p) \<Rightarrow> ('s, 'a) handler \<Rightarrow> 'p \<Rightarrow> ('a \<Rightarrow> 'p \<Rightarrow> bool) \<Rightarrow> (exn \<Rightarrow> 'p \<Rightarrow> bool) \<Rightarrow> bool" where
  "spec Inv vw m p G E \<longleftrightarrow>
    (\<forall>s. Inv s \<longrightarrow> vw s = p \<longrightarrow> wp m (\<lambda>x s'. Inv s' \<and> G x (vw s')) (\<lambda>e s'. Inv s' \<and> E e (vw s')) s)"

named_theorems spec_rules \<open>rules for programs on the abstract state\<close>

lemma specI:
  "(\<And>s. Inv s \<Longrightarrow> vw s = p \<Longrightarrow> wp m (\<lambda>x s'. Inv s' \<and> G x (vw s')) (\<lambda>e s'. Inv s' \<and> E e (vw s')) s) \<Longrightarrow> spec Inv vw m p G E"
  by (simp add: spec_def)

lemma spec_ret: "G x p \<Longrightarrow> spec Inv vw (ret x) p G E"
  by (simp add: spec_def wp_ret)

lemma spec_throw: "E e p \<Longrightarrow> spec Inv vw (throw e) p G E"
  by (simp add: spec_def wp_throw)

lemma spec_bind:
  "spec Inv vw m p R E \<Longrightarrow> (\<And>x p'. R x p' \<Longrightarrow> spec Inv vw (f x) p' G E) \<Longrightarrow> spec Inv vw (bindE m f) p G E"
  unfolding spec_def wp_bindE by (blast intro: wp_conseq)

lemma spec_try:
  "spec Inv vw m p G R \<Longrightarrow> (\<And>e p'. R e p' \<Longrightarrow> spec Inv vw (h e) p' G E) \<Longrightarrow> spec Inv vw (tryCatch m h) p G E"
  unfolding spec_def wp_tryCatch by (blast intro: wp_conseq)

lemma spec_conseq:
  "spec Inv vw m p R F \<Longrightarrow> (\<And>x p'. R x p' \<Longrightarrow> G x p') \<Longrightarrow> (\<And>e p'. F e p' \<Longrightarrow> E e p') \<Longrightarrow> spec Inv vw m p G E"
  unfolding spec_def by (blast intro: wp_conseq)

lemma spec_sync:
  "(\<And>s. Inv s \<Longrightarrow> vw s = p \<Longrightarrow> Inv (snd (f s)) \<and> G (fst (f s)) (vw (snd (f s)))) \<Longrightarrow> spec Inv vw (sync f) p G E"
  by (simp add: spec_def wp_sync)

text \<open>A section that the abstract state does not show.\<close>

lemma spec_silent:
  assumes "\<And>s. Inv s \<Longrightarrow> Inv (snd (f s)) \<and> vw (snd (f s)) = vw s" and "\<And>x. spec Inv vw (g x) p G E"
  shows "spec Inv vw (bindE (sync f) g) p G E"
  using assms by (intro spec_bind [where R = "\<lambda>_ p'. p' = p"] spec_sync) auto

lemma spec_forEach:
  assumes "\<And>x p. x \<in> set xs \<Longrightarrow> J p \<Longrightarrow> spec Inv vw (body x) p (\<lambda>_. J) E" and "J p"
  shows "spec Inv vw (forEach xs body) p (\<lambda>_. J) E"
  using assms by (induction xs arbitrary: p) (auto intro!: spec_ret spec_bind)

lemma spec_run:
  assumes "spec Inv vw m p G E" and "Inv s" and "vw s = p" and "run m s = (r, s')"
  shows "Inv s' \<and> (case r of Inl e \<Rightarrow> E e (vw s') | Inr x \<Rightarrow> G x (vw s'))"
  using assms by (cases r) (auto simp: spec_def wp_def)

section \<open>The contract\<close>

record ('k, 'l) parts =
  vt :: "'k \<Rightarrow> db"
  vq :: "string \<Rightarrow> string list"
  vu :: "'l \<Rightarrow> string \<rightharpoonup> user_row"
  vc :: "string \<rightharpoonup> string"
  vk :: counters

locale web_services =
  fixes W :: "'s web" and gen :: "'s \<Rightarrow> string \<times> 's" and Inv :: "'s \<Rightarrow> bool"
    and T :: "'s \<Rightarrow> 'k \<Rightarrow> db" and loc :: "prisma_client \<Rightarrow> 'k" and Q :: "'s \<Rightarrow> string \<Rightarrow> string list"
    and Us :: "'s \<Rightarrow> 'l \<Rightarrow> string \<rightharpoonup> user_row" and uloc :: "prisma_client \<Rightarrow> 'l" and C :: "'s \<Rightarrow> string \<rightharpoonup> string"
    and matches :: "string \<Rightarrow> string \<Rightarrow> bool" and token_of :: "jwt_payload \<Rightarrow> string \<Rightarrow> bool"
  assumes order_ok: "order_listing (wb_prisma W) (wb_amqp W) (wb_manager W) gen
      (\<lambda>s. Inv s \<and> (Us s, C s, we_getCounters (wb_env W) s) = a) T loc Q (wb_user W)"
    and auth_ok: "auth_services (wb_user W) (wb_bcrypt W) (wb_amqp W)
      (\<lambda>s. Inv s \<and> (T s, C s, we_getCounters (wb_env W) s) = b) Us uloc Q matches (wb_jwt W) token_of"
    and cache_ok: "cache_store (wb_redis W) (\<lambda>s. Inv s \<and> (T s, Q s, Us s, we_getCounters (wb_env W) s) = d) C"
    and now_ok: "Inv s \<Longrightarrow> we_now (wb_env W) s = (t, s') \<Longrightarrow> Inv s' \<and> T s' = T s \<and> Q s' = Q s \<and> Us s' = Us s \<and>
      C s' = C s \<and> we_getCounters (wb_env W) s' = we_getCounters (wb_env W) s"
    and log_ok: "Inv s \<Longrightarrow> s' = we_log (wb_env W) entry s \<Longrightarrow> Inv s' \<and> T s' = T s \<and> Q s' = Q s \<and> Us s' = Us s \<and>
      C s' = C s \<and> we_getCounters (wb_env W) s' = we_getCounters (wb_env W) s"
    and header_ok: "Inv s \<Longrightarrow> s' = we_setHeader (wb_env W) n v s \<Longrightarrow> Inv s' \<and> T s' = T s \<and> Q s' = Q s \<and> Us s' = Us s \<and>
      C s' = C s \<and> we_getCounters (wb_env W) s' = we_getCounters (wb_env W) s"
    and count_ok: "Inv s \<Longrightarrow> s' = we_putCounters (wb_env W) k s \<Longrightarrow> Inv s' \<and> T s' = T s \<and> Q s' = Q s \<and> Us s' = Us s \<and>
      C s' = C s \<and> we_getCounters (wb_env W) s' = k"
begin

definition vw :: "'s \<Rightarrow> ('k, 'l) parts" where
  "vw s = \<lparr>vt = T s, vq = Q s, vu = Us s, vc = C s, vk = we_getCounters (wb_env W) s\<rparr>"

lemma vw_sel [simp]:
  "vt (vw s) = T s" "vq (vw s) = Q s" "vu (vw s) = Us s" "vc (vw s) = C s" "vk (vw s) = we_getCounters (wb_env W) s"
  by (simp_all add: vw_def)

abbreviation "sp \<equiv> spec Inv vw"

section \<open>The interceptors\<close>

lemma logNow_silent: "Inv s \<Longrightarrow> Inv (snd (logNow (wb_env W) f s)) \<and> vw (snd (logNow (wb_env W) f s)) = vw s"
proof -
  assume s: "Inv s"
  obtain t1 s1 t2 s2 where n: "we_now (wb_env W) s = (t1, s1)" "we_now (wb_env W) s1 = (t2, s2)" by fastforce
  have s2: "Inv s2" "vw s2 = vw s" using now_ok [OF s n(1)] now_ok [OF _ n(2)] by (auto simp: vw_def)
  then show ?thesis using log_ok [OF s2(1) refl, of "f t1 t2"] by (simp add: logNow_def n) (simp add: vw_def)
qed

lemma logIntercept_spec:
  assumes "sp handle p G E"
  shows "sp (logIntercept (wb_env W) hq handle) p G E"
  unfolding logIntercept_def
  by (intro spec_silent logNow_silent spec_try [where R = E] spec_bind [OF assms] spec_ret spec_throw)

lemma serve_spec:
  assumes "sp handle p R E"
    and "\<And>a p'. R (re_data a) p' \<Longrightarrow> re_message a = env_or (Option.bind (rt_apiResponse rt) ao_message)
      (getDefaultMessage (rt_method rt) (hr_method hq)) \<Longrightarrow> G a p'"
  shows "sp (serve W rt hq handle) p G E"
  unfolding serve_def apiIntercept_def
proof (intro logIntercept_spec spec_bind [where R = R], rule assms(1))
  fix x p' assume R: "R x p'"
  show "sp (bindE (sync (we_now (wb_env W))) (\<lambda>t. ret
        \<lparr>re_status = (case Option.bind (rt_apiResponse rt) ao_status of None \<Rightarrow> Success | Some st \<Rightarrow> st), re_data = x,
         re_message = env_or (Option.bind (rt_apiResponse rt) ao_message) (getDefaultMessage (rt_method rt) (hr_method hq)),
         re_timestamp = toISOString t\<rparr>)) p' G E"
  proof (rule spec_silent)
    fix s assume "Inv s"
    then show "Inv (snd (we_now (wb_env W) s)) \<and> vw (snd (we_now (wb_env W) s)) = vw s"
      using now_ok [of s "fst (we_now (wb_env W) s)" "snd (we_now (wb_env W) s)"] by (auto simp: vw_def)
  qed (use R assms(2) in \<open>auto intro!: spec_ret\<close>)
qed

lemma guarded_spec:
  assumes "\<And>pl tok u. hr_authorization hq = Some (''Bearer '' @ tok) \<Longrightarrow> token_of pl tok \<Longrightarrow>
      vu p (uloc DefaultClient) (jp_sub pl) = Some u \<Longrightarrow> canActivate (rt_roles rt) (Some (auth_user_of u)) \<Longrightarrow>
      sp (serve W rt (withUser (auth_user_of u) hq) (handle (auth_user_of u) (hr_request (withUser (auth_user_of u) hq)))) p G E"
    and "\<And>e. \<exists>m. e = UnauthorizedException m \<or> e = ForbiddenException m \<or> e = RaisedError m \<Longrightarrow> E e p"
  shows "sp (guarded_route W rt hq handle) p G E"
proof (rule specI)
  fix s assume s: "Inv s" "vw s = p"
  let ?b = "(T s, C s, we_getCounters (wb_env W) s)"
  have same: "Inv s' \<and> vw s' = p"
    if "Inv s' \<and> (T s', C s', we_getCounters (wb_env W) s') = ?b" and "Us s' = Us s" and "Q s' = Q s" for s'
    using that s(2) [symmetric] by (auto simp: vw_def)
  show "wp (guarded_route W rt hq handle) (\<lambda>x s'. Inv s' \<and> G x (vw s')) (\<lambda>e s'. Inv s' \<and> E e (vw s')) s"
    unfolding guarded_route_def
  proof (rule auth_services.withGuards_wp [OF auth_ok [of ?b]])
    fix pl tok u s'
    assume *: "Inv s' \<and> (T s', C s', we_getCounters (wb_env W) s') = ?b" "Us s' = Us s" "Q s' = Q s"
      and u: "hr_authorization hq = Some (''Bearer '' @ tok)" "token_of pl tok" "Us s (uloc DefaultClient) (jp_sub pl) = Some u"
        "canActivate (rt_roles rt) (Some (auth_user_of u))"
    have "vu p (uloc DefaultClient) (jp_sub pl) = Some u" using u(3) s(2) by (auto simp: vw_def)
    from assms(1) [OF u(1,2) this u(4)] same [OF *]
    show "wp (serve W rt (withUser (auth_user_of u) hq) (handle (auth_user_of u) (hr_request (withUser (auth_user_of u) hq))))
        (\<lambda>x s'. Inv s' \<and> G x (vw s')) (\<lambda>e s'. Inv s' \<and> E e (vw s')) s'"
      by (simp add: spec_def)
  qed (use s same assms(2) in auto)
qed

text \<open>The cache: an invalidating route runs its handler; a cacheable one answers from Redis or runs it.\<close>

lemma invalidating_spec:
  assumes "rt_invalidate rt = Some targets" and "sp handle p R E"
    and "\<And>cd p'. R cd p' \<Longrightarrow> G (snd cd, forEach targets (invalidateTarget (wb_redis W) (fst cd) req (rt_controller rt))) p'"
  shows "sp (cached W rt req ctx handle) p G E"
  unfolding cached_def cacheIntercept_def assms(1) option.case
  by (rule spec_bind [OF assms(2)]) (auto intro!: spec_ret assms(3))

lemma cacheGet_spec:
  "sp (cacheGet (wb_redis W) ctx c m a) p
    (\<lambda>v p'. (\<exists>cs. cs \<subseteq>\<^sub>m vc p \<and> p' = p\<lparr>vc := cs\<rparr>) \<and>
       (\<forall>x. v = Some x \<longrightarrow> (\<exists>txt. vc p (generateCacheKey ctx c m a None) = Some txt \<and> json_parse txt = Some x)))
    (\<lambda>_ _. False)"
proof (rule specI)
  fix s assume s: "Inv s" "vw s = p"
  show "wp (cacheGet (wb_redis W) ctx c m a)
    (\<lambda>v s'. Inv s' \<and> (\<exists>cs. cs \<subseteq>\<^sub>m vc p \<and> vw s' = p\<lparr>vc := cs\<rparr>) \<and>
       (\<forall>x. v = Some x \<longrightarrow> (\<exists>txt. vc p (generateCacheKey ctx c m a None) = Some txt \<and> json_parse txt = Some x)))
    (\<lambda>_ s'. Inv s' \<and> False) s"
    by (rule wp_conseq [OF cache_store.cacheGet_wp [OF cache_ok [of "(T s, Q s, Us s, we_getCounters (wb_env W) s)"]]])
       (use s in \<open>auto simp: vw_def\<close>)
qed

lemma cacheable_spec:
  assumes "rt_invalidate rt = None" and "rt_cacheable rt = Some co"
    and hit: "\<And>txt v cs. vc p (generateCacheKey ctx (rt_controller rt) (rt_method rt) (retrievalArgs co req) None) = Some txt \<Longrightarrow>
      json_parse txt = Some v \<Longrightarrow> cs \<subseteq>\<^sub>m vc p \<Longrightarrow> G (v, ret ()) (p\<lparr>vc := cs\<rparr>)"
    and miss: "\<And>cs. cs \<subseteq>\<^sub>m vc p \<Longrightarrow> sp handle (p\<lparr>vc := cs\<rparr>) R E"
    and out: "\<And>cd after p'. R cd p' \<Longrightarrow> G (snd cd, after) p'"
  shows "sp (cached W rt req ctx handle) p G E"
  unfolding cached_def cacheIntercept_def assms(1,2) option.case Let_def
proof (rule spec_bind [OF spec_conseq [OF cacheGet_spec]], assumption, blast)
  fix v p'
  assume v: "(\<exists>cs. cs \<subseteq>\<^sub>m vc p \<and> p' = p\<lparr>vc := cs\<rparr>) \<and> (\<forall>x. v = Some x \<longrightarrow>
    (\<exists>txt. vc p (generateCacheKey ctx (rt_controller rt) (rt_method rt) (retrievalArgs co req) None) = Some txt \<and> json_parse txt = Some x))"
  then have run: "sp (bindE handle (\<lambda>cd. ret (snd cd, k cd))) p' G E" for k
    by (auto intro!: spec_bind [OF miss] spec_ret out)
  show "sp (case v of
      None \<Rightarrow> bindE handle (\<lambda>cd. ret (snd cd, cacheSet (wb_redis W) (fst cd) (rt_controller rt) (rt_method rt) (snd cd)
        (case co_ttl co of None \<Rightarrow> 300 | Some t \<Rightarrow> if t = 0 then 300 else t) (retrievalArgs co req)))
    | Some x \<Rightarrow> if js_truthy x then ret (x, ret ())
        else bindE handle (\<lambda>cd. ret (snd cd, cacheSet (wb_redis W) (fst cd) (rt_controller rt) (rt_method rt) (snd cd)
          (case co_ttl co of None \<Rightarrow> 300 | Some t \<Rightarrow> if t = 0 then 300 else t) (retrievalArgs co req)))) p' G E"
    using v run by (auto split: option.split intro!: spec_ret intro: hit)
qed

text \<open>Deleting a key: whatever Redis does, nothing is added; when it answers, the key is gone.\<close>

lemma cacheDel_spec:
  "sp (cacheDel (wb_redis W) ctx c m a ov) p
    (\<lambda>_ p'. \<exists>cs. cs \<subseteq>\<^sub>m vc p \<and> p' = p\<lparr>vc := cs\<rparr> \<and>
       ((\<forall>ks s. Inv s \<longrightarrow> \<not> isl (fst (redis_del (wb_redis W) ks s))) \<longrightarrow> cs (generateCacheKey ctx c m a ov) = None))
    (\<lambda>_ _. False)"
proof (rule specI)
  fix s assume s: "Inv s" "vw s = p"
  let ?k = "generateCacheKey ctx c m a ov" and ?d = "(T s, Q s, Us s, we_getCounters (wb_env W) s)"
  obtain r s' where r: "redis_del (wb_redis W) [?k] s = (r, s')" by fastforce
  have "(Inv s' \<and> (T s', Q s', Us s', we_getCounters (wb_env W) s') = ?d) \<and>
      C s' \<subseteq>\<^sub>m (case r of Inl _ \<Rightarrow> C s | Inr _ \<Rightarrow> C s |` (- set [?k]))"
    by (rule cache_store.del_ok [OF cache_ok [of ?d] _ r]) (simp add: s(1))
  then have s': "Inv s'" "vw s' = p\<lparr>vc := C s'\<rparr>" "C s' \<subseteq>\<^sub>m (case r of Inl _ \<Rightarrow> C s | Inr _ \<Rightarrow> C s |` (- {?k}))"
    using s(2) by (cases r; auto simp: vw_def)+
  have sub: "C s |` (- {?k}) \<subseteq>\<^sub>m C s" by (auto simp: map_le_def restrict_map_def)
  have "C s' \<subseteq>\<^sub>m vc p" using s'(3) sub s(2) by (cases r) (auto intro: map_le_trans)
  moreover have "C s' ?k = None" if "\<not> isl r"
  proof -
    have "C s' \<subseteq>\<^sub>m C s |` (- {?k})" using that s'(3) by (cases r) auto
    then show ?thesis by (metis (no_types, lifting) ComplD domIff insertI1 map_le_def restrict_out)
  qed
  moreover have "\<not> isl r" if "\<forall>ks s. Inv s \<longrightarrow> \<not> isl (fst (redis_del (wb_redis W) ks s))"
    using that s(1) r by (metis fst_conv)
  ultimately have post: "Inv s' \<and> (\<exists>cs. cs \<subseteq>\<^sub>m vc p \<and> vw s' = p\<lparr>vc := cs\<rparr> \<and>
      ((\<forall>ks s. Inv s \<longrightarrow> \<not> isl (fst (redis_del (wb_redis W) ks s))) \<longrightarrow> cs ?k = None))"
    using s'(1,2) by blast
  show "wp (cacheDel (wb_redis W) ctx c m a ov)
    (\<lambda>_ s'. Inv s' \<and> (\<exists>cs. cs \<subseteq>\<^sub>m vc p \<and> vw s' = p\<lparr>vc := cs\<rparr> \<and>
       ((\<forall>ks s. Inv s \<longrightarrow> \<not> isl (fst (redis_del (wb_redis W) ks s))) \<longrightarrow> cs ?k = None)))
    (\<lambda>_ s'. Inv s' \<and> False) s"
    unfolding cacheDel_def wp_tryCatch wp_await_call r fst_conv snd_conv wp_ret using post by (simp split: sum.split)
qed

section \<open>The rate limiter and the client\<close>

lemma rateLimited_spec:
  assumes "\<And>now r h cs. rateLimitIntercept req m c ho co now (vk p) = ((r, h), cs) \<Longrightarrow>
      (case r of Inl e \<Rightarrow> E e (p\<lparr>vk := cs\<rparr>) | Inr _ \<Rightarrow> sp handle (p\<lparr>vk := cs\<rparr>) G E)"
  shows "sp (rateLimited (wb_env W) req m c ho co handle) p G E"
  unfolding rateLimited_def
proof (rule spec_bind [where R = "\<lambda>r p'. \<exists>now h cs. rateLimitIntercept req m c ho co now (vk p) = ((r, h), cs) \<and> p' = p\<lparr>vk := cs\<rparr>"],
    rule spec_sync)
  fix s assume s: "Inv s" "vw s = p"
  obtain now s1 where n: "we_now (wb_env W) s = (now, s1)" by fastforce
  have s1: "Inv s1" "vw s1 = p" using now_ok [OF s(1) n] s(2) by (auto simp: vw_def)
  obtain r h cs where rl: "rateLimitIntercept req m c ho co now (we_getCounters (wb_env W) s1) = ((r, h), cs)"
    by (metis prod.exhaust)
  have put: "Inv (we_putCounters (wb_env W) cs s1)" "vw (we_putCounters (wb_env W) cs s1) = p\<lparr>vk := cs\<rparr>"
    using count_ok [OF s1(1) refl, of cs] s1(2) by (auto simp: vw_def)
  have hd: "Inv (we_setHeader (wb_env W) k v s2) \<and> vw (we_setHeader (wb_env W) k v s2) = p\<lparr>vk := cs\<rparr>"
    if "Inv s2 \<and> vw s2 = p\<lparr>vk := cs\<rparr>" for k v s2
    using header_ok [of s2 _ k v] that by (auto simp: vw_def)
  have "rateLimitIntercept req m c ho co now (vk p) = ((r, h), cs)" using rl s1(2) by (auto simp: vw_def)
  then show "Inv (snd (rateLimitStep (wb_env W) req m c ho co s)) \<and>
    (\<exists>now' h' cs'. rateLimitIntercept req m c ho co now' (vk p) = ((fst (rateLimitStep (wb_env W) req m c ho co s), h'), cs') \<and>
      vw (snd (rateLimitStep (wb_env W) req m c ho co s)) = p\<lparr>vk := cs'\<rparr>)"
    unfolding rateLimitStep_def n prod.case rl snd_conv fst_conv using hd put by blast
next
  fix r p' assume "\<exists>now h cs. rateLimitIntercept req m c ho co now (vk p) = ((r, h), cs) \<and> p' = p\<lparr>vk := cs\<rparr>"
  then obtain now h cs where "rateLimitIntercept req m c ho co now (vk p) = ((r, h), cs)" "p' = p\<lparr>vk := cs\<rparr>" by blast
  with assms [of now r h cs] show "sp (case r of Inl e \<Rightarrow> throw e | Inr _ \<Rightarrow> handle) p' G E"
    by (auto split: sum.splits intro: spec_throw)
qed

lemma requestClient_spec:
  assumes "tc \<noteq> []" and "tc \<noteq> defaultKey"
    and "G (UrlClient (databaseUrl (mg_config (wb_manager W)) tc)) p"
  shows "sp (requestClient W (Some tc)) p G E"
proof (rule specI)
  fix s assume s: "Inv s" "vw s = p"
  let ?a = "(Us s, C s, we_getCounters (wb_env W) s)"
  show "wp (requestClient W (Some tc)) (\<lambda>c s'. Inv s' \<and> G c (vw s')) (\<lambda>e s'. Inv s' \<and> E e (vw s')) s"
    unfolding requestClient_def getTenantCode_def
    by (rule order_services.clientFor_wp [OF order_listing.axioms(1) [OF order_ok [of ?a]]])
       (use s assms in \<open>auto simp: vw_def tenant_client_def\<close>)
qed

lemma fromPipe_spec: "(\<And>e. x = Inl e \<Longrightarrow> E e p) \<Longrightarrow> (\<And>y. x = Inr y \<Longrightarrow> G y p) \<Longrightarrow> sp (fromPipe x) p G E"
  by (auto simp: fromPipe_def split: sum.split intro: spec_ret spec_throw)

section \<open>The product service\<close>

text \<open>A contract of the tables, kept under every other part, is a rule on the parts.\<close>

lemma tables_spec:
  assumes "\<And>s. Inv s \<Longrightarrow> vw s = p \<Longrightarrow> wp m (\<lambda>x s'. (Inv s' \<and> (Us s', C s', we_getCounters (wb_env W) s') = (vu p, vc p, vk p)) \<and> Q s' = vq p \<and> G x (T s'))
      (\<lambda>e s'. (Inv s' \<and> (Us s', C s', we_getCounters (wb_env W) s') = (vu p, vc p, vk p)) \<and> Q s' = vq p \<and> E e (T s')) s"
  shows "sp m p (\<lambda>x p'. \<exists>t. p' = p\<lparr>vt := t\<rparr> \<and> G x t) (\<lambda>e p'. \<exists>t. p' = p\<lparr>vt := t\<rparr> \<and> E e t)"
  by (rule specI, rule wp_conseq [OF assms]) (auto simp: vw_def)

lemma store_at: "prisma_store (wb_prisma W) (\<lambda>s. (Inv s \<and> (Us s, C s, we_getCounters (wb_env W) s) = a) \<and> Q s = q) T loc"
  by (rule order_services.store [OF order_listing.axioms(1) [OF order_ok]])

lemma productFindOne_spec:
  "sp (productFindOne (wb_prisma W) c pid tc) p
    (\<lambda>x p'. \<exists>t. p' = p\<lparr>vt := t\<rparr> \<and> t = vt p \<and> products (vt p (loc c)) pid = Some x)
    (\<lambda>e p'. \<exists>t. p' = p\<lparr>vt := t\<rparr> \<and> t = vt p)"
  by (rule tables_spec, rule wp_conseq [OF prisma_store.productFindOne_wp [OF store_at [of "(vu p, vc p, vk p)" "vq p"]]])
     (auto simp: vw_def)

lemma productUpdate_spec:
  "sp (productUpdate (wb_prisma W) c pid w tc) p
    (\<lambda>x p'. \<exists>t. p' = p\<lparr>vt := t\<rparr> \<and> same_but (loc c) (vt p) t \<and> product_changed (vt p (loc c)) pid (Some x) (t (loc c)) \<and>
       (\<exists>y tm. products (vt p (loc c)) pid = Some y \<and> x = apply_product_data w tm y))
    (\<lambda>e p'. \<exists>t. p' = p\<lparr>vt := t\<rparr> \<and> t = vt p)"
  by (rule tables_spec, rule wp_conseq [OF prisma_store.productUpdate_wp [OF store_at [of "(vu p, vc p, vk p)" "vq p"]]])
     (auto simp: vw_def)

lemma productCreate_spec:
  "sp (productCreate (wb_prisma W) c ctx dto) p
    (\<lambda>x p'. \<exists>t. p' = p\<lparr>vt := t\<rparr> \<and> same_but (loc c) (vt p) t \<and> products (vt p (loc c)) (p_id x) = None \<and>
       p_name x = cp_name dto \<and> product_changed (vt p (loc c)) (p_id x) (Some x) (t (loc c)))
    (\<lambda>e p'. \<exists>t. p' = p\<lparr>vt := t\<rparr> \<and> t = vt p)"
  by (rule tables_spec, rule wp_conseq [OF prisma_store.productCreate_wp [OF store_at [of "(vu p, vc p, vk p)" "vq p"]]])
     (auto simp: vw_def)

end

end
