(* ===== verification/WebReference.thy ===== *)
theory WebReference
  imports WebServices AuthReference
begin

text \<open>
  The reference world as a provider of the whole web contract: Redis is a list of entries, the clock
  advances by one millisecond with every reading.
\<close>

definition on_web :: "(web_mem \<Rightarrow> web_mem) \<Rightarrow> ref_state \<Rightarrow> ref_state" where
  "on_web f s = s\<lparr>rs_web := f (rs_web s)\<rparr>"

definition ref_env :: "ref_state web_env" where
  "ref_env = \<lparr>
     we_now = \<lambda>s. (wm_clock (rs_web s), on_web (\<lambda>w. w\<lparr>wm_clock := wm_clock w + 1\<rparr>) s),
     we_log = \<lambda>e. on_web (\<lambda>w. w\<lparr>wm_log := wm_log w @ [e]\<rparr>),
     we_setHeader = \<lambda>k v. on_web (\<lambda>w. w\<lparr>wm_headers := wm_headers w @ [(k, v)]\<rparr>),
     we_getCounters = \<lambda>s. wm_counters (rs_web s),
     we_putCounters = \<lambda>k. on_web (\<lambda>w. w\<lparr>wm_counters := k\<rparr>)\<rparr>"

definition web_redis :: "ref_state redis_api" where
  "web_redis = \<lparr>
     redis_get = \<lambda>k s. (Inr (map_of (wm_redis (rs_web s)) k), s),
     redis_setex = \<lambda>k _ v s. (Inr (), on_web (\<lambda>w. w\<lparr>wm_redis := (k, v) # wm_redis w\<rparr>) s),
     redis_del = \<lambda>ks s. (Inr (), on_web (\<lambda>w. w\<lparr>wm_redis := filter (\<lambda>e. fst e \<notin> set ks) (wm_redis w)\<rparr>) s),
     redis_keys = \<lambda>p s. (Inr (filter (\<lambda>k. startsWith k (butlast p)) (map fst (wm_redis (rs_web s)))), s),
     redis_ping = \<lambda>s. (Inr ''PONG'', s), redis_quit = \<lambda>s. (Inr (), s)\<rparr>"

text \<open>No migrations: every raw statement succeeds and the directory is empty.\<close>

definition ref_sql :: "ref_state sql_api" where
  "ref_sql = \<lparr>sql_connect = \<lambda>_ s. (Inr (), s), sql_disconnect = \<lambda>_ s. (Inr (), s), sql_execute = \<lambda>_ _ s. (Inr (), s),
     sql_query = \<lambda>_ _ s. (Inr [], s)\<rparr>"

definition ref_fs :: "ref_state fs_api" where
  "ref_fs = \<lparr>fs_readdir = \<lambda>_ s. (Inr [], s), fs_exists = \<lambda>_ s. (False, s), fs_readFile = \<lambda>_ s. (Inl ''ENOENT'', s), fs_cwd = ''/app''\<rparr>"

text \<open>A decimal with at most two places.\<close>

definition ref_decimal :: "rat \<Rightarrow> string" where
  "ref_decimal x = show_int \<lfloor>x\<rfloor> @ (let c = \<lfloor>x * 100\<rfloor> mod 100 in if c = 0 then [] else ''.'' @ pad 2 c)"

definition ref_web :: "ref_state web" where
  "ref_web = \<lparr>wb_env = ref_env, wb_prisma = ref_prisma, wb_user = ref_user, wb_bcrypt = ref_bcrypt, wb_amqp = ref_amqp,
     wb_jwt = ref_jwt, wb_redis = web_redis, wb_manager = ref_manager, wb_sql = ref_sql, wb_fs = ref_fs,
     wb_decimal = ref_decimal\<rparr>"

definition redis_map :: "ref_state \<Rightarrow> string \<rightharpoonup> string" where
  "redis_map s = map_of (wm_redis (rs_web s))"

lemma on_web_sel [simp]:
  "rs_dbs (on_web f s) = rs_dbs s" "rs_users (on_web f s) = rs_users s" "rs_queues (on_web f s) = rs_queues s"
  "rs_conns (on_web f s) = rs_conns s" "rs_rmq (on_web f s) = rs_rmq s" "rs_web (on_web f s) = f (rs_web s)"
  by (simp_all add: on_web_def)

lemma on_web_parts [simp]:
  "uref_inv (on_web f s) = uref_inv s" "ref_tables (on_web f s) = ref_tables s" "uref (on_web f s) = uref s"
  by (simp_all add: uref_inv_def ref_inv_def ref_tables_def uref_def fun_eq_iff)

lemma parts_apart [simp]:
  "uref (s\<lparr>rs_dbs := d\<rparr>) = uref s" "ref_tables (s\<lparr>rs_users := us\<rparr>) = ref_tables s"
  by (simp_all add: uref_def ref_tables_def fun_eq_iff)

lemma ref_web_sel [simp]:
  "wb_env ref_web = ref_env" "wb_prisma ref_web = ref_prisma" "wb_user ref_web = ref_user" "wb_bcrypt ref_web = ref_bcrypt"
  "wb_amqp ref_web = ref_amqp" "wb_jwt ref_web = ref_jwt" "wb_redis ref_web = web_redis" "wb_manager ref_web = ref_manager"
  by (simp_all add: ref_web_def)

lemma ref_count [simp]: "we_getCounters ref_env s = wm_counters (rs_web s)"
  by (simp add: ref_env_def)

section \<open>The contracts\<close>

lemma web_store:
  "prisma_store ref_prisma (\<lambda>s. (uref_inv s \<and> (uref s, redis_map s, wm_counters (rs_web s)) = a) \<and> rs_queues s = q) ref_tables id"
  unfolding uref_inv_def conj_assoc
  by (rule ref_prisma_frame [where X = "\<lambda>s. users_ok (rs_users s) \<and> (uref s, redis_map s, wm_counters (rs_web s)) = a \<and> rs_queues s = q"])
     (simp add: off_dbs_def redis_map_def)

lemma web_orders:
  "order_listing ref_prisma ref_amqp ref_manager ref_uuid
    (\<lambda>s. uref_inv s \<and> (uref s, redis_map s, wm_counters (rs_web s)) = a) ref_tables id rs_queues ref_user"
proof (intro order_listing.intro order_services.intro web_store order_listing_axioms.intro)
  show "broker_store ref_amqp (\<lambda>s. (uref_inv s \<and> (uref s, redis_map s, wm_counters (rs_web s)) = a) \<and> ref_tables s = t) rs_queues" for t
    by unfold_locales
       (auto simp: ref_amqp_def when_up_def uref_inv_def ref_inv_def uref_def redis_map_def ref_tables_def fun_eq_iff split: if_splits)
qed (auto simp: ref_manager_def ref_uuid_def uref_inv_def ref_inv_def ref_tables_def ref_amqp_def when_up_def uref_def
    redis_map_def ref_user_def ref_user_op_def fun_eq_iff)

lemma web_auth:
  "auth_services ref_user ref_bcrypt ref_amqp (\<lambda>s. uref_inv s \<and> (ref_tables s, redis_map s, wm_counters (rs_web s)) = b)
    uref (\<lambda>_. ()) rs_queues (\<lambda>pw h. h = ref_hash pw) ref_jwt (\<lambda>p tok. tok = ref_token p)"
proof (intro auth_services.intro user_services.intro auth_services_axioms.intro)
  show "user_store ref_user (\<lambda>s. (uref_inv s \<and> (ref_tables s, redis_map s, wm_counters (rs_web s)) = b) \<and> rs_queues s = q) uref (\<lambda>_. ())" for q
    unfolding conj_assoc
    by (rule uref_frame [where X = "\<lambda>s. (ref_tables s, redis_map s, wm_counters (rs_web s)) = b \<and> rs_queues s = q"])
       (simp add: off_users_def redis_map_def)
  show "broker_store ref_amqp (\<lambda>s. (uref_inv s \<and> (ref_tables s, redis_map s, wm_counters (rs_web s)) = b) \<and> uref s = w) rs_queues" for w
    by unfold_locales
       (auto simp: ref_amqp_def when_up_def uref_inv_def ref_inv_def uref_def redis_map_def ref_tables_def fun_eq_iff split: if_splits)
qed (auto simp: ref_bcrypt_def ref_jwt_def dest: ref_verify_signed)

lemma web_cache:
  "cache_store web_redis (\<lambda>s. uref_inv s \<and> (ref_tables s, rs_queues s, uref s, wm_counters (rs_web s)) = d) redis_map"
  by unfold_locales
     (auto simp: web_redis_def redis_map_def map_of_filter_notin dom_map_of_conv_image_fst, force)

interpretation ref_site:
  web_services ref_web ref_uuid uref_inv ref_tables id rs_queues uref "\<lambda>_. ()" redis_map "\<lambda>pw h. h = ref_hash pw"
    "\<lambda>p tok. tok = ref_token p"
  by (intro web_services.intro; unfold ref_web_sel ref_count)
     (rule web_orders web_auth web_cache | auto simp: ref_env_def redis_map_def)+

end
