(* ===== verification/WebTheorems.thy ===== *)
theory WebTheorems
  imports WebReference AuthTheorems ProductTheorems
begin

text \<open>
  Properties of whole requests, from the bearer token to the answer, over every world that keeps
  the web contract, each with an execution on the reference world.
\<close>

section \<open>Endpoints\<close>

lemma tenant_of_path: "map_of (rq_params req) ''tenantCode'' = Some tc \<Longrightarrow> tc \<noteq> [] \<Longrightarrow> tenantIntercept req ctx = Some tc"
  by (simp add: tenantIntercept_def truthy_def setTenantCode_def)

lemma tenant_param: "map_of (rq_params req) ''tenantCode'' = Some tc \<Longrightarrow> tc \<noteq> [] \<Longrightarrow> tenantCodeParam req = Inr tc"
  by (cases tc) (auto simp: tenantCodeParam_def)

lemma withUser_sel [simp]:
  "rq_params (hr_request (withUser u hq)) = rq_params (hr_request hq)" "rq_query (hr_request (withUser u hq)) = rq_query (hr_request hq)"
  "rq_user (hr_request (withUser u hq)) = Some u"
  by (simp_all add: withUser_def)

lemma route_sel [simp]:
  "rt_controller (productRoute m rs msg) = ''ProductController''" "rt_method (productRoute m rs msg) = m"
  "rt_roles (productRoute m rs msg) = Some rs" "rt_cacheable (productRoute m rs msg) = None"
  "rt_invalidate (productRoute m rs msg) = None" "rt_rateLimit (productRoute m rs msg) = None"
  "rt_classRateLimit (productRoute m rs msg) = limit 60000 60"
  "rt_controller (orderRoute m rs msg) = ''OrderController''" "rt_method (orderRoute m rs msg) = m"
  "rt_roles (orderRoute m rs msg) = Some rs" "rt_cacheable (orderRoute m rs msg) = None" "rt_invalidate (orderRoute m rs msg) = None"
  by (simp_all add: productRoute_def orderRoute_def)

text \<open>The request carries the token of a stored account that has one of the roles.\<close>

definition authorised ::
  "(jwt_payload \<Rightarrow> string \<Rightarrow> bool) \<Rightarrow> (string \<rightharpoonup> user_row) \<Rightarrow> http_request \<Rightarrow> Role list \<Rightarrow> user_row \<Rightarrow> bool" where
  "authorised token_of users hq rs u \<longleftrightarrow> u_role u \<in> set rs \<and>
    (\<exists>tok pl. hr_authorization hq = Some (''Bearer '' @ tok) \<and> token_of pl tok \<and> users (jp_sub pl) = Some u)"

text \<open>The key under which a product without query arguments is cached.\<close>

definition productKey :: "string \<Rightarrow> string \<Rightarrow> string" where
  "productKey tc pid = generateCacheKey (Some tc) ''ProductController'' ''findOne''
     (Some (KObj [(''tenantCode'', tc), (''id'', pid)])) None"

lemma product_args:
  "rq_params req = [(''tenantCode'', tc), (''id'', pid)] \<Longrightarrow> rq_query req = [] \<Longrightarrow>
   getMethodArguments req = Some [(''tenantCode'', tc), (''id'', pid)]"
  by (simp add: getMethodArguments_def js_assign_def)

lemma unchanged: "\<exists>k. p = p\<lparr>vk := k\<rparr>" for p :: "('k, 'l) parts"
  by (rule exI [of _ "vk p"]) simp

context web_services
begin

lemma productEndpoint_spec:
  assumes "rt_roles rt = Some rs" and "map_of (rq_params (hr_request hq)) ''tenantCode'' = Some tc" and "tc \<noteq> []"
    and "\<And>u req. authorised token_of (vu p (uloc DefaultClient)) hq rs u \<Longrightarrow> req = hr_request (withUser (auth_user_of u) hq) \<Longrightarrow>
      sp (cached W rt req (Some tc) (rateLimited (wb_env W) req (rt_method rt) (rt_controller rt) (rt_rateLimit rt)
        (rt_classRateLimit rt) (bindE (handle req (Some tc)) (\<lambda>d. ret (Some tc, d))))) p R E"
    and "\<And>a p'. R (re_data a) p' \<Longrightarrow> G a p'"
    and "\<And>e. \<exists>m. e = UnauthorizedException m \<or> e = ForbiddenException m \<or> e = RaisedError m \<Longrightarrow> E e p"
  shows "sp (productEndpoint W rt hq handle) p G E"
  unfolding productEndpoint_def
proof (rule guarded_spec)
  fix pl tok u
  assume "hr_authorization hq = Some (''Bearer '' @ tok)" "token_of pl tok" "vu p (uloc DefaultClient) (jp_sub pl) = Some u"
    "canActivate (rt_roles rt) (Some (auth_user_of u))"
  then have au: "authorised token_of (vu p (uloc DefaultClient)) hq rs u"
    using assms(1) by (auto simp: authorised_def canActivate_roles)
  have ctx: "tenantIntercept (hr_request (withUser (auth_user_of u) hq)) None = Some tc"
    using assms(2,3) by (intro tenant_of_path) simp_all
  show "sp (serve W rt (withUser (auth_user_of u) hq) (let ctx = tenantIntercept (hr_request (withUser (auth_user_of u) hq)) None
      in cached W rt (hr_request (withUser (auth_user_of u) hq)) ctx
        (rateLimited (wb_env W) (hr_request (withUser (auth_user_of u) hq)) (rt_method rt) (rt_controller rt) (rt_rateLimit rt)
          (rt_classRateLimit rt) (bindE (handle (hr_request (withUser (auth_user_of u) hq)) ctx) (\<lambda>d. ret (ctx, d)))))) p G E"
    unfolding Let_def ctx by (rule serve_spec [OF assms(4) [OF au refl]]) (rule assms(5))
qed (rule assms(6))

lemma orderEndpoint_spec:
  assumes "rt_roles rt = Some rs" and "map_of (rq_params (hr_request hq)) ''tenantCode'' = Some tc" and "tc \<noteq> []"
    and "\<And>u req. authorised token_of (vu p (uloc DefaultClient)) hq rs u \<Longrightarrow> req = hr_request (withUser (auth_user_of u) hq) \<Longrightarrow>
      sp (cached W rt req (Some tc) (handle (auth_user_of u) req (Some tc))) p R E"
    and "\<And>a p'. R (re_data a) p' \<Longrightarrow> G a p'" and "\<And>e. E e p"
  shows "sp (orderEndpoint W rt hq handle) p G E"
  unfolding orderEndpoint_def
proof (rule guarded_spec)
  fix pl tok u
  assume "hr_authorization hq = Some (''Bearer '' @ tok)" "token_of pl tok" "vu p (uloc DefaultClient) (jp_sub pl) = Some u"
    "canActivate (rt_roles rt) (Some (auth_user_of u))"
  then have au: "authorised token_of (vu p (uloc DefaultClient)) hq rs u"
    using assms(1) by (auto simp: authorised_def canActivate_roles)
  have ctx: "tenantIntercept (hr_request (withUser (auth_user_of u) hq)) None = Some tc"
    using assms(2,3) by (intro tenant_of_path) simp_all
  show "sp (serve W rt (withUser (auth_user_of u) hq) (let ctx = tenantIntercept (hr_request (withUser (auth_user_of u) hq)) None
      in cached W rt (hr_request (withUser (auth_user_of u) hq)) ctx (handle (auth_user_of u) (hr_request (withUser (auth_user_of u) hq)) ctx))) p G E"
    unfolding Let_def ctx by (rule serve_spec [OF assms(4) [OF au refl]]) (rule assms(5))
qed (rule assms(6))

abbreviation "tenantDb tc \<equiv> loc (UrlClient (databaseUrl (mg_config (wb_manager W)) tc))"

section \<open>Product requests\<close>

text \<open>The counter step in front of a handler that does not count.\<close>

lemma counted_spec:
  assumes "\<And>k. sp handle (p\<lparr>vk := k\<rparr>) G E" and "\<And>e k. E e (p\<lparr>vk := k\<rparr>)"
  shows "sp (rateLimited (wb_env W) req m c ho co handle) p G E"
  by (rule rateLimited_spec) (use assms in \<open>simp split: sum.split\<close>)

text \<open>A product operation on the client of the path's tenant, as the endpoints call it.\<close>

lemma product_body_spec:
  assumes tc: "tc \<noteq> []" "tc \<noteq> defaultKey"
    and "sp (opn (UrlClient (databaseUrl (mg_config (wb_manager W)) tc))) q (\<lambda>x p'. \<exists>t. p' = q\<lparr>vt := t\<rparr> \<and> A x t)
      (\<lambda>e p'. \<exists>t. p' = q\<lparr>vt := t\<rparr> \<and> t = vt q)"
  shows "sp (bindE (bindE (requestClient W (Some tc)) (\<lambda>c. bindE (opn c) (\<lambda>x. ret (J x)))) (\<lambda>d. ret (Some tc, d))) q
    (\<lambda>cd p'. \<exists>x t. p' = q\<lparr>vt := t\<rparr> \<and> cd = (Some tc, J x) \<and> A x t) (\<lambda>e p'. p' = q)"
  unfolding bindE_assoc bindE_ret
  by (rule spec_bind [OF requestClient_spec [OF tc, where
        G = "\<lambda>c p'. c = UrlClient (databaseUrl (mg_config (wb_manager W)) tc) \<and> p' = q"]], simp,
      elim conjE, hypsubst, rule spec_bind [OF spec_conseq [OF assms(3)]], assumption)
     (auto intro: spec_ret)

text \<open>A route that invalidates, around such an operation.\<close>

lemma product_write_spec:
  assumes tc: "tc \<noteq> []" "tc \<noteq> defaultKey" and "rt_invalidate rt = Some targets"
    and "\<And>k. sp (opn (UrlClient (databaseUrl (mg_config (wb_manager W)) tc))) (p\<lparr>vk := k\<rparr>) (\<lambda>x p'. \<exists>t. p' = p\<lparr>vk := k, vt := t\<rparr> \<and> A x t)
      (\<lambda>e p'. \<exists>t. p' = p\<lparr>vk := k, vt := t\<rparr> \<and> t = vt p)"
  shows "sp (cached W rt req (Some tc) (rateLimited (wb_env W) req m c ho co
      (bindE (bindE (requestClient W (Some tc)) (\<lambda>c. bindE (opn c) (\<lambda>x. ret (J x)))) (\<lambda>d. ret (Some tc, d))))) p
    (\<lambda>r p'. \<exists>x t k. p' = p\<lparr>vk := k, vt := t\<rparr> \<and> A x t \<and>
       r = (J x, forEach targets (invalidateTarget (wb_redis W) (Some tc) req (rt_controller rt))))
    (\<lambda>e p'. \<exists>k. p' = p\<lparr>vk := k\<rparr>)"
proof (rule invalidating_spec [OF assms(3)], rule counted_spec)
  fix k
  show "sp (bindE (bindE (requestClient W (Some tc)) (\<lambda>c. bindE (opn c) (\<lambda>x. ret (J x)))) (\<lambda>d. ret (Some tc, d))) (p\<lparr>vk := k\<rparr>)
    (\<lambda>cd p'. \<exists>x t k. p' = p\<lparr>vk := k, vt := t\<rparr> \<and> A x t \<and> cd = (Some tc, J x)) (\<lambda>e p'. \<exists>k. p' = p\<lparr>vk := k\<rparr>)"
    by (rule spec_conseq [OF product_body_spec [OF tc, where A = A]]) (use assms(4) [of k] in auto)
qed force+

lemma create_route_spec:
  assumes "map_of (rq_params (hr_request hq)) ''tenantCode'' = Some tc" and tc: "tc \<noteq> []" "tc \<noteq> defaultKey"
  shows "sp (productCreateEndpoint W hq (Inr dto)) p
    (\<lambda>a p'. \<exists>x t k u. p' = p\<lparr>vk := k, vt := t\<rparr> \<and> authorised token_of (vu p (uloc DefaultClient)) hq [ADMIN] u \<and>
       fst (re_data a) = productJson (wb_decimal W) x \<and> same_but (tenantDb tc) (vt p) t \<and>
       products (vt p (tenantDb tc)) (p_id x) = None \<and> p_name x = cp_name dto \<and>
       product_changed (vt p (tenantDb tc)) (p_id x) (Some x) (t (tenantDb tc)))
    (\<lambda>e p'. \<exists>k. p' = p\<lparr>vk := k\<rparr>)"
  unfolding productCreateEndpoint_def fromPipe_def sum.case bindE_ret
proof (rule productEndpoint_spec [OF _ assms(1) tc(1)])
  fix u req
  assume u: "authorised token_of (vu p (uloc DefaultClient)) hq [ADMIN] u"
  show "sp (cached W productCreateRoute req (Some tc) (rateLimited (wb_env W) req (rt_method productCreateRoute)
      (rt_controller productCreateRoute) (rt_rateLimit productCreateRoute) (rt_classRateLimit productCreateRoute)
      (bindE (bindE (requestClient W (Some tc)) (\<lambda>c. bindE (productCreate (wb_prisma W) c (Some tc) dto)
        (\<lambda>x. ret (productJson (wb_decimal W) x)))) (\<lambda>d. ret (Some tc, d))))) p
    (\<lambda>r p'. \<exists>x t k u. p' = p\<lparr>vk := k, vt := t\<rparr> \<and> authorised token_of (vu p (uloc DefaultClient)) hq [ADMIN] u \<and>
       fst r = productJson (wb_decimal W) x \<and> same_but (tenantDb tc) (vt p) t \<and>
       products (vt p (tenantDb tc)) (p_id x) = None \<and> p_name x = cp_name dto \<and>
       product_changed (vt p (tenantDb tc)) (p_id x) (Some x) (t (tenantDb tc)))
    (\<lambda>e p'. \<exists>k. p' = p\<lparr>vk := k\<rparr>)"
    by (rule spec_conseq [OF product_write_spec [OF tc, where opn = "\<lambda>c. productCreate (wb_prisma W) c (Some tc) dto" and
          A = "\<lambda>x t. same_but (tenantDb tc) (vt p) t \<and> products (vt p (tenantDb tc)) (p_id x) = None \<and>
            p_name x = cp_name dto \<and> product_changed (vt p (tenantDb tc)) (p_id x) (Some x) (t (tenantDb tc))"]])
       (use u productCreate_spec [where p = "p\<lparr>vk := k\<rparr>" for k] in \<open>force simp: productCreateRoute_def\<close>)+
qed (auto simp: productCreateRoute_def intro: unchanged)

lemma update_route_spec:
  assumes "map_of (rq_params (hr_request hq)) ''tenantCode'' = Some tc" and tc: "tc \<noteq> []" "tc \<noteq> defaultKey"
  shows "sp (productUpdateEndpoint W hq (Inr dto)) p
    (\<lambda>a p'. \<exists>x t k u. p' = p\<lparr>vk := k, vt := t\<rparr> \<and> authorised token_of (vu p (uloc DefaultClient)) hq [ADMIN] u \<and>
       products (t (tenantDb tc)) (paramId (hr_request hq)) = Some x \<and>
       re_data a = (productJson (wb_decimal W) x, forEach [TName ''findAll'', TName ''findOne'']
         (invalidateTarget (wb_redis W) (Some tc) (hr_request (withUser (auth_user_of u) hq)) ''ProductController'')))
    (\<lambda>e p'. True)"
  unfolding productUpdateEndpoint_def fromPipe_def sum.case bindE_ret
proof (rule productEndpoint_spec [OF _ assms(1) tc(1)])
  fix u req
  assume u: "authorised token_of (vu p (uloc DefaultClient)) hq [ADMIN] u" and req: "req = hr_request (withUser (auth_user_of u) hq)"
  have par: "tenantCodeParam req = Inr tc" "paramId req = paramId (hr_request hq)"
    using assms(1) tc(1) by (auto simp: req paramId_def intro!: tenant_param)
  show "sp (cached W productUpdateRoute req (Some tc) (rateLimited (wb_env W) req (rt_method productUpdateRoute)
      (rt_controller productUpdateRoute) (rt_rateLimit productUpdateRoute) (rt_classRateLimit productUpdateRoute)
      (bindE (bindE (case tenantCodeParam req of Inl e \<Rightarrow> throw e | Inr x \<Rightarrow> ret x) (\<lambda>tenantCode.
        bindE (requestClient W (Some tc)) (\<lambda>c. bindE (productUpdate (wb_prisma W) c (paramId req) dto tenantCode)
        (\<lambda>x. ret (productJson (wb_decimal W) x))))) (\<lambda>d. ret (Some tc, d))))) p
    (\<lambda>r p'. \<exists>x t k u. p' = p\<lparr>vk := k, vt := t\<rparr> \<and> authorised token_of (vu p (uloc DefaultClient)) hq [ADMIN] u \<and>
       products (t (tenantDb tc)) (paramId (hr_request hq)) = Some x \<and>
       r = (productJson (wb_decimal W) x, forEach [TName ''findAll'', TName ''findOne'']
         (invalidateTarget (wb_redis W) (Some tc) (hr_request (withUser (auth_user_of u) hq)) ''ProductController'')))
    (\<lambda>e p'. True)"
    unfolding par sum.case bindE_ret
    by (rule spec_conseq [OF product_write_spec [OF tc, where opn = "\<lambda>c. productUpdate (wb_prisma W) c (paramId (hr_request hq)) dto tc" and
          A = "\<lambda>x t. products (t (tenantDb tc)) (paramId (hr_request hq)) = Some x" and targets = "[TName ''findAll'', TName ''findOne'']"]])
       (use u req in \<open>force simp: productUpdateRoute_def product_changed_def intro: spec_conseq [OF productUpdate_spec]\<close>)+
qed (auto simp: productUpdateRoute_def)

lemma invalidate_product_spec:
  assumes "rq_params req = [(''tenantCode'', tc), (''id'', pid)]" and "rq_query req = []"
    and "\<And>ks s. Inv s \<Longrightarrow> \<not> isl (fst (redis_del (wb_redis W) ks s))"
  shows "sp (forEach [TName ''findAll'', TName ''findOne''] (invalidateTarget (wb_redis W) (Some tc) req ''ProductController'')) p
    (\<lambda>_ p'. \<exists>cs. p' = p\<lparr>vc := cs\<rparr> \<and> cs (productKey tc pid) = None) (\<lambda>_ _. False)"
proof -
  have del: "invalidateTarget (wb_redis W) (Some tc) req ''ProductController'' (TName m) =
      cacheDel (wb_redis W) (Some tc) ''ProductController'' m (Some (KObj [(''tenantCode'', tc), (''id'', pid)])) None"
    if "m \<noteq> ''*''" for m
    using product_args [OF assms(1,2)] that by (simp add: invalidateTarget_def)
  show ?thesis
    unfolding forEach.simps del [of "''findAll''", simplified] del [of "''findOne''", simplified]
  proof (rule spec_bind [OF spec_conseq [OF cacheDel_spec, where G = "\<lambda>_ p'. \<exists>cs. p' = p\<lparr>vc := cs\<rparr>"]], blast, blast)
    fix y p' assume "\<exists>cs. p' = p\<lparr>vc := cs\<rparr>"
    then show "sp (bindE (cacheDel (wb_redis W) (Some tc) ''ProductController'' ''findOne'' (Some (KObj [(''tenantCode'', tc), (''id'', pid)])) None)
        (\<lambda>_. ret ())) p' (\<lambda>_ p'. \<exists>cs. p' = p\<lparr>vc := cs\<rparr> \<and> cs (productKey tc pid) = None) (\<lambda>_ _. False)"
      using assms(3) by (auto simp: productKey_def intro!: spec_bind [OF cacheDel_spec] spec_ret)
  qed
qed

text \<open>An answered retrieval came out of the cache, or it was counted, admitted and read from the path's tenant.\<close>

lemma get_route_spec:
  assumes par: "rq_params (hr_request hq) = [(''tenantCode'', tc), (''id'', pid)]" "rq_query (hr_request hq) = []"
    and tc: "tc \<noteq> []" "tc \<noteq> defaultKey"
  shows "sp (productFindOneEndpoint W hq) p
    (\<lambda>a p'. (\<exists>txt. vc p (productKey tc pid) = Some txt \<and> json_parse txt = Some (fst (re_data a)) \<and> vk p' = vk p) \<or>
       (\<exists>u now h x. rateLimitIntercept (hr_request (withUser (auth_user_of u) hq)) ''findOne'' ''ProductController'' None (limit 60000 60) now (vk p) =
          ((Inr (), h), vk p') \<and> authorised token_of (vu p (uloc DefaultClient)) hq [ADMIN, CUSTOMER] u \<and>
          products (vt p (tenantDb tc)) pid = Some x \<and> fst (re_data a) = productJson (wb_decimal W) x)) (\<lambda>_ _. True)"
  unfolding productFindOneEndpoint_def fromPipe_def
proof (rule productEndpoint_spec [where tc = tc])
  fix u req
  assume u: "authorised token_of (vu p (uloc DefaultClient)) hq [ADMIN, CUSTOMER] u" and req: "req = hr_request (withUser (auth_user_of u) hq)"
  let ?R = "\<lambda>v p'. (\<exists>u now h x. rateLimitIntercept (hr_request (withUser (auth_user_of u) hq)) ''findOne'' ''ProductController'' None (limit 60000 60) now (vk p) =
          ((Inr (), h), vk p') \<and> authorised token_of (vu p (uloc DefaultClient)) hq [ADMIN, CUSTOMER] u \<and>
          products (vt p (tenantDb tc)) pid = Some x \<and> v = productJson (wb_decimal W) x)"
  have path: "tenantCodeParam req = Inr tc" "paramId req = pid"
    using par tc(1) by (auto simp: req paramId_def intro!: tenant_param)
  have key: "generateCacheKey (Some tc) (rt_controller productFindOneRoute) (rt_method productFindOneRoute)
      (retrievalArgs \<lparr>co_ttl = Some 300, co_includeArgs = None, co_includeUserId = None\<rparr> req) None = productKey tc pid"
    using product_args [of req tc pid] par by (simp add: req retrievalArgs_def productKey_def productFindOneRoute_def)
  have route: "rt_method productFindOneRoute = ''findOne''" "rt_controller productFindOneRoute = ''ProductController''"
    "rt_rateLimit productFindOneRoute = None" "rt_classRateLimit productFindOneRoute = limit 60000 60"
    by (simp_all add: productFindOneRoute_def)
  have miss: "sp (rateLimited (wb_env W) req (rt_method productFindOneRoute) (rt_controller productFindOneRoute)
      (rt_rateLimit productFindOneRoute) (rt_classRateLimit productFindOneRoute)
      (bindE (bindE (requestClient W (Some tc)) (\<lambda>c. bindE (productFindOne (wb_prisma W) c pid tc)
        (\<lambda>x. ret (productJson (wb_decimal W) x)))) (\<lambda>d. ret (Some tc, d)))) (p\<lparr>vc := cs\<rparr>) (\<lambda>cd. ?R (snd cd)) (\<lambda>_ _. True)" for cs
  proof (rule rateLimited_spec)
    fix now r h k
    assume "rateLimitIntercept req (rt_method productFindOneRoute) (rt_controller productFindOneRoute)
      (rt_rateLimit productFindOneRoute) (rt_classRateLimit productFindOneRoute) now (vk (p\<lparr>vc := cs\<rparr>)) = ((r, h), k)"
    then have count: "r = Inr y \<Longrightarrow> rateLimitIntercept (hr_request (withUser (auth_user_of u) hq)) ''findOne'' ''ProductController'' None
        (limit 60000 60) now (vk p) = ((Inr (), h), k)" for y
      by (simp add: req route)
    have "sp (bindE (bindE (requestClient W (Some tc)) (\<lambda>c. bindE (productFindOne (wb_prisma W) c pid tc)
        (\<lambda>x. ret (productJson (wb_decimal W) x)))) (\<lambda>d. ret (Some tc, d))) (p\<lparr>vc := cs, vk := k\<rparr>) (\<lambda>cd. ?R (snd cd)) (\<lambda>_ _. True)"
      if "r = Inr y" for y
      by (rule spec_conseq [OF product_body_spec [OF tc, where A = "\<lambda>x t. products (vt p (tenantDb tc)) pid = Some x"]])
         (use count [OF that] u in \<open>auto intro: spec_conseq [OF productFindOne_spec]\<close>, blast)
    then show "case r of Inl e \<Rightarrow> True | Inr _ \<Rightarrow> sp (bindE (bindE (requestClient W (Some tc)) (\<lambda>c. bindE (productFindOne (wb_prisma W) c pid tc)
        (\<lambda>x. ret (productJson (wb_decimal W) x)))) (\<lambda>d. ret (Some tc, d))) (p\<lparr>vc := cs, vk := k\<rparr>) (\<lambda>cd. ?R (snd cd)) (\<lambda>_ _. True)"
      by (simp split: sum.split)
  qed
  show "sp (cached W productFindOneRoute req (Some tc) (rateLimited (wb_env W) req (rt_method productFindOneRoute)
      (rt_controller productFindOneRoute) (rt_rateLimit productFindOneRoute) (rt_classRateLimit productFindOneRoute)
      (bindE (bindE (case tenantCodeParam req of Inl e \<Rightarrow> throw e | Inr x \<Rightarrow> ret x) (\<lambda>tenantCode.
        bindE (requestClient W (Some tc)) (\<lambda>c. bindE (productFindOne (wb_prisma W) c (paramId req) tenantCode)
        (\<lambda>x. ret (productJson (wb_decimal W) x))))) (\<lambda>d. ret (Some tc, d))))) p
    (\<lambda>r p'. (\<exists>txt. vc p (productKey tc pid) = Some txt \<and> json_parse txt = Some (fst r) \<and> vk p' = vk p) \<or> ?R (fst r) p') (\<lambda>_ _. True)"
    unfolding path sum.case bindE_ret
    by (rule cacheable_spec [OF _ _ _ miss]) (auto simp: productFindOneRoute_def cacheFor_def key [unfolded route])
qed (use par tc in \<open>auto simp: productFindOneRoute_def\<close>)

end

section \<open>Executions\<close>

lemmas ref_site_ok = ref_site.web_services_axioms

text \<open>A request of \<open>u\<close> on an element of tenant \<open>acme\<close>, without body or query arguments.\<close>

definition ex_request :: "user_row \<Rightarrow> string \<Rightarrow> string \<Rightarrow> http_request" where
  "ex_request u meth oid = \<lparr>hr_method = meth, hr_url = ''/'', hr_userAgent = None, hr_authorization = ex_bearer u,
     hr_body = None, hr_statusCode = 200,
     hr_request = \<lparr>rq_ip = ''10.0.0.1'', rq_params = [(''tenantCode'', ''acme''), (''id'', oid)], rq_query = [], rq_user = None\<rparr>\<rparr>"

definition ex_behind :: "user_row \<Rightarrow> string \<Rightarrow> string \<Rightarrow> request" where
  "ex_behind u m i = hr_request (withUser (auth_user_of u) (ex_request u m i))"

lemma ex_path:
  "map_of (rq_params (hr_request (ex_request u m i))) ''tenantCode'' = Some ''acme''"
  "rq_params (hr_request (ex_request u m i)) = [(''tenantCode'', ''acme''), (''id'', i)]" "rq_query (hr_request (ex_request u m i)) = []"
  by (simp_all add: ex_request_def)

lemma ex_code: "''acme'' \<noteq> []" "''acme'' \<noteq> defaultKey"
  by (simp_all add: defaultKey_def)

lemma ex_tenant: "UrlClient (databaseUrl (mg_config ref_manager) ''acme'') = ex_client"
  by code_simp

lemma ex_redis: "\<not> isl (fst (redis_del web_redis ks s))"
  by (simp add: web_redis_def)

definition ex_waiting :: ref_state where
  "ex_waiting = (ex_state WAITING_FOR_PAYMENT)\<lparr>rs_users := [ex_admin, ex_alice]\<rparr>"

lemma ex_waiting_inv: "uref_inv ex_waiting"
  using ex_inv [of WAITING_FOR_PAYMENT] ex_world_inv by (simp add: ex_waiting_def ex_world_def uref_inv_def ref_inv_def)

text \<open>What the guards and the global interceptors do on the reference world.\<close>

lemma ref_payload_token: "ref_payload (ref_token p) = Some p"
  unfolding ref_payload_def ref_token_def json_roundtrip by (cases p) (auto split: Role.split option.split)

definition ticked :: "int \<Rightarrow> log_entry list \<Rightarrow> ref_state \<Rightarrow> ref_state" where
  "ticked n l = on_web (\<lambda>w. w\<lparr>wm_log := l, wm_clock := wm_clock w + n\<rparr>)"

lemma ref_guarded:
  assumes "find (\<lambda>v. u_id v = u_id u) (rs_users s) = Some u" and "canActivate (rt_roles rt) (Some (auth_user_of u))"
    and "hr_authorization hq = ex_bearer u"
  shows "run (guarded_route ref_web rt hq handle) s =
    run (serve ref_web rt (withUser (auth_user_of u) hq) (handle (auth_user_of u) (hr_request (withUser (auth_user_of u) hq)))) s"
proof -
  have "ref_verify (ex_bearer u) = Inr (loginPayload (select_user u))"
    by (simp add: ref_verify_def ex_bearer_def startsWith_iff ref_payload_token)
  then show ?thesis
    using assms by (simp add: guarded_route_def withGuards_def jwtValidate_def async_simps ref_jwt_def ref_user_def ref_user_op_def
        loginPayload_def select_user_def)
qed

lemma ticked_ticked: "ticked n l (ticked m l' s) = ticked (m + n) l s"
  by (simp add: ticked_def on_web_def)

lemma ref_clock:
  "we_now ref_env s = (wm_clock (rs_web s), ticked 1 (wm_log (rs_web s)) s)"
  "logNow ref_env f s = (wm_clock (rs_web s), ticked 2 (wm_log (rs_web s) @ [f (wm_clock (rs_web s)) (wm_clock (rs_web s) + 1)]) s)"
  by (simp_all add: logNow_def ref_env_def ticked_def on_web_def)

text \<open>\<open>m\<close> answers in \<open>s\<close> what \<open>h\<close> answers a moment later, up to the log and the clock.\<close>

definition fronts :: "(ref_state, ref_state answer) handler \<Rightarrow> (ref_state, json \<times> (ref_state, unit) handler) handler \<Rightarrow> ref_state \<Rightarrow> bool" where
  "fronts m h s \<longleftrightarrow> (\<exists>l. case run h (ticked 2 l s) of
      (Inl e, s') \<Rightarrow> \<exists>l'. run m s = (Inl e, ticked 2 l' s')
    | (Inr x, s') \<Rightarrow> \<exists>a l'. run m s = (Inr a, ticked 3 l' s') \<and> re_data a = x)"

lemma ref_serve: "fronts (serve ref_web rt hq h) h s"
proof -
  let ?l = "wm_log (rs_web s) @ [LogInfo (requestLine (toISOString (wm_clock (rs_web s) + 1)) hq)]"
  show ?thesis
    unfolding fronts_def
    by (rule exI [of _ ?l], cases "run h (ticked 2 ?l s)"; cases "fst (run h (ticked 2 ?l s))")
       (auto simp: serve_def logIntercept_def apiIntercept_def async_simps ref_clock ticked_ticked)
qed

lemma fronts_run_Inr:
  assumes "fronts m h s" and "\<And>l. \<not> isl (fst (run h (ticked 2 l s)))"
  shows "\<exists>l l' a. run m s = (Inr a, ticked 3 l' (snd (run h (ticked 2 l s)))) \<and> re_data a = projr (fst (run h (ticked 2 l s)))"
proof -
  obtain l where l: "case run h (ticked 2 l s) of (Inl e, s') \<Rightarrow> \<exists>l'. run m s = (Inl e, ticked 2 l' s')
    | (Inr x, s') \<Rightarrow> \<exists>a l'. run m s = (Inr a, ticked 3 l' s') \<and> re_data a = x"
    using assms(1) unfolding fronts_def by (elim exE)
  show ?thesis
    by (rule exI [of _ l]) (use l assms(2) [of l] in \<open>cases "run h (ticked 2 l s)"; cases "fst (run h (ticked 2 l s))"; auto\<close>)
qed

lemma fronts_answers: "fronts m h s \<Longrightarrow> (\<And>l. \<not> isl (fst (run h (ticked 2 l s)))) \<Longrightarrow> \<not> isl (fst (run m s))"
  using fronts_run_Inr [of m h s] by fastforce

lemma fronts_run:
  assumes "fronts m' h s" and "run m s = run m' s"
  shows "fronts m h s"
  using assms(1) unfolding fronts_def assms(2) .

lemma checked_run:
  assumes "\<not> isl (fst (run (bindE (sync (\<lambda>s. (P s, f s))) (\<lambda>b. if b then m else throw e)) s))"
  shows "P s" and "\<not> isl (fst (run m (f s)))"
  using assms by (auto simp: async_simps split: if_splits)

text \<open>The endpoints, in front of what stands behind the tenant interceptor.\<close>

lemma ref_product:
  fixes u m i
  defines "req \<equiv> hr_request (withUser (auth_user_of u) (ex_request u m i))"
  assumes u: "find (\<lambda>v. u_id v = u_id u) (rs_users s) = Some u" "canActivate (rt_roles rt) (Some (auth_user_of u))"
  shows "fronts (productEndpoint ref_web rt (ex_request u m i) handle)
    (cached ref_web rt req (Some ''acme'') (rateLimited ref_env req (rt_method rt) (rt_controller rt) (rt_rateLimit rt)
      (rt_classRateLimit rt) (bindE (handle req (Some ''acme'')) (\<lambda>d. ret (Some ''acme'', d))))) s"
proof -
  have "tenantIntercept req None = Some ''acme''" unfolding req_def by (rule tenant_of_path) (simp_all add: ex_request_def)
  moreover have "hr_authorization (ex_request u m i) = ex_bearer u" by (simp add: ex_request_def)
  ultimately show ?thesis
    by (intro fronts_run [OF ref_serve]) (simp add: productEndpoint_def ref_guarded [OF u] req_def Let_def)
qed

lemma ref_order:
  fixes u m i
  defines "req \<equiv> hr_request (withUser (auth_user_of u) (ex_request u m i))"
  assumes u: "find (\<lambda>v. u_id v = u_id u) (rs_users s) = Some u" "canActivate (rt_roles rt) (Some (auth_user_of u))"
  shows "fronts (orderEndpoint ref_web rt (ex_request u m i) handle)
    (cached ref_web rt req (Some ''acme'') (handle (auth_user_of u) req (Some ''acme''))) s"
proof -
  have "tenantIntercept req None = Some ''acme''" unfolding req_def by (rule tenant_of_path) (simp_all add: ex_request_def)
  moreover have "hr_authorization (ex_request u m i) = ex_bearer u" by (simp add: ex_request_def)
  ultimately show ?thesis
    by (intro fronts_run [OF ref_serve]) (simp add: orderEndpoint_def ref_guarded [OF u] req_def Let_def)
qed

lemma answered: "\<not> isl (fst res) \<Longrightarrow> res = (Inr (projr (fst res)), snd res)"
  by (cases res; cases "fst res") auto

text \<open>A product in the cache, a patch, a product and the administrator of another tenant.\<close>

definition ex_cached :: ref_state where
  "ex_cached = on_web (\<lambda>w. w\<lparr>wm_redis := [(productKey ''acme'' ''p1'', ''{}'')]\<rparr>) ex_world"

definition ex_patch :: product_data where
  "ex_patch = \<lparr>pd_name = Some ''Cup'', pd_description = None, pd_price = None, pd_stock = None\<rparr>"

definition ex_new :: create_product where
  "ex_new = \<lparr>cp_name = ''Jug'', cp_description = None, cp_price = 5, cp_stock = Some 1\<rparr>"

definition ex_rival :: user_row where
  "ex_rival = ex_owner\<lparr>u_id := ''rival'', u_email := ''r@globex.com'', u_username := ''rival'', u_tenantCode := Some ''globex''\<rparr>"

definition ex_rivals :: ref_state where
  "ex_rivals = (ex_state PAID)\<lparr>rs_users := [ex_owner, ex_rival]\<rparr>"

lemma ex_cached_inv: "uref_inv ex_cached"
  by (simp add: ex_cached_def ex_world_inv)

lemma ex_rivals_inv: "uref_inv ex_rivals"
proof -
  have "ref_inv ex_rivals" using ex_inv [of PAID] by (simp add: ex_rivals_def ref_inv_def)
  moreover have "users_wf (tbl u_id [ex_owner, ex_rival])"
    by (auto simp: users_wf_def tbl_def clash_def ex_rival_def ex_owner_def split: if_splits)
  ultimately show ?thesis by (simp add: uref_inv_def users_ok_def ex_rivals_def ex_rival_def ex_owner_def)
qed

section \<open>Properties\<close>





text \<open>
  C29: An answered \<open>GET :tenantCode/products/:id\<close> was either served from the cache, under the key of
  exactly that tenant and product and without being counted by the rate limiter, or it was counted,
  admitted, authorised and read from the tenant's database. The cache interceptor stands in front of
  the limiter, so a cached product can be fetched without limit.
\<close>

theorem cached_reply_uncounted:
  assumes "web_services W gen Inv T loc Q Us uloc C matches token_of" and "Inv s"
    and "rq_params (hr_request hq) = [(''tenantCode'', tc), (''id'', pid)]" and "rq_query (hr_request hq) = []"
    and "tc \<noteq> []" and "tc \<noteq> defaultKey" and "run (productFindOneEndpoint W hq) s = (Inr a, s')"
  shows "(\<exists>txt. C s (productKey tc pid) = Some txt \<and> json_parse txt = Some (fst (re_data a)) \<and>
       we_getCounters (wb_env W) s' = we_getCounters (wb_env W) s) \<or>
    (\<exists>u now h x. rateLimitIntercept (hr_request (withUser (auth_user_of u) hq)) ''findOne'' ''ProductController'' None
         (limit 60000 60) now (we_getCounters (wb_env W) s) = ((Inr (), h), we_getCounters (wb_env W) s') \<and>
       authorised token_of (Us s (uloc DefaultClient)) hq [ADMIN, CUSTOMER] u \<and>
       products (T s (loc (UrlClient (databaseUrl (mg_config (wb_manager W)) tc)))) pid = Some x \<and>
       fst (re_data a) = productJson (wb_decimal W) x)"
  using spec_run [OF web_services.get_route_spec [OF assms(1,3-6)] assms(2) refl assms(7)]
  by (simp add: web_services.vw_sel [OF assms(1)])

theorem cached_reply_uncounted_witness:
  "let res = run (productFindOneEndpoint ref_web (ex_request ex_alice ''GET'' ''p1'')) ex_cached
   in \<not> isl (fst res) \<and>
    ((\<exists>txt. redis_map ex_cached (productKey ''acme'' ''p1'') = Some txt \<and> json_parse txt = Some (fst (re_data (projr (fst res)))) \<and>
       wm_counters (rs_web (snd res)) = wm_counters (rs_web ex_cached)) \<or>
    (\<exists>u now h x. rateLimitIntercept (hr_request (withUser (auth_user_of u) (ex_request ex_alice ''GET'' ''p1''))) ''findOne''
         ''ProductController'' None (limit 60000 60) now (wm_counters (rs_web ex_cached)) = ((Inr (), h), wm_counters (rs_web (snd res))) \<and>
       authorised (\<lambda>p tok. tok = ref_token p) (uref ex_cached ()) (ex_request ex_alice ''GET'' ''p1'') [ADMIN, CUSTOMER] u \<and>
       products (ref_tables ex_cached ex_client) ''p1'' = Some x \<and>
       fst (re_data (projr (fst res))) = productJson (wb_decimal ref_web) x))"
  unfolding Let_def
proof (rule conjI)
  show res: "\<not> isl (fst (run (productFindOneEndpoint ref_web (ex_request ex_alice ''GET'' ''p1'')) ex_cached))"
    unfolding productFindOneEndpoint_def by (rule fronts_answers [OF ref_product]; code_simp)
  note r = cached_reply_uncounted [OF ref_site_ok ex_cached_inv ex_path(2,3) ex_code answered [OF res],
      unfolded ref_web_sel ref_count ex_tenant id_apply]
  show "(\<exists>txt. redis_map ex_cached (productKey ''acme'' ''p1'') = Some txt \<and> json_parse txt =
         Some (fst (re_data (projr (fst (run (productFindOneEndpoint ref_web (ex_request ex_alice ''GET'' ''p1'')) ex_cached))))) \<and>
       wm_counters (rs_web (snd (run (productFindOneEndpoint ref_web (ex_request ex_alice ''GET'' ''p1'')) ex_cached))) = wm_counters (rs_web ex_cached)) \<or>
    (\<exists>u now h x. rateLimitIntercept (hr_request (withUser (auth_user_of u) (ex_request ex_alice ''GET'' ''p1''))) ''findOne''
         ''ProductController'' None (limit 60000 60) now (wm_counters (rs_web ex_cached)) =
           ((Inr (), h), wm_counters (rs_web (snd (run (productFindOneEndpoint ref_web (ex_request ex_alice ''GET'' ''p1'')) ex_cached)))) \<and>
       authorised (\<lambda>p tok. tok = ref_token p) (uref ex_cached ()) (ex_request ex_alice ''GET'' ''p1'') [ADMIN, CUSTOMER] u \<and>
       products (ref_tables ex_cached ex_client) ''p1'' = Some x \<and>
       fst (re_data (projr (fst (run (productFindOneEndpoint ref_web (ex_request ex_alice ''GET'' ''p1'')) ex_cached)))) = productJson (wb_decimal ref_web) x)"
    by (rule r)
qed

end
