(* ===== verification/OrderRoutes.thy ===== *)
theory OrderRoutes
  imports WebTheorems
begin

text \<open>
  What a request to the order controller can change: at most the database of the tenant in its path,
  never an order of somebody else, and never the counters of the rate limiter.
\<close>

text \<open>The orders of everybody but \<open>uid\<close> are as they were.\<close>

definition others_kept :: "string \<Rightarrow> db \<Rightarrow> db \<Rightarrow> bool" where
  "others_kept uid d d' \<longleftrightarrow> (\<forall>i r. orders d i = Some r \<longrightarrow> o_userId r \<noteq> uid \<longrightarrow> orders d' i = Some r)"

lemma others_kept_same: "orders d' = orders d \<Longrightarrow> others_kept uid d d'"
  by (simp add: others_kept_def)

lemma others_kept_frame: "orders d oid = None \<Longrightarrow> order_frame oid d d' \<Longrightarrow> others_kept uid d d'"
  unfolding others_kept_def order_frame_def by (metis option.distinct(1))

lemma others_kept_status: "guarded d oid uid st \<Longrightarrow> status_set st' (orders d) oid (orders d') \<Longrightarrow> others_kept uid d d'"
  by (auto simp: others_kept_def guarded_def status_set_def)

text \<open>The endpoints of the order controller with a tenant in their path, and who may use them.\<close>

definition orderEndpoints :: "'s web \<Rightarrow> http_request \<Rightarrow> exn + create_item list option \<Rightarrow> string option \<Rightarrow> (('s, 's answer) handler \<times> Role list) set" where
  "orderEndpoints W hq body tx = {(orderCreateEndpoint W hq body, [CUSTOMER]),
     (orderFindOneEndpoint W hq, [CUSTOMER, ADMIN]), (orderPaymentEndpoint W hq, [CUSTOMER]), (orderCompleteEndpoint W hq tx, [CUSTOMER])}"

text \<open>A call that is rejected for its arguments alone.\<close>

lemma create_unused: "\<not> (body \<noteq> None \<and> body \<noteq> Some []) \<Longrightarrow> \<exists>e. \<forall>c. controllerCreate P A c user tc body = throw e"
  by (auto simp: controllerCreate_def)

lemma complete_unused:
  "\<not> (tx \<noteq> None \<and> trim (the tx) \<noteq> []) \<Longrightarrow> \<exists>e. \<forall>c. controllerComplete P A c oid user tc tx = throw e"
  by (cases tx) (auto simp: controllerComplete_def)

context web_services
begin

text \<open>The parts after an order request made for \<open>uid\<close> on tenant \<open>tc\<close>.\<close>

definition served :: "string \<Rightarrow> string \<Rightarrow> ('k, 'l) parts \<Rightarrow> ('k, 'l) parts \<Rightarrow> bool" where
  "served tc uid p p' \<longleftrightarrow> (\<exists>t q cs. p' = p\<lparr>vt := t, vq := q, vc := cs\<rparr> \<and> same_but (tenantDb tc) (vt p) t \<and>
     others_kept uid (vt p (tenantDb tc)) (t (tenantDb tc)))"

lemma served_refl: "served tc uid p p"
  unfolding served_def by (intro exI [of _ "vt p"] exI [of _ "vq p"] exI [of _ "vc p"]) (simp add: others_kept_same)

lemma orders_at:
  "order_services (wb_prisma W) (wb_amqp W) (wb_manager W) gen (\<lambda>s. Inv s \<and> (Us s, C s, we_getCounters (wb_env W) s) = a) T loc Q"
  by (rule order_listing.axioms(1) [OF order_ok])

text \<open>From a contract of the order services, under every other part.\<close>

lemma served_spec:
  assumes "\<And>s. Inv s \<Longrightarrow> vw s = p \<Longrightarrow> wp m
      (\<lambda>_ s'. (Inv s' \<and> (Us s', C s', we_getCounters (wb_env W) s') = (vu p, vc p, vk p)) \<and>
         same_but (tenantDb tc) (vt p) (T s') \<and> others_kept uid (vt p (tenantDb tc)) (T s' (tenantDb tc)))
      (\<lambda>_ s'. (Inv s' \<and> (Us s', C s', we_getCounters (wb_env W) s') = (vu p, vc p, vk p)) \<and>
         same_but (tenantDb tc) (vt p) (T s') \<and> others_kept uid (vt p (tenantDb tc)) (T s' (tenantDb tc))) s"
  shows "sp m p (\<lambda>_. served tc uid p) (\<lambda>_. served tc uid p)"
  by (rule specI, rule wp_conseq [OF assms])
     (auto simp: vw_def served_def intro!: exI)

lemma create_served:
  "sp (controllerCreate (wb_prisma W) (wb_amqp W) (UrlClient (databaseUrl (mg_config (wb_manager W)) tc)) user tc' body) p
    (\<lambda>_. served tc (au_id user) p) (\<lambda>_. served tc (au_id user) p)"
  by (rule served_spec, rule wp_conseq [OF order_services.controllerCreate_wp [OF orders_at [of "(vu p, vc p, vk p)"] _ refl]])
     (auto simp: vw_def opened_def intro: others_kept_same others_kept_frame)

lemma findOne_served:
  "sp (controllerFindOne (wb_prisma W) (UrlClient (databaseUrl (mg_config (wb_manager W)) tc)) oid user) p
    (\<lambda>_. served tc (au_id user) p) (\<lambda>_. served tc (au_id user) p)"
  unfolding controllerFindOne_def
  by (rule served_spec, rule wp_conseq [OF prisma_store.findOne_wp [OF store_at [of "(vu p, vc p, vk p)" "vq p"] _ refl]])
     (auto simp: vw_def intro: others_kept_same)

lemma payment_served:
  "sp (controllerPaymentReceived (wb_prisma W) (UrlClient (databaseUrl (mg_config (wb_manager W)) tc)) oid user tc') p
    (\<lambda>_. served tc (au_id user) p) (\<lambda>_. served tc (au_id user) p)"
  unfolding controllerPaymentReceived_def
  by (rule served_spec, rule wp_conseq [OF prisma_store.paymentReceived_wp [OF store_at [of "(vu p, vc p, vk p)" "vq p"] _ refl]])
     (auto simp: vw_def intro: others_kept_same others_kept_status)

lemma complete_served:
  "sp (controllerComplete (wb_prisma W) (wb_amqp W) (UrlClient (databaseUrl (mg_config (wb_manager W)) tc)) oid user tc' tx) p
    (\<lambda>_. served tc (au_id user) p) (\<lambda>_. served tc (au_id user) p)"
proof (cases "tx = None \<or> trim (the tx) = []")
  case True
  then show ?thesis by (cases tx) (auto simp: controllerComplete_def intro!: spec_throw served_refl)
next
  case False
  then obtain x where "tx = Some x" "trim x \<noteq> []" by auto
  then show ?thesis
    unfolding controllerComplete_def
    by (simp, intro served_spec, intro wp_conseq [OF order_services.enqueueOrderCompleted_wp [OF orders_at [of "(vu p, vc p, vk p)"] _ refl]])
       (auto simp: vw_def intro: others_kept_same)
qed

section \<open>The endpoints\<close>

lemma served_vc: "served tc uid (p\<lparr>vc := cs\<rparr>) p' \<Longrightarrow> served tc uid p p'" "served tc uid p (p\<lparr>vc := cs\<rparr>)"
  unfolding served_def by (force, intro exI [of _ "vt p"] exI [of _ "vq p"] exI [of _ cs]) (simp add: others_kept_same)

text \<open>The tenant's client, then an operation on it.\<close>

lemma client_served:
  assumes "tc \<noteq> []" and "tc \<noteq> defaultKey"
    and "sp (opn (UrlClient (databaseUrl (mg_config (wb_manager W)) tc))) p (\<lambda>_. served tc uid p) (\<lambda>_. served tc uid p)"
  shows "sp (bindE (requestClient W (Some tc)) (\<lambda>c. bindE (opn c) (\<lambda>x. ret (J x)))) p (\<lambda>_. served tc uid p) (\<lambda>_. served tc uid p)"
  by (rule spec_bind [OF requestClient_spec [OF assms(1,2), where
        G = "\<lambda>c p'. c = UrlClient (databaseUrl (mg_config (wb_manager W)) tc) \<and> p' = p"]], simp)
     (auto intro!: spec_bind [OF assms(3)] spec_ret)

text \<open>An order endpoint, from its handler, whether it is cached, invalidating or neither.\<close>

lemma order_endpoint_served:
  assumes "rt_roles rt = Some rs" and "map_of (rq_params (hr_request hq)) ''tenantCode'' = Some tc" and "tc \<noteq> []"
    and "\<And>u req p. rq_params req = rq_params (hr_request hq) \<Longrightarrow>
      sp (handle (auth_user_of u) req (Some tc)) p (\<lambda>_. served tc (u_id u) p) (\<lambda>_. served tc (u_id u) p)"
  shows "sp (orderEndpoint W rt hq handle) p
    (\<lambda>_ p'. \<exists>u. authorised token_of (vu p (uloc DefaultClient)) hq rs u \<and> served tc (u_id u) p p')
    (\<lambda>_ p'. p' = p \<or> (\<exists>u. authorised token_of (vu p (uloc DefaultClient)) hq rs u \<and> served tc (u_id u) p p'))"
proof (rule orderEndpoint_spec [OF assms(1-3)])
  fix u req
  assume u: "authorised token_of (vu p (uloc DefaultClient)) hq rs u" and req: "req = hr_request (withUser (auth_user_of u) hq)"
  have run: "sp (handle (auth_user_of u) req (Some tc)) p' (\<lambda>_. served tc (u_id u) p) (\<lambda>_. served tc (u_id u) p)"
    if "p' = p \<or> (\<exists>cs. p' = p\<lparr>vc := cs\<rparr>)" for p'
    by (rule spec_conseq [OF assms(4) [of req u p']]) (use that served_vc(1) in \<open>auto simp: req\<close>)
  have "sp (cached W rt req (Some tc) (handle (auth_user_of u) req (Some tc))) p (\<lambda>_. served tc (u_id u) p) (\<lambda>_. served tc (u_id u) p)"
  proof (cases "rt_invalidate rt")
    case (Some targets)
    then show ?thesis by (rule invalidating_spec [OF _ run]) simp_all
  next
    case None
    show ?thesis
    proof (cases "rt_cacheable rt")
      case (Some co)
      show ?thesis
        by (rule cacheable_spec [OF None Some _ run]) (auto intro: served_vc(2))
    next
      case None': None
      show ?thesis
        unfolding cached_def cacheIntercept_def None None' option.case by (rule spec_bind [OF run]) (auto intro: spec_ret)
    qed
  qed
  then show "sp (cached W rt req (Some tc) (handle (auth_user_of u) req (Some tc))) p
    (\<lambda>_ p'. \<exists>u. authorised token_of (vu p (uloc DefaultClient)) hq rs u \<and> served tc (u_id u) p p')
    (\<lambda>_ p'. p' = p \<or> (\<exists>u. authorised token_of (vu p (uloc DefaultClient)) hq rs u \<and> served tc (u_id u) p p'))"
    by (rule spec_conseq) (use u in blast)+
qed auto

lemma clientIf_served:
  assumes "tc \<noteq> []" and "tc \<noteq> defaultKey" and "\<not> used \<Longrightarrow> \<exists>e. \<forall>c. opn c = throw e"
    and "sp (opn (UrlClient (databaseUrl (mg_config (wb_manager W)) tc))) p (\<lambda>_. served tc uid p) (\<lambda>_. served tc uid p)"
  shows "sp (bindE (clientIf W (Some tc) used) (\<lambda>c. bindE (opn c) (\<lambda>x. ret (J x)))) p (\<lambda>_. served tc uid p) (\<lambda>_. served tc uid p)"
proof (cases used)
  case True
  then show ?thesis using client_served [OF assms(1,2), where opn = opn] assms(4) by (simp add: clientIf_def)
next
  case False
  then obtain e where "\<forall>c. opn c = throw e" using assms(3) by blast
  then show ?thesis
    using False by (auto simp: clientIf_def bindE_ret intro: spec_bind [where R = "\<lambda>_ _. False"] spec_throw served_refl)
qed

lemma order_routes_spec:
  assumes tc: "map_of (rq_params (hr_request hq)) ''tenantCode'' = Some tc" "tc \<noteq> []" "tc \<noteq> defaultKey"
    and "(m, rs) \<in> orderEndpoints W hq body tx"
  shows "sp m p
    (\<lambda>_ p'. \<exists>u. authorised token_of (vu p (uloc DefaultClient)) hq rs u \<and> served tc (u_id u) p p')
    (\<lambda>_ p'. p' = p \<or> (\<exists>u. authorised token_of (vu p (uloc DefaultClient)) hq rs u \<and> served tc (u_id u) p p'))"
proof -
  have path: "tenantCodeParam req = Inr tc" if "rq_params req = rq_params (hr_request hq)" for req :: request
    using that tc by (simp add: tenant_param)
  have id: "au_id (auth_user_of u) = u_id u" for u by (simp add: auth_user_of_def)
  note at = create_served findOne_served payment_served complete_served
  note served = at [where user = "auth_user_of u" for u, unfolded id]
  note endpoint = order_endpoint_served [OF _ tc(1,2)]
  consider "m = orderCreateEndpoint W hq body" "rs = [CUSTOMER]"
    | "m = orderFindOneEndpoint W hq" "rs = [CUSTOMER, ADMIN]" | "m = orderPaymentEndpoint W hq" "rs = [CUSTOMER]"
    | "m = orderCompleteEndpoint W hq tx" "rs = [CUSTOMER]"
    using assms(4) by (auto simp: orderEndpoints_def)
  then show ?thesis
  proof cases
    case 1
    show ?thesis unfolding 1 orderCreateEndpoint_def
    proof (rule endpoint, simp)
      fix u and req :: request and p :: "('k, 'l) parts" assume req: "rq_params req = rq_params (hr_request hq)"
      show "sp (bindE (fromPipe (tenantCodeParam req)) (\<lambda>tenantCode. bindE (fromPipe body) (\<lambda>dto.
          bindE (clientIf W (Some tc) (dto \<noteq> None \<and> dto \<noteq> Some [])) (\<lambda>c.
          bindE (controllerCreate (wb_prisma W) (wb_amqp W) c (auth_user_of u) tenantCode dto) (\<lambda>f. ret (Some tc, orderJson (wb_decimal W) f))))))
        p (\<lambda>_. served tc (u_id u) p) (\<lambda>_. served tc (u_id u) p)"
        unfolding path [OF req] fromPipe_def sum.case bindE_ret
        by (rule spec_bind [where R = "\<lambda>_ p'. p' = p"])
           (auto split: sum.split intro: spec_ret spec_throw served_refl intro!: clientIf_served tc(2,3) served(1) create_unused)
    qed
  next
    case 2
    show ?thesis unfolding 2 orderFindOneEndpoint_def by (rule endpoint) (auto intro!: client_served tc(2,3) served(2))
  next
    case 3
    show ?thesis unfolding 3 orderPaymentEndpoint_def
      by (rule endpoint) (auto simp: path fromPipe_def bindE_ret intro!: client_served tc(2,3) served(3))
  next
    case 4
    show ?thesis unfolding 4 orderCompleteEndpoint_def
      by (rule endpoint) (auto simp: path fromPipe_def bindE_ret intro!: clientIf_served [OF tc(2,3) complete_unused] served(4))
  qed
qed

end

section \<open>Properties\<close>

text \<open>
  C14: A request that creates, reads, pays or completes an order changes at most the database of the
  tenant in its path, and there no order of anybody but the account its token names: a customer cannot touch
  another customer's order, whatever id the path holds. Accounts are unchanged, and so are the
  counters of the rate limiter: the limits the controller declares are never counted.
\<close>

theorem order_routes_isolated:
  assumes "web_services W gen Inv T loc Q Us uloc C matches token_of" and "Inv s"
    and "map_of (rq_params (hr_request hq)) ''tenantCode'' = Some tc" and "tc \<noteq> []" and "tc \<noteq> defaultKey"
    and "(m, rs) \<in> orderEndpoints W hq body tx" and "run m s = (r, s')"
  defines "k \<equiv> loc (UrlClient (databaseUrl (mg_config (wb_manager W)) tc))"
  shows "we_getCounters (wb_env W) s' = we_getCounters (wb_env W) s \<and> Us s' = Us s \<and> same_but k (T s) (T s') \<and>
    (T s' = T s \<or> (\<exists>u. authorised token_of (Us s (uloc DefaultClient)) hq rs u \<and> others_kept (u_id u) (T s k) (T s' k)))"
  using spec_run [OF web_services.order_routes_spec [OF assms(1,3-6)] assms(2) refl assms(7)] assms(1)
  by (cases r) (auto simp: k_def web_services.served_def [OF assms(1)] web_services.vw_def [OF assms(1)])

theorem order_routes_isolated_witness:
  "let res = run (orderPaymentEndpoint ref_web (ex_request ex_alice ''POST'' ''o1'')) ex_waiting in
    \<not> isl (fst res) \<and> wm_counters (rs_web (snd res)) = wm_counters (rs_web ex_waiting) \<and> uref (snd res) = uref ex_waiting \<and>
    same_but ex_client (ref_tables ex_waiting) (ref_tables (snd res)) \<and>
    (ref_tables (snd res) = ref_tables ex_waiting \<or>
     (\<exists>u. authorised (\<lambda>p tok. tok = ref_token p) (uref ex_waiting ()) (ex_request ex_alice ''POST'' ''o1'') [CUSTOMER] u \<and>
        others_kept (u_id u) (ref_tables ex_waiting ex_client) (ref_tables (snd res) ex_client)))"
  unfolding Let_def
  by (rule conjI, unfold orderPaymentEndpoint_def, (rule fronts_answers [OF ref_order]; code_simp), fold orderPaymentEndpoint_def)
     (rule order_routes_isolated [OF ref_site_ok ex_waiting_inv ex_path(1) ex_code _ prod.collapse [symmetric],
        unfolded ref_web_sel ref_count ex_tenant id_apply, where body = "Inr None" and tx = None], simp add: orderEndpoints_def)


end
