(* ===== verification/ResponseTypes.thy ===== *)
theory ResponseTypes
  imports Routes
begin

text \<open>
  The response classes of the program as types of JSON values, and what the endpoints send: every
  answer has the envelope's type, account answers have their declared types, and prices and totals
  are sent as strings where the classes declare numbers.
\<close>

section \<open>Types\<close>

text \<open>
  The property types of the response classes. An object type lists its properties, each required or
  optional; further properties are allowed, as in TypeScript. A \<open>Date\<close> is a string when it is sent.
\<close>

datatype ts_type =
    TString
  | TNumber
  | TBoolean
  | TNull
  | TDate
  | TLiteral "string list"
  | TOr ts_type ts_type
  | TArray ts_type
  | TObject "(string \<times> bool \<times> ts_type) list"

fun conforms :: "ts_type \<Rightarrow> json \<Rightarrow> bool" where
  "conforms TString j = (case j of JStr _ \<Rightarrow> True | _ \<Rightarrow> False)"
| "conforms TNumber j = (case j of JInt _ \<Rightarrow> True | _ \<Rightarrow> False)"
| "conforms TBoolean j = (case j of JBool _ \<Rightarrow> True | _ \<Rightarrow> False)"
| "conforms TNull j = (j = JNull)"
| "conforms TDate j = (case j of JStr _ \<Rightarrow> True | _ \<Rightarrow> False)"
| "conforms (TLiteral ls) j = (case j of JStr s \<Rightarrow> s \<in> set ls | _ \<Rightarrow> False)"
| "conforms (TOr s t) j = (conforms s j \<or> conforms t j)"
| "conforms (TArray t) j = (case j of JArr js \<Rightarrow> list_all (conforms t) js | _ \<Rightarrow> False)"
| "conforms (TObject ps) j = (case j of
     JObj kvs \<Rightarrow> list_all (\<lambda>(k, opt, t). case map_of kvs k of None \<Rightarrow> opt | Some v \<Rightarrow> conforms t v) ps
   | _ \<Rightarrow> False)"

abbreviation required :: "string \<Rightarrow> ts_type \<Rightarrow> string \<times> bool \<times> ts_type" where
  "required k t \<equiv> (k, False, t)"

abbreviation optional :: "string \<Rightarrow> ts_type \<Rightarrow> string \<times> bool \<times> ts_type" where
  "optional k t \<equiv> (k, True, t)"

definition RoleType :: ts_type where
  "RoleType = TLiteral [''ADMIN'', ''CUSTOMER'']"

definition OrderStatusType :: ts_type where
  "OrderStatusType = TLiteral [''PENDING'', ''WAITING_FOR_PAYMENT'', ''PAID'', ''COMPLETE'', ''CANCELLED'']"

section \<open>The response classes\<close>

text \<open>\<open>tc\<close> is the type of the tenant code: \<open>string\<close> as declared.\<close>

definition UserResponseDto :: "ts_type \<Rightarrow> ts_type" where
  "UserResponseDto tc = TObject [required ''id'' TString, required ''email'' TString, required ''username'' TString,
     required ''role'' RoleType, optional ''tenantCode'' tc, required ''isDatabaseCreated'' TBoolean,
     required ''createdAt'' TDate, required ''updatedAt'' TDate]"

definition AuthResponseDto :: ts_type where
  "AuthResponseDto = TObject [required ''access_token'' TString,
     required ''user'' (TObject [required ''id'' TString, required ''email'' TString, required ''username'' TString,
       required ''role'' RoleType])]"

definition DatabaseStatusResponseDto :: ts_type where
  "DatabaseStatusResponseDto = TObject [required ''userId'' TString, required ''isDatabaseCreated'' TBoolean,
     required ''message'' TString]"

text \<open>\<open>d\<close> is the type of a decimal column: \<open>number\<close> as declared.\<close>

definition ProductResponseDto :: "ts_type \<Rightarrow> ts_type" where
  "ProductResponseDto d = TObject [required ''id'' TString, required ''name'' TString,
     required ''description'' (TOr TString TNull), required ''price'' d, required ''stock'' TNumber,
     required ''createdAt'' TDate, required ''updatedAt'' TDate]"

definition OrderItemResponseDto :: "ts_type \<Rightarrow> ts_type" where
  "OrderItemResponseDto d = TObject [required ''id'' TString, required ''productId'' TString, required ''quantity'' TNumber,
     required ''price'' d, optional ''product'' (TObject [required ''id'' TString, required ''name'' TString,
       required ''description'' (TOr TString TNull), required ''price'' d])]"

definition OrderResponseDto :: "ts_type \<Rightarrow> ts_type" where
  "OrderResponseDto d = TObject [required ''id'' TString, required ''userId'' TString, required ''status'' OrderStatusType,
     required ''total'' d, required ''items'' (TArray (OrderItemResponseDto d)),
     required ''createdAt'' TDate, required ''updatedAt'' TDate]"

definition ApiResponse :: "ts_type \<Rightarrow> ts_type" where
  "ApiResponse t = TObject [required ''status'' (TLiteral [''success'', ''error'']), required ''data'' t,
     required ''message'' TString, optional ''timestamp'' TString]"

section \<open>The serialised values\<close>

lemma answer_conforms: "conforms (ApiResponse t) (answerJson a) \<longleftrightarrow> conforms t (fst (re_data a))"
  by (simp add: ApiResponse_def answerJson_def split: api_status.split)

lemma role_conforms [simp]: "conforms RoleType (JStr (roleName r))"
  by (cases r) (simp_all add: RoleType_def roleName_def)

lemma status_conforms [simp]: "conforms OrderStatusType (JStr (statusName st))"
  by (cases st) (simp_all add: OrderStatusType_def statusName_def)

lemma userJson_conforms: "conforms (UserResponseDto (TOr TString TNull)) (userJson u)"
  by (simp add: UserResponseDto_def userJson_def nullable_def dateJson_def split: option.split)

lemma authJson_conforms: "conforms AuthResponseDto (authJson a)"
  by (simp add: AuthResponseDto_def authJson_def Let_def split: option.split)

lemma databaseStatusJson_conforms: "conforms DatabaseStatusResponseDto (databaseStatusJson d)"
  by (simp add: DatabaseStatusResponseDto_def databaseStatusJson_def)

lemma productJson_conforms:
  "conforms (ProductResponseDto TString) (productJson D p)" "\<not> conforms (ProductResponseDto TNumber) (productJson D p)"
  by (simp_all add: ProductResponseDto_def productJson_def nullable_def dateJson_def split: option.split)

lemma itemJson_conforms: "conforms (OrderItemResponseDto TString) (itemJson D x)"
  by (cases x) (simp add: OrderItemResponseDto_def itemJson_def productInfoJson_def nullable_def split: option.split)

lemma orderJson_conforms:
  "conforms (OrderResponseDto TString) (orderJson D f)" "\<not> conforms (OrderResponseDto TNumber) (orderJson D f)"
  by (cases f; simp add: OrderResponseDto_def orderJson_def orderProps_def dateJson_def list_all_iff itemJson_conforms)+

section \<open>Answers of a program\<close>

definition yields :: "('a \<Rightarrow> bool) \<Rightarrow> ('s, 'a) handler \<Rightarrow> bool" where
  "yields R m \<longleftrightarrow> (\<forall>s x s'. run m s = (Inr x, s') \<longrightarrow> R x)"

named_theorems yields_rules \<open>rules for the answers of a program\<close>

lemma yields_ret [yields_rules]: "R x \<Longrightarrow> yields R (ret x)"
  by (simp add: yields_def async_simps)

lemma yields_throw [yields_rules]: "yields R (throw e)"
  by (simp add: yields_def async_simps)

lemma yields_bindE: "yields Q m \<Longrightarrow> (\<And>x. Q x \<Longrightarrow> yields R (f x)) \<Longrightarrow> yields R (bindE m f)"
  by (fastforce simp: yields_def async_simps split: prod.splits sum.splits)

lemma yields_any: "yields (\<lambda>_. True) m"
  by (simp add: yields_def)

lemma yields_then [yields_rules]: "(\<And>x. yields R (f x)) \<Longrightarrow> yields R (bindE m f)"
  by (rule yields_bindE [OF yields_any])

lemma yields_try: "yields R m \<Longrightarrow> (\<And>e. yields R (h e)) \<Longrightarrow> yields R (tryCatch m h)"
  by (fastforce simp: yields_def async_simps split: prod.splits sum.splits)

lemma yields_serve [yields_rules]:
  assumes "yields (\<lambda>d. R (fst d)) handle"
  shows "yields (\<lambda>a. R (fst (re_data a))) (serve W rt hq handle)"
  unfolding serve_def logIntercept_def apiIntercept_def
  by (rule yields_then, rule yields_try, rule yields_bindE [where Q = "\<lambda>a. R (fst (re_data a))"], rule yields_bindE [OF assms])
     (auto intro!: yields_then yields_ret yields_throw)

lemma yields_guarded [yields_rules]:
  assumes "\<And>user req. yields (\<lambda>d. R (fst d)) (handle user req)"
  shows "yields (\<lambda>a. R (fst (re_data a))) (guarded_route W rt hq handle)"
  unfolding guarded_route_def withGuards_def using assms by (auto intro!: yields_rules)

lemma yields_plain [yields_rules]: "yields R m \<Longrightarrow> yields (\<lambda>d. R (fst d)) (plainEndpoint m)"
  unfolding plainEndpoint_def by (erule yields_bindE) (simp add: yields_ret)

lemma yields_uncached:
  assumes "rt_cacheable rt = None" and "yields (\<lambda>cd. R (snd cd)) m"
  shows "yields (\<lambda>d. R (fst d)) (cached W rt req ctx m)"
  unfolding cached_def cacheIntercept_def using assms(1)
  by (auto intro!: yields_bindE [OF assms(2)] yields_ret split: option.split)

lemma yields_limited [yields_rules]: "yields R m \<Longrightarrow> yields R (rateLimited E req mn cn ho co m)"
  unfolding rateLimited_def by (auto intro!: yields_then yields_throw split: sum.split)

lemma yields_product:
  assumes "rt_cacheable rt = None" and "\<And>req ctx. yields R (handle req ctx)"
  shows "yields (\<lambda>a. R (fst (re_data a))) (productEndpoint W rt hq handle)"
  unfolding productEndpoint_def Let_def
  by (intro yields_guarded yields_uncached yields_limited assms(1), rule yields_bindE [OF assms(2)]) (simp add: yields_ret)

lemma yields_order:
  assumes "rt_cacheable rt = None" and "\<And>user req ctx. yields (\<lambda>cd. R (snd cd)) (handle user req ctx)"
  shows "yields (\<lambda>a. R (fst (re_data a))) (orderEndpoint W rt hq handle)"
  unfolding orderEndpoint_def Let_def by (intro yields_guarded yields_uncached assms)

end
