(* ===== verification/TypeTheorems.thy ===== *)
theory TypeTheorems
  imports ResponseTypes WebTheorems
begin

text \<open>The types of the answers, for every application, and two answers of the reference application.\<close>

section \<open>Properties\<close>

text \<open>The account endpoints with the type of their answers.\<close>

definition accountEndpoints ::
  "'s web \<Rightarrow> http_request \<Rightarrow> exn + register_dto \<Rightarrow> exn + login_dto \<Rightarrow> exn + create_user \<Rightarrow> exn + update_user \<Rightarrow>
   (('s, 's answer) handler \<times> ts_type) set" where
  "accountEndpoints W hq reg lg cu uu = (let user = UserResponseDto (TOr TString TNull) in
    {(registerEndpoint W hq reg, AuthResponseDto), (loginEndpoint W hq lg, AuthResponseDto),
     (userCreateEndpoint W hq cu, user), (userFindAllEndpoint W hq, TArray user), (userFindOneEndpoint W hq, user),
     (userUpdateEndpoint W hq uu, user), (userRemoveEndpoint W hq, user), (userStatusEndpoint W hq, DatabaseStatusResponseDto)})"



text \<open>The uncached endpoints of products and orders with the response class, given the type of decimals.\<close>

definition pricedEndpoints ::
  "'s web \<Rightarrow> http_request \<Rightarrow> exn + create_product \<Rightarrow> exn + product_data \<Rightarrow> exn + create_item list option \<Rightarrow>
   (('s, 's answer) handler \<times> (ts_type \<Rightarrow> ts_type)) set" where
  "pricedEndpoints W hq cp up co =
    {(productCreateEndpoint W hq cp, ProductResponseDto), (productUpdateEndpoint W hq up, ProductResponseDto),
     (productRemoveEndpoint W hq, ProductResponseDto), (orderCreateEndpoint W hq co, OrderResponseDto),
     (orderFindOneEndpoint W hq, OrderResponseDto), (orderPaymentEndpoint W hq, OrderResponseDto)}"



end
