(* ===== verification/Seed.thy ===== *)
theory Seed
  imports Users
begin

text \<open>
  The seed script (\<open>prisma/seed.ts\<close>): it makes sure that two fixed accounts exist. Console output is
  the argument \<open>con\<close>; \<open>disconnect\<close> closes the script's client.
\<close>

record user_seed =
  sd_email :: string
  sd_username :: string
  sd_password :: string
  sd_role :: Role

datatype seed_line =
    UserExists string string string Role
  | UserCreated string string string Role
  | SeedingCompleted nat
  | SeedingError exn

definition seedUsers :: "user_seed list" where
  "seedUsers = [
     \<lparr>sd_email = ''admin@provenant.eu'', sd_username = ''admin'', sd_password = ''admin123'', sd_role = ADMIN\<rparr>,
     \<lparr>sd_email = ''customer@provenant.eu'', sd_username = ''customer'', sd_password = ''customer123'', sd_role = CUSTOMER\<rparr>]"

text \<open>The columns the script does not give take their defaults: no tenant code, no database.\<close>

definition seedRow :: "user_seed \<Rightarrow> string \<Rightarrow> user_new" where
  "seedRow d hashedPassword = \<lparr>un_email = sd_email d, un_username = sd_username d, un_password = hashedPassword,
     un_role = sd_role d, un_tenantCode = None, un_isDatabaseCreated = False\<rparr>"

definition consoleLog :: "(seed_line \<Rightarrow> 's \<Rightarrow> 's) \<Rightarrow> seed_line \<Rightarrow> ('s, unit) handler" where
  "consoleLog con l = sync (\<lambda>s. ((), con l s))"

definition seedUser :: "'s user_api \<Rightarrow> 's bcrypt_api \<Rightarrow> (seed_line \<Rightarrow> 's \<Rightarrow> 's) \<Rightarrow> user_seed \<Rightarrow> ('s, unit) handler" where
  "seedUser U B con userData =
    bindE (await_call (user_findFirst_login U DefaultClient (sd_email userData) (sd_username userData))) (\<lambda>existingUser.
    case existingUser of
      Some u \<Rightarrow> consoleLog con (UserExists (u_id u) (u_email u) (u_username u) (u_role u))
    | None \<Rightarrow>
        bindE (await_call (bcrypt_hash B (sd_password userData) 10)) (\<lambda>hashedPassword.
        bindE (await_call (user_create U DefaultClient (seedRow userData hashedPassword))) (\<lambda>u.
        consoleLog con (UserCreated (u_id u) (u_email u) (u_username u) (u_role u)))))"

definition seedMain :: "'s user_api \<Rightarrow> 's bcrypt_api \<Rightarrow> (seed_line \<Rightarrow> 's \<Rightarrow> 's) \<Rightarrow> ('s, unit) handler" where
  "seedMain U B con =
    bindE (forEach seedUsers (seedUser U B con)) (\<lambda>_. consoleLog con (SeedingCompleted (length seedUsers)))"

text \<open>
  The exit status of the script. \<open>process.exit(1)\<close> in the \<open>catch\<close> handler ends the process before
  \<open>finally\<close> is reached, so the client is disconnected only after a success.
\<close>

definition seedScript ::
  "'s user_api \<Rightarrow> 's bcrypt_api \<Rightarrow> (seed_line \<Rightarrow> 's \<Rightarrow> 's) \<Rightarrow> ('s, unit) call \<Rightarrow> ('s, nat) handler" where
  "seedScript U B con disconnect =
    bindE (tryCatch (bindE (seedMain U B con) (\<lambda>_. ret True))
             (\<lambda>e. bindE (consoleLog con (SeedingError e)) (\<lambda>_. ret False))) (\<lambda>ok.
    if ok then bindE (await_call disconnect) (\<lambda>_. ret 0) else ret 1)"

section \<open>What seeding does to the accounts\<close>

definition seeded_row :: "(string \<Rightarrow> string \<Rightarrow> bool) \<Rightarrow> user_seed \<Rightarrow> user_row \<Rightarrow> bool" where
  "seeded_row matches d u \<longleftrightarrow> u_email u = sd_email d \<and> u_username u = sd_username d \<and> matches (sd_password d) (u_password u) \<and>
     u_role u = sd_role d \<and> u_tenantCode u = None \<and> \<not> u_isDatabaseCreated u"

definition seed_present :: "(string \<rightharpoonup> user_row) \<Rightarrow> user_seed \<Rightarrow> bool" where
  "seed_present w d \<longleftrightarrow> (\<exists>u\<in>ran w. u_email u = sd_email d \<or> u_username u = sd_username d)"

text \<open>\<open>w'\<close> extends \<open>w\<close> by rows of seeds in \<open>ds\<close> that were missing.\<close>

definition seeded :: "(string \<Rightarrow> string \<Rightarrow> bool) \<Rightarrow> user_seed list \<Rightarrow> (string \<rightharpoonup> user_row) \<Rightarrow> (string \<rightharpoonup> user_row) \<Rightarrow> bool" where
  "seeded matches ds w w' \<longleftrightarrow> w \<subseteq>\<^sub>m w' \<and>
     (\<forall>i u. w' i = Some u \<longrightarrow> w i = Some u \<or> (\<exists>d\<in>set ds. \<not> seed_present w d \<and> seeded_row matches d u))"

lemma seeded_refl: "seeded matches ds w w"
  by (simp add: seeded_def)

lemma seed_present_mono: "w \<subseteq>\<^sub>m w' \<Longrightarrow> seed_present w d \<Longrightarrow> seed_present w' d"
  unfolding seed_present_def ran_def map_le_def by (smt (verit, best) domI mem_Collect_eq)

lemma seeded_trans:
  assumes "seeded matches ds w w1" and "seeded matches es w1 w2"
  shows "seeded matches (ds @ es) w w2"
  using assms seed_present_mono [of w w1] unfolding seeded_def by (auto intro: map_le_trans) blast+

lemma seeded_insert:
  "w (u_id u) = None \<Longrightarrow> \<not> seed_present w d \<Longrightarrow> seeded_row matches d u \<Longrightarrow> seeded matches [d] w (w(u_id u \<mapsto> u))"
  by (auto simp: seeded_def map_le_def)

lemma seeded_nothing: "\<forall>d\<in>set ds. seed_present w d \<Longrightarrow> seeded matches ds w w' \<Longrightarrow> w' = w"
  unfolding seeded_def map_le_def by (metis domIff ext not_None_eq)

locale seed_services = user_services U B A Inv W uloc Q matches
  for U :: "'s user_api" and B :: "'s bcrypt_api" and A :: "'s amqp_api" and Inv :: "'s \<Rightarrow> bool"
    and W :: "'s \<Rightarrow> 'k \<Rightarrow> string \<rightharpoonup> user_row" and uloc :: "prisma_client \<Rightarrow> 'k"
    and Q :: "'s \<Rightarrow> string \<Rightarrow> string list" and matches :: "string \<Rightarrow> string \<Rightarrow> bool" +
  fixes con :: "seed_line \<Rightarrow> 's \<Rightarrow> 's" and disconnect :: "('s, unit) call"
  assumes con_ok: "Inv s \<Longrightarrow> s' = con l s \<Longrightarrow> Inv s' \<and> W s' = W s \<and> Q s' = Q s"
    and disconnect_ok: "Inv s \<Longrightarrow> disconnect s = (r, s') \<Longrightarrow> Inv s' \<and> W s' = W s \<and> Q s' = Q s"
begin

abbreviation "seeds ds s s' \<equiv> Inv s' \<and> Q s' = Q s \<and> same_but (uloc DefaultClient) (W s) (W s') \<and>
  seeded matches ds (W s (uloc DefaultClient)) (W s' (uloc DefaultClient))"

lemma seedUser_wp:
  assumes "Inv s"
  shows "wp (seedUser U B con d)
    (\<lambda>_ s'. seeds [d] s s' \<and> seed_present (W s' (uloc DefaultClient)) d) (\<lambda>_ s'. Inv s' \<and> W s' = W s \<and> Q s' = Q s) s"
  unfolding seedUser_def wp_bindE
proof (rule user_query_wp [OF assms user_store.findFirst_login_ok [OF store]])
  fix x s1 assume s1: "Inv s1" "W s1 = W s" "Q s1 = Q s"
    and x: "first_match (W s (uloc DefaultClient)) (\<lambda>u. u_email u = sd_email d \<or> u_username u = sd_username d) x"
  show "wp (case x of Some u \<Rightarrow> consoleLog con (UserExists (u_id u) (u_email u) (u_username u) (u_role u))
      | None \<Rightarrow> bindE (await_call (bcrypt_hash B (sd_password d) 10)) (\<lambda>h.
          bindE (await_call (user_create U DefaultClient (seedRow d h))) (\<lambda>u.
          consoleLog con (UserCreated (u_id u) (u_email u) (u_username u) (u_role u)))))
    (\<lambda>_ s'. seeds [d] s s' \<and> seed_present (W s' (uloc DefaultClient)) d) (\<lambda>_ s'. Inv s' \<and> W s' = W s \<and> Q s' = Q s) s1"
  proof (cases x)
    case (Some u)
    then have "seed_present (W s (uloc DefaultClient)) d" using x by (auto simp: first_match_def seed_present_def)
    then show ?thesis
      using Some con_ok [OF s1(1) refl] s1 by (simp add: consoleLog_def wp_sync seeded_refl)
  next
    case None
    then have free: "\<not> seed_present (W s (uloc DefaultClient)) d" using x by (auto simp: first_match_def seed_present_def)
    show ?thesis unfolding None option.case wp_bindE
    proof (rule hash_wp [OF s1(1)], use s1 in simp)
      fix h s2 assume s2: "Inv s2" "W s2 = W s1" "Q s2 = Q s1" and h: "matches (sd_password d) h"
      show "wp (await_call (user_create U DefaultClient (seedRow d h)))
        (\<lambda>u. wp (consoleLog con (UserCreated (u_id u) (u_email u) (u_username u) (u_role u)))
          (\<lambda>_ s'. seeds [d] s s' \<and> seed_present (W s' (uloc DefaultClient)) d) (\<lambda>_ s'. Inv s' \<and> W s' = W s \<and> Q s' = Q s))
        (\<lambda>_ s'. Inv s' \<and> W s' = W s \<and> Q s' = Q s) s2"
      proof (rule user_write_wp [OF s2(1) user_store.create_ok [OF store]], use s1 s2 in simp)
        fix u w s3 assume s3: "Inv s3" "W s3 = (W s2)(uloc DefaultClient := w)" "Q s3 = Q s2"
          and u: "W s2 (uloc DefaultClient) (u_id u) = None \<and> u_email u = un_email (seedRow d h) \<and> u_username u = un_username (seedRow d h) \<and>
            u_password u = un_password (seedRow d h) \<and> u_role u = un_role (seedRow d h) \<and> u_tenantCode u = un_tenantCode (seedRow d h) \<and>
            u_isDatabaseCreated u = un_isDatabaseCreated (seedRow d h) \<and> w = (W s2 (uloc DefaultClient))(u_id u \<mapsto> u)"
        have "seeded_row matches d u" using u h by (simp add: seeded_row_def seedRow_def)
        then have "seeded matches [d] (W s (uloc DefaultClient)) w \<and> seed_present w d"
          using u s1 s2 free seeded_insert [of "W s (uloc DefaultClient)" u d matches]
          by (auto simp: seed_present_def seeded_row_def)
        then show "wp (consoleLog con (UserCreated (u_id u) (u_email u) (u_username u) (u_role u)))
          (\<lambda>_ s'. seeds [d] s s' \<and> seed_present (W s' (uloc DefaultClient)) d) (\<lambda>_ s'. Inv s' \<and> W s' = W s \<and> Q s' = Q s) s3"
          using con_ok [OF s3(1) refl] s1 s2 s3 by (simp add: consoleLog_def wp_sync)
      qed
    qed
  qed
qed simp

lemma seedAll_wp:
  assumes "Inv s"
  shows "wp (forEach ds (seedUser U B con))
    (\<lambda>_ s'. seeds ds s s' \<and> (\<forall>d\<in>set ds. seed_present (W s' (uloc DefaultClient)) d)) (\<lambda>_ s'. seeds ds s s') s"
proof (rule wp_forEach [where J = "\<lambda>ys s'. seeds ys s s' \<and> (\<forall>d\<in>set ys. seed_present (W s' (uloc DefaultClient)) d)"])
  show "seeds [] s s \<and> (\<forall>d\<in>set []. seed_present (W s (uloc DefaultClient)) d)" using assms by (simp add: seeded_refl)
next
  fix ys d zs s1
  assume ds: "ds = ys @ d # zs" and J: "seeds ys s s1 \<and> (\<forall>d\<in>set ys. seed_present (W s1 (uloc DefaultClient)) d)"
  have more: "seeded matches ds (W s (uloc DefaultClient)) w" if "seeded matches ys (W s (uloc DefaultClient)) w" for w
    using that by (auto simp: seeded_def ds)
  show "wp (seedUser U B con d) (\<lambda>_ s'. seeds (ys @ [d]) s s' \<and> (\<forall>d\<in>set (ys @ [d]). seed_present (W s' (uloc DefaultClient)) d))
    (\<lambda>_ s'. seeds ds s s') s1"
  proof (rule wp_conseq [OF seedUser_wp])
    show "Inv s1" using J by simp
    fix s' assume s': "seeds [d] s1 s' \<and> seed_present (W s' (uloc DefaultClient)) d"
    have "seeded matches (ys @ [d]) (W s (uloc DefaultClient)) (W s' (uloc DefaultClient))"
      using J s' by (intro seeded_trans) auto
    moreover have "W s1 (uloc DefaultClient) \<subseteq>\<^sub>m W s' (uloc DefaultClient)" using s' by (simp add: seeded_def)
    ultimately show "seeds (ys @ [d]) s s' \<and> (\<forall>d\<in>set (ys @ [d]). seed_present (W s' (uloc DefaultClient)) d)"
      using J s' seed_present_mono same_but_trans [of "uloc DefaultClient" "W s" "W s1" "W s'"] by auto
  qed (use J more in auto)
qed

lemma seedScript_wp:
  assumes "Inv s"
  shows "wp (seedScript U B con disconnect)
    (\<lambda>c s'. seeds seedUsers s s' \<and> (c = 0 \<longrightarrow> (\<forall>d\<in>set seedUsers. seed_present (W s' (uloc DefaultClient)) d)))
    (\<lambda>_ s'. seeds seedUsers s s') s"
proof -
  have main: "wp (seedMain U B con)
    (\<lambda>_ s'. seeds seedUsers s s' \<and> (\<forall>d\<in>set seedUsers. seed_present (W s' (uloc DefaultClient)) d)) (\<lambda>_ s'. seeds seedUsers s s') s"
    unfolding seedMain_def wp_bindE consoleLog_def wp_sync
    by (rule wp_conseq [OF seedAll_wp [OF assms]]) (use con_ok in auto)
  have close: "wp (bindE (await_call disconnect) (\<lambda>_. ret 0))
    (\<lambda>c s'. seeds seedUsers s s' \<and> (c = 0 \<longrightarrow> (\<forall>d\<in>set seedUsers. seed_present (W s' (uloc DefaultClient)) d)))
    (\<lambda>_ s'. seeds seedUsers s s') s1"
    if s1: "seeds seedUsers s s1 \<and> (\<forall>d\<in>set seedUsers. seed_present (W s1 (uloc DefaultClient)) d)" for s1 :: 's
  proof -
    obtain r s2 where r: "disconnect s1 = (r, s2)" by fastforce
    have "Inv s2 \<and> W s2 = W s1 \<and> Q s2 = Q s1" using s1 by (intro disconnect_ok [OF _ r]) simp
    then have "seeds seedUsers s s2 \<and> (\<forall>d\<in>set seedUsers. seed_present (W s2 (uloc DefaultClient)) d)" using s1 by simp
    then show ?thesis unfolding wp_bindE wp_await_call r fst_conv snd_conv wp_ret by (simp split: sum.split)
  qed
  show ?thesis
    unfolding seedScript_def wp_bindE [of "tryCatch x y" for x y] wp_tryCatch
    unfolding wp_bindE [of "seedMain U B con"] consoleLog_def wp_bindE [of "sync f" for f] wp_sync wp_ret if_True if_False fst_conv snd_conv
    by (rule wp_conseq [OF main]) (use con_ok close in \<open>auto simp: wp_ret\<close>)
qed

end

end
