(* ===== verification/SeedTheorems.thy ===== *)
theory SeedTheorems
  imports Seed AuthTheorems
begin

text \<open>The seed script over every world that keeps the contracts it relies on, and on the reference world.\<close>

definition seed_console :: "seed_line \<Rightarrow> ref_state \<Rightarrow> ref_state" where
  "seed_console l s = s"

interpretation ref_seed:
  seed_services ref_user ref_bcrypt ref_amqp uref_inv uref "\<lambda>_. ()" rs_queues "\<lambda>pw h. h = ref_hash pw" seed_console "\<lambda>s. (Inr (), s)"
  by unfold_locales (simp_all add: seed_console_def)

text \<open>
  C32: The seed script never changes or deletes an account; what it adds are rows of its own list for
  which neither the e-mail nor the user name was taken, with the hash of the listed password, without
  tenant code and without database. When it exits with status 0 every listed account exists, and
  running it again, however that run ends, changes nothing. So the administrator it adds has no
  tenant, which \<open>UserService.create\<close> forbids.
\<close>

theorem seed_idempotent:
  assumes "seed_services U B A Inv W uloc Q matches con disconnect" and "Inv s"
    and "run (seedScript U B con disconnect) s = (Inr c, s1)"
  defines "k \<equiv> uloc DefaultClient"
  shows "same_but k (W s) (W s1) \<and> seeded matches seedUsers (W s k) (W s1 k) \<and> Q s1 = Q s \<and>
    (c = 0 \<longrightarrow> (\<forall>d\<in>set seedUsers. seed_present (W s1 k) d) \<and>
       (\<forall>r s2. run (seedScript U B con disconnect) s1 = (r, s2) \<longrightarrow> W s2 = W s1))"
proof -
  note seeds = seed_services.seedScript_wp [OF assms(1)]
  have s1: "Inv s1 \<and> Q s1 = Q s \<and> same_but k (W s) (W s1) \<and> seeded matches seedUsers (W s k) (W s1 k) \<and>
      (c = 0 \<longrightarrow> (\<forall>d\<in>set seedUsers. seed_present (W s1 k) d))"
    using wp_run_Inr [OF seeds [OF assms(2)] assms(3)] by (simp add: k_def)
  have "W s2 = W s1" if "c = 0" and r: "run (seedScript U B con disconnect) s1 = (r, s2)" for r s2
  proof -
    have "same_but k (W s1) (W s2) \<and> seeded matches seedUsers (W s1 k) (W s2 k)"
      using wp_run_case [OF seeds r] s1 by (cases r) (simp_all add: k_def)
    moreover have "\<forall>d\<in>set seedUsers. seed_present (W s1 k) d" using s1 that by simp
    ultimately show ?thesis using seeded_nothing [of seedUsers "W s1 k" matches "W s2 k"] by (auto simp: same_but_def fun_eq_iff)
  qed
  with s1 show ?thesis by blast
qed

theorem seed_idempotent_witness:
  "let res = run (seedScript ref_user ref_bcrypt seed_console (\<lambda>s. (Inr (), s))) ex_world; s1 = snd res
   in fst res = Inr 0 \<and> map u_role (filter (\<lambda>u. u_email u = ''admin@provenant.eu'' \<and> u_tenantCode u = None) (rs_users s1)) = [ADMIN] \<and>
      same_but () (uref ex_world) (uref s1) \<and> seeded (\<lambda>pw h. h = ref_hash pw) seedUsers (uref ex_world ()) (uref s1 ()) \<and>
      rs_queues s1 = rs_queues ex_world \<and> list_all (seed_present (uref s1 ())) seedUsers \<and>
      uref (snd (run (seedScript ref_user ref_bcrypt seed_console (\<lambda>s. (Inr (), s))) s1)) = uref s1"
  unfolding Let_def list_all_iff
proof (intro conjI)
  let ?r = "run (seedScript ref_user ref_bcrypt seed_console (\<lambda>s. (Inr (), s))) ex_world"
  show r: "fst ?r = Inr 0" by code_simp
  show "map u_role (filter (\<lambda>u. u_email u = ''admin@provenant.eu'' \<and> u_tenantCode u = None) (rs_users (snd ?r))) = [ADMIN]" by code_simp
  have "?r = (Inr 0, snd ?r)" using r by (metis prod.collapse)
  note t = seed_idempotent [OF ref_seed.seed_services_axioms ex_world_inv this]
  show "same_but () (uref ex_world) (uref (snd ?r))" "seeded (\<lambda>pw h. h = ref_hash pw) seedUsers (uref ex_world ()) (uref (snd ?r) ())"
    "rs_queues (snd ?r) = rs_queues ex_world" "\<forall>d\<in>set seedUsers. seed_present (uref (snd ?r) ()) d"
    using t by blast+
  show "uref (snd (run (seedScript ref_user ref_bcrypt seed_console (\<lambda>s. (Inr (), s))) (snd ?r))) = uref (snd ?r)"
    using t prod.collapse [of "run (seedScript ref_user ref_bcrypt seed_console (\<lambda>s. (Inr (), s))) (snd ?r)", symmetric] by blast
qed

end
