(* ===== verification/MigrationTheorems.thy ===== *)
theory MigrationTheorems
  imports ProvisioningTheorems OrderSystem "HOL-Library.Sublist"
begin

text \<open>
  \<open>migrateAllTenants\<close>: what its report says about the statements that were executed, with an
  execution on the world of the provisioning examples.
\<close>

section \<open>The report and the log\<close>

text \<open>The statements of a migration as this service executes them, and its record.\<close>

definition tenant_block :: "string \<Rightarrow> string \<Rightarrow> string list" where
  "tenant_block dir sql = map (\<lambda>st. st @ '';'') (migrationStatements sql) @ [recordMigration dir (length (migrationStatements sql))]"

text \<open>
  The report on one tenant whose log goes from \<open>l\<close> to \<open>l'\<close>: a directory without file is not
  mentioned, a recorded one is \<open>AlreadyApplied\<close>, an \<open>Applied\<close> one has executed its whole block, and of a
  \<open>Failed\<close> one a proper prefix of its block was executed, so never its record.
\<close>

inductive reported ::
  "(string \<rightharpoonup> string) \<Rightarrow> (string list \<Rightarrow> string \<Rightarrow> bool) \<Rightarrow> string \<Rightarrow> string list \<Rightarrow> string list \<Rightarrow> migration_result list \<Rightarrow> string list \<Rightarrow> bool"
  for texts seen tc where
  rep_end: "reported texts seen tc [] l [] l"
| rep_absent: "texts d = None \<Longrightarrow> reported texts seen tc ds l rs l' \<Longrightarrow> reported texts seen tc (d # ds) l rs l'"
| rep_seen: "texts d = Some sql \<Longrightarrow> seen l d \<Longrightarrow> reported texts seen tc ds l rs l' \<Longrightarrow>
    reported texts seen tc (d # ds) l ((tc, d, AlreadyApplied) # rs) l'"
| rep_applied: "texts d = Some sql \<Longrightarrow> reported texts seen tc ds (l @ tenant_block d sql) rs l' \<Longrightarrow>
    reported texts seen tc (d # ds) l ((tc, d, Applied) # rs) l'"
| rep_failed: "texts d = Some sql \<Longrightarrow> strict_prefix xs (tenant_block d sql) \<Longrightarrow> reported texts seen tc ds (l @ xs) rs l' \<Longrightarrow>
    reported texts seen tc (d # ds) l ((tc, d, Failed m) # rs) l'"

text \<open>The report over the tenants, one after the other, each on its own client.\<close>

inductive reports ::
  "config \<Rightarrow> (string \<rightharpoonup> string) \<Rightarrow> (prisma_client \<Rightarrow> string list \<Rightarrow> string \<Rightarrow> bool) \<Rightarrow> string list \<Rightarrow>
   string list \<Rightarrow> (prisma_client \<Rightarrow> string list) \<Rightarrow> migration_result list \<Rightarrow> (prisma_client \<Rightarrow> string list) \<Rightarrow> bool"
  for cfg texts seen dirs where
  reports_end: "reports cfg texts seen dirs [] lg [] lg"
| reports_tenant: "tenant_client cfg tc c \<Longrightarrow> same_but c lg lg1 \<Longrightarrow>
    reported texts (seen c) tc dirs (lg c @ [tenantMigrationsTable]) rs (lg1 c) \<Longrightarrow>
    reports cfg texts seen dirs tcs lg1 rs' lg2 \<Longrightarrow> reports cfg texts seen dirs (tc # tcs) lg (rs @ rs') lg2"

section \<open>The service\<close>

locale migration_services = sql_log S F gen Inv L files entries
  for S :: "'s sql_api" and F :: "'s fs_api" and gen :: "'s \<Rightarrow> string \<times> 's" and Inv :: "'s \<Rightarrow> bool"
    and L :: "'s \<Rightarrow> prisma_client \<Rightarrow> string list" and files :: "string \<rightharpoonup> string" and entries :: "string \<Rightarrow> (string \<times> bool) list" +
  fixes U :: "'s user_api" and M :: "'s manager"
  assumes conns: "Inv s \<Longrightarrow> conns_ok (mg_config M) (mg_get M s)"
    and put_ok: "Inv s \<Longrightarrow> conns_ok (mg_config M) cs \<Longrightarrow> Inv (mg_put M cs s) \<and> L (mg_put M cs s) = L s"
    and ready_ok: "Inv s \<Longrightarrow> user_findMany_ready U c s = (ur, s') \<Longrightarrow> Inv s' \<and> L s' = L s"
begin

lemma migrationClient_wp:
  assumes "Inv s" and "\<And>c s'. Inv s' \<Longrightarrow> L s' = L s \<Longrightarrow> tenant_client (mg_config M) tc c \<Longrightarrow> R c s'"
  shows "wp (clientFor M (Some tc)) R E s"
proof -
  define p where "p = getClient (mg_config M) (Some tc) (mg_get M s)"
  have "conns_ok (mg_config M) (snd p)" unfolding p_def by (intro getClient_ok conns assms(1))
  moreover have "tenant_client (mg_config M) tc (fst p)"
    unfolding p_def tenant_client_def using getClient_tenant [OF conns [OF assms(1)]] by blast
  ultimately show ?thesis
    unfolding clientFor_def wp_sync p_def [symmetric] split_beta using assms put_ok [OF assms(1)] by simp
qed

text \<open>Executing a list of statements: all of them, or a proper prefix.\<close>

lemma executeAll_wp:
  assumes "Inv s"
  shows "wp (forEach xs (\<lambda>st. await_call (sql_execute S c (f st))))
    (\<lambda>_ s'. Inv s' \<and> L s' = (L s)(c := L s c @ map f xs))
    (\<lambda>_ s'. Inv s' \<and> (\<exists>ys. strict_prefix ys (map f xs) \<and> L s' = (L s)(c := L s c @ ys))) s"
proof (rule wp_forEach [where J = "\<lambda>ys s'. Inv s' \<and> L s' = (L s)(c := L s c @ map f ys)"])
  fix ys x zs s1 assume xs: "xs = ys @ x # zs" and s1: "Inv s1 \<and> L s1 = (L s)(c := L s c @ map f ys)"
  have "strict_prefix (map f ys) (map f xs)" by (simp add: xs strict_prefix_def)
  with s1 show "wp (await_call (sql_execute S c (f x))) (\<lambda>_ s'. Inv s' \<and> L s' = (L s)(c := L s c @ map f (ys @ [x])))
    (\<lambda>_ s'. Inv s' \<and> (\<exists>ys. strict_prefix ys (map f xs) \<and> L s' = (L s)(c := L s c @ ys))) s1"
    by (intro execute_wp) auto
qed (use assms in auto)

text \<open>What one directory adds to the report and to the log.\<close>

definition dir_report :: "prisma_client \<Rightarrow> string \<Rightarrow> string \<Rightarrow> string list \<Rightarrow> migration_result list \<Rightarrow> string list \<Rightarrow> bool" where
  "dir_report c tc d l rs l' \<longleftrightarrow>
    sqlOf F files d = None \<and> rs = [] \<and> l' = l \<or>
    sqlOf F files d \<noteq> None \<and> recorded S Inv L c l d \<and> rs = [(tc, d, AlreadyApplied)] \<and> l' = l \<or>
    (\<exists>sql. sqlOf F files d = Some sql \<and> rs = [(tc, d, Applied)] \<and> l' = l @ tenant_block d sql) \<or>
    (\<exists>sql m xs. sqlOf F files d = Some sql \<and> strict_prefix xs (tenant_block d sql) \<and> rs = [(tc, d, Failed m)] \<and> l' = l @ xs)"

lemma reported_cons:
  "dir_report c tc d l rs l1 \<Longrightarrow> reported (sqlOf F files) (recorded S Inv L c) tc ds l1 rs' l2 \<Longrightarrow>
   reported (sqlOf F files) (recorded S Inv L c) tc (d # ds) l (rs @ rs') l2"
  unfolding dir_report_def by (auto intro: reported.intros)

lemma migrateStatements_wp:
  assumes "Inv s" and "sqlOf F files d = Some sql"
  shows "wp (tryCatch
      (bindE (forEach (migrationStatements sql) (\<lambda>stmt. await_call (sql_execute S c (stmt @ '';'')))) (\<lambda>_.
       bindE (await_call (sql_execute S c (recordMigration d (length (migrationStatements sql))))) (\<lambda>_.
       ret [(tc, d, Applied)])))
      (\<lambda>e. ret [(tc, d, Failed (message e))]))
    (\<lambda>rs s'. Inv s' \<and> same_but c (L s) (L s') \<and> dir_report c tc d (L s c) rs (L s' c)) (\<lambda>_ _. False) s"
  unfolding wp_tryCatch wp_bindE [of "forEach xs b" for xs b]
proof (rule wp_conseq [OF executeAll_wp [OF assms(1), of "migrationStatements sql" c "\<lambda>st. st @ '';''"]], elim conjE)
  let ?xs = "map (\<lambda>st. st @ '';'') (migrationStatements sql)"
  let ?G = "\<lambda>rs s'. Inv s' \<and> same_but c (L s) (L s') \<and> dir_report c tc d (L s c) rs (L s' c)"
  have failed: "?G [(tc, d, Failed m)] s1" if "Inv s1" "strict_prefix ys (tenant_block d sql)" "L s1 = (L s)(c := L s c @ ys)" for m ys s1
    using that assms(2) unfolding dir_report_def by auto
  show "wp (bindE (await_call (sql_execute S c (recordMigration d (length (migrationStatements sql))))) (\<lambda>_. ret [(tc, d, Applied)]))
      ?G (\<lambda>e. wp (ret [(tc, d, Failed (message e))]) ?G (\<lambda>_ _. False)) s1"
    if s1: "Inv s1" "L s1 = (L s)(c := L s c @ ?xs)" for s1
    unfolding wp_bindE wp_ret
  proof (rule execute_wp [OF s1(1)])
    show "?G [(tc, d, Failed (message (RaisedError e)))] s2" if "Inv s2" "L s2 = L s1" for e s2
      by (rule failed [of _ ?xs]) (use that s1 in \<open>auto simp: tenant_block_def strict_prefix_def\<close>)
    show "?G [(tc, d, Applied)] s2" if "Inv s2" "L s2 = (L s1)(c := L s1 c @ [recordMigration d (length (migrationStatements sql))])" for s2
      using that s1 assms(2) unfolding dir_report_def by (auto simp: tenant_block_def)
  qed
  show "wp (ret [(tc, d, Failed (message e))]) ?G (\<lambda>_ _. False) s1"
    if "Inv s1 \<and> (\<exists>ys. strict_prefix ys ?xs \<and> L s1 = (L s)(c := L s c @ ys))" for e s1
  proof -
    from that obtain ys where ys: "Inv s1" "strict_prefix ys ?xs" "L s1 = (L s)(c := L s c @ ys)" by blast
    then have "strict_prefix ys (tenant_block d sql)" unfolding tenant_block_def by (simp add: strict_prefix_def prefix_def) auto
    then show ?thesis unfolding wp_ret by (rule failed [OF ys(1) _ ys(3)])
  qed
qed

lemma migrateOne_wp:
  assumes "Inv s"
  shows "wp (migrateOne S F c tc d)
    (\<lambda>rs s'. Inv s' \<and> same_but c (L s) (L s') \<and> dir_report c tc d (L s c) rs (L s' c)) (\<lambda>_ _. True) s" (is "wp _ ?G ?E s")
proof -
  define body where "body = (\<lambda>sql. let statements = migrationStatements sql in
    tryCatch
      (bindE (forEach statements (\<lambda>stmt. await_call (sql_execute S c (stmt @ '';'')))) (\<lambda>_.
       bindE (await_call (sql_execute S c (recordMigration d (length statements)))) (\<lambda>_.
       ret [(tc, d, Applied)])))
      (\<lambda>e. ret [(tc, d, Failed (message e))]))"
  have body: "wp (body sql) ?G ?E s1" if "Inv s1" "L s1 = L s" "sqlOf F files d = Some sql" for sql s1
    unfolding body_def Let_def
    by (rule wp_conseq [OF migrateStatements_wp [OF that(1,3)]]) (use that in auto)
  have query: "wp (bindE (await_call (sql_query S c (selectMigration d))) (\<lambda>found.
      if found \<noteq> [] then ret [(tc, d, AlreadyApplied)] else body sql)) ?G ?E s1"
    if s1: "Inv s1" "L s1 = L s" "sqlOf F files d = Some sql" for sql s1
  proof -
    have "wp (if found \<noteq> [] then ret [(tc, d, AlreadyApplied)] else body sql) ?G ?E s2"
      if s2: "Inv s2" "L s2 = L s1" and found: "fst (sql_query S c (selectMigration d) s1) = Inr found" for found s2
    proof (cases found)
      case Nil
      then show ?thesis using body [of s2 sql] s1 s2 by simp
    next
      case (Cons x xs)
      then have "recorded S Inv L c (L s c) d" using s1 found unfolding recorded_def by metis
      then show ?thesis using Cons s1 s2 by (simp add: wp_ret dir_report_def)
    qed
    then show ?thesis
      unfolding wp_bindE [of "await_call (sql_query S c (selectMigration d))"]
      by (intro silent_wp [OF s1(1), where R = "\<lambda>x s2. fst (sql_query S c (selectMigration d) s1) = Inr x"])
         (use query_ok [OF s1(1)] in auto)
  qed
  obtain b s1 where ex: "fs_exists F (migrationFile F d) s = (b, s1)" by fastforce
  then have s1: "Inv s1" "L s1 = L s" "b \<longleftrightarrow> sqlOf F files d \<noteq> None" using exists_ok [OF assms ex] by (auto simp: sqlOf_def)
  have "wp (if \<not> b then ret [] else bindE (await_call (fs_readFile F (migrationFile F d))) (\<lambda>sql.
      bindE (await_call (sql_query S c (selectMigration d))) (\<lambda>found.
      if found \<noteq> [] then ret [(tc, d, AlreadyApplied)] else body sql))) ?G ?E s1"
  proof (cases b)
    case True
    have "wp (await_call (fs_readFile F (migrationFile F d))) (\<lambda>sql. wp (bindE (await_call (sql_query S c (selectMigration d))) (\<lambda>found.
        if found \<noteq> [] then ret [(tc, d, AlreadyApplied)] else body sql)) ?G ?E) ?E s1"
      by (rule silent_wp [OF s1(1), where R = "\<lambda>x _. sqlOf F files d = Some x"])
         (use readFile_ok [OF s1(1)] s1 query in \<open>auto simp: sqlOf_def\<close>)
    then show ?thesis using True by (simp add: wp_bindE [of "await_call (fs_readFile F (migrationFile F d))"])
  next
    case False
    then show ?thesis using s1 by (simp add: wp_ret dir_report_def)
  qed
  then show ?thesis
    unfolding migrateOne_def body_def wp_bindE [of "sync (fs_exists F (migrationFile F d))"] wp_sync by (simp add: ex)
qed

lemma migrateDirs_wp:
  assumes "Inv s"
  shows "wp (collect ds (migrateOne S F c tc))
    (\<lambda>rs s'. Inv s' \<and> same_but c (L s) (L s') \<and> reported (sqlOf F files) (recorded S Inv L c) tc ds (L s c) rs (L s' c)) (\<lambda>_ _. True) s"
  using assms
proof (induction ds arbitrary: s)
  case Nil
  then show ?case by (simp add: wp_ret rep_end)
next
  case (Cons d ds)
  show ?case
    unfolding collect.simps wp_bindE wp_ret
  proof (rule wp_conseq [OF migrateOne_wp [OF Cons.prems]])
    fix rs s1 assume s1: "Inv s1 \<and> same_but c (L s) (L s1) \<and> dir_report c tc d (L s c) rs (L s1 c)"
    then show "wp (collect ds (migrateOne S F c tc)) (\<lambda>rs' s'. Inv s' \<and> same_but c (L s) (L s') \<and>
        reported (sqlOf F files) (recorded S Inv L c) tc (d # ds) (L s c) (rs @ rs') (L s' c)) (\<lambda>_ _. True) s1"
      by (intro wp_conseq [OF Cons.IH]) (auto intro: reported_cons same_but_trans)
  qed simp
qed

lemma migrateTenants_wp:
  assumes "Inv s"
  shows "wp (collect tcs (\<lambda>tenantCode.
      bindE (clientFor M (Some tenantCode)) (\<lambda>c.
      bindE (await_call (sql_connect S c)) (\<lambda>_.
      bindE (await_call (sql_execute S c tenantMigrationsTable)) (\<lambda>_.
      bindE (collect dirs (migrateOne S F c tenantCode)) (\<lambda>rs.
      bindE (await_call (sql_disconnect S c)) (\<lambda>_. ret rs)))))))
    (\<lambda>rs s'. Inv s' \<and> reports (mg_config M) (sqlOf F files) (recorded S Inv L) dirs tcs (L s) rs (L s')) (\<lambda>_ _. True) s"
    (is "wp (collect tcs ?body) _ _ s")
  using assms
proof (induction tcs arbitrary: s)
  case Nil
  then show ?case by (simp add: wp_ret reports_end)
next
  case (Cons tc tcs)
  have tenant: "wp (?body tc) (\<lambda>rs s1. Inv s1 \<and> (\<exists>c. tenant_client (mg_config M) tc c \<and> same_but c (L s) (L s1) \<and>
      reported (sqlOf F files) (recorded S Inv L c) tc dirs (L s c @ [tenantMigrationsTable]) rs (L s1 c))) (\<lambda>_ _. True) s"
    unfolding wp_bindE
  proof (rule migrationClient_wp [OF Cons.prems], rule silent_wp [where R = "\<lambda>_ _. True"])
    fix c s1 s2 assume s2: "Inv s1" "L s1 = L s" "tenant_client (mg_config M) tc c" "Inv s2" "L s2 = L s1"
    show "wp (await_call (sql_execute S c tenantMigrationsTable)) (\<lambda>_. wp (collect dirs (migrateOne S F c tc))
        (\<lambda>rs. wp (await_call (sql_disconnect S c)) (\<lambda>_. wp (ret rs) (\<lambda>rs s1. Inv s1 \<and> (\<exists>c. tenant_client (mg_config M) tc c \<and> same_but c (L s) (L s1) \<and>
          reported (sqlOf F files) (recorded S Inv L c) tc dirs (L s c @ [tenantMigrationsTable]) rs (L s1 c))) (\<lambda>_ _. True)) (\<lambda>_ _. True)) (\<lambda>_ _. True)) (\<lambda>_ _. True) s2"
    proof (rule execute_wp [OF s2(4)], simp, rule wp_conseq [OF migrateDirs_wp])
      fix s3 rs s4 assume s3: "L s3 = (L s2)(c := L s2 c @ [tenantMigrationsTable])"
        and s4: "Inv s4 \<and> same_but c (L s3) (L s4) \<and> reported (sqlOf F files) (recorded S Inv L c) tc dirs (L s3 c) rs (L s4 c)"
      show "wp (await_call (sql_disconnect S c)) (\<lambda>_. wp (ret rs) (\<lambda>rs s1. Inv s1 \<and> (\<exists>c. tenant_client (mg_config M) tc c \<and> same_but c (L s) (L s1) \<and>
          reported (sqlOf F files) (recorded S Inv L c) tc dirs (L s c @ [tenantMigrationsTable]) rs (L s1 c))) (\<lambda>_ _. True)) (\<lambda>_ _. True) s4"
        unfolding wp_ret
        by (rule silent_wp [where R = "\<lambda>_ _. True"]) (use s2 s3 s4 disconnect_ok in \<open>auto simp: same_but_def intro!: exI [of _ c]\<close>)
    qed simp_all
  qed (use connect_ok in auto)
  show ?case
    unfolding collect.simps wp_bindE [of "?body tc"]
  proof (rule wp_conseq [OF tenant])
    fix rs s1 assume "Inv s1 \<and> (\<exists>c. tenant_client (mg_config M) tc c \<and> same_but c (L s) (L s1) \<and>
      reported (sqlOf F files) (recorded S Inv L c) tc dirs (L s c @ [tenantMigrationsTable]) rs (L s1 c))"
    then show "wp (bindE (collect tcs ?body) (\<lambda>rs'. ret (rs @ rs')))
      (\<lambda>rs s'. Inv s' \<and> reports (mg_config M) (sqlOf F files) (recorded S Inv L) dirs (tc # tcs) (L s) rs (L s')) (\<lambda>_ _. True) s1"
      unfolding wp_bindE wp_ret by (auto intro!: wp_conseq [OF Cons.IH] intro: reports_tenant)
  qed simp
qed

lemma migrateAllTenants_wp:
  assumes "Inv s"
  shows "wp (migrateAllTenants U M S F)
    (\<lambda>rs s'. Inv s' \<and> (\<exists>tcs. fst (user_findMany_ready U DefaultClient s) = Inr tcs \<and>
       reports (mg_config M) (sqlOf F files) (recorded S Inv L) (migrationDirs (entries (migrationsPath F))) tcs (L s) rs (L s')))
    (\<lambda>_ _. True) s"
  unfolding migrateAllTenants_def wp_bindE [of "await_call (user_findMany_ready U DefaultClient)"]
    wp_bindE [of "await_call (fs_readdir F (migrationsPath F))"]
proof (rule silent_wp [OF assms, where R = "\<lambda>x _. fst (user_findMany_ready U DefaultClient s) = Inr x"])
  fix tcs s1 assume s1: "Inv s1" "L s1 = L s" "fst (user_findMany_ready U DefaultClient s) = Inr tcs"
  show "wp (await_call (fs_readdir F (migrationsPath F))) (\<lambda>es. wp (collect tcs (\<lambda>tenantCode.
      bindE (clientFor M (Some tenantCode)) (\<lambda>c.
      bindE (await_call (sql_connect S c)) (\<lambda>_.
      bindE (await_call (sql_execute S c tenantMigrationsTable)) (\<lambda>_.
      bindE (collect (migrationDirs es) (migrateOne S F c tenantCode)) (\<lambda>rs.
      bindE (await_call (sql_disconnect S c)) (\<lambda>_. ret rs)))))))
    (\<lambda>rs s'. Inv s' \<and> (\<exists>tcs. fst (user_findMany_ready U DefaultClient s) = Inr tcs \<and>
       reports (mg_config M) (sqlOf F files) (recorded S Inv L) (migrationDirs (entries (migrationsPath F))) tcs (L s) rs (L s')))
    (\<lambda>_ _. True)) (\<lambda>_ _. True) s1"
    by (rule silent_wp [OF s1(1), where R = "\<lambda>es _. es = entries (migrationsPath F)"])
       (use readdir_ok [OF s1(1)] s1 in \<open>auto intro!: wp_conseq [OF migrateTenants_wp]\<close>)
qed (use ready_ok [OF assms] in auto)

end

section \<open>Property\<close>

definition prov_manager :: "prov_world manager" where
  "prov_manager = \<lparr>mg_config = prov_config, mg_get = pw_conns, mg_put = \<lambda>cs w. w\<lparr>pw_conns := cs\<rparr>\<rparr>"

interpretation prov_all: migration_services "prov_sql rej" prov_fs prov_gen "\<lambda>w. conns_ok prov_config (pw_conns w)" prov_log prov_files prov_entries
    prov_user prov_manager
  by unfold_locales
     (auto simp: prov_sql_def prov_fs_def prov_gen_def prov_log_def prov_user_def prov_manager_def Let_def fun_eq_iff split: option.splits sum.split)

text \<open>
  C17: When \<open>migrateAllTenants\<close> returns, its report is exact: tenant by tenant and directory by
  directory in order, \<open>applied\<close> means that all statements of the file and its record were executed on
  the tenant's own client, \<open>already_applied\<close> that a record was found and nothing was executed,
  \<open>failed\<close> that only a proper prefix was executed and the migration was not recorded (so the next call
  starts it again from its first statement), and a directory without file is not mentioned. A
  failure does not keep the later migrations from running, and no other client executes anything.
\<close>

theorem migration_report_exact:
  assumes "migration_services S F gen Inv L files entries U M" and "Inv s" and "run (migrateAllTenants U M S F) s = (Inr rs, s')"
  shows "\<exists>tcs. fst (user_findMany_ready U DefaultClient s) = Inr tcs \<and>
    reports (mg_config M) (sqlOf F files) (recorded S Inv L) (migrationDirs (entries (migrationsPath F))) tcs (L s) rs (L s')"
  using wp_run_Inr [OF migration_services.migrateAllTenants_wp [OF assms(1,2)] assms(3)] by blast

lemma never_throws_collect: "(\<And>x. never_throws (body x)) \<Longrightarrow> never_throws (collect xs body)"
  by (induction xs) (simp_all add: never_throws_intros)

theorem migration_report_exact_witness:
  "\<exists>rs s'. run (migrateAllTenants prov_user prov_manager (prov_sql (\<lambda>_. None)) prov_fs) prov_start = (Inr rs, s') \<and>
    (\<exists>tcs. fst (user_findMany_ready prov_user DefaultClient prov_start) = Inr tcs \<and>
      reports (mg_config prov_manager) (sqlOf prov_fs prov_files)
        (recorded (prov_sql (\<lambda>_. None)) (\<lambda>w. conns_ok prov_config (pw_conns w)) prov_log)
        (migrationDirs (prov_entries (migrationsPath prov_fs))) tcs (prov_log prov_start) rs (prov_log s'))"
proof -
  have ready: "\<not> isl (fst (user_findMany_ready prov_user c w))" for c w by (simp add: prov_user_def Let_def)
  have "never_throws (migrateAllTenants prov_user prov_manager (prov_sql (\<lambda>_. None)) prov_fs)"
    unfolding migrateAllTenants_def migrateOne_def clientFor_def Let_def
    by (intro never_throws_intros never_throws_simple never_throws_if never_throws_collect never_throws_forEach prov_calls ready)
  then obtain rs s' where run: "run (migrateAllTenants prov_user prov_manager (prov_sql (\<lambda>_. None)) prov_fs) prov_start = (Inr rs, s')"
    by (rule never_throwsE)
  have "conns_ok prov_config (pw_conns prov_start)" by (simp add: prov_start_def conns_ok_empty)
  from migration_report_exact [OF prov_all.migration_services_axioms this run] run show ?thesis by blast
qed

end
