(* ===== verification/Termination.thy ===== *)
theory Termination
  imports Orders
begin

text \<open>
  Termination of requests. A handler is suspended at every \<open>await\<close>; between two of its sections the
  event loop and other processes may do anything. \<open>ends n m\<close> says that \<open>m\<close> is finished after at
  most \<open>n\<close> sections whatever their results are; \<open>exec\<close> executes \<open>m\<close> with fuel in an environment
  that interferes after every section.
\<close>

inductive ends :: "nat \<Rightarrow> ('s, 'a) async \<Rightarrow> bool" where
  ends_Done: "ends n (Done x)"
| ends_Await: "(\<And>s. ends n (fst (g s))) \<Longrightarrow> ends (Suc n) (Await g)"

inductive_simps ends_Await_iff: "ends n (Await g)"

primrec exec :: "nat \<Rightarrow> (nat \<Rightarrow> 's \<Rightarrow> 's) \<Rightarrow> ('s, 'a) async \<Rightarrow> 's \<Rightarrow> ('a \<times> 's) option" where
  "exec 0 env m s = (case m of Done x \<Rightarrow> Some (x, s) | Await g \<Rightarrow> None)"
| "exec (Suc n) env m s = (case m of
     Done x \<Rightarrow> Some (x, s)
   | Await g \<Rightarrow> exec n (\<lambda>i. env (Suc i)) (fst (g s)) (env 0 (snd (g s))))"

lemma ends_exec: "ends n m \<Longrightarrow> \<exists>x s'. exec n env m s = Some (x, s')"
proof (induction arbitrary: env s rule: ends.induct)
  case (ends_Done n x)
  then show ?case by (cases n) auto
qed auto

text \<open>Without interference this is the execution alone.\<close>

lemma exec_alone: "ends n m \<Longrightarrow> exec n (\<lambda>_ s. s) m s = Some (run m s)"
proof (induction arbitrary: s rule: ends.induct)
  case (ends_Done n x)
  then show ?case by (cases n) auto
qed (simp add: run_Await)

section \<open>Counting sections\<close>

named_theorems ends_rules \<open>bounds on the sections of a program\<close>

lemma ends_mono: "ends n m \<Longrightarrow> n \<le> k \<Longrightarrow> ends k m"
proof (induction arbitrary: k rule: ends.induct)
  case (ends_Await n g)
  then show ?case by (cases k) (auto intro: ends.ends_Await)
qed (rule ends.ends_Done)

lemma ends_bindA: "ends n m \<Longrightarrow> (\<And>x. ends k (f x)) \<Longrightarrow> ends (n + k) (bindA m f)"
proof (induction rule: ends.induct)
  case (ends_Done n x)
  then show ?case by (simp add: ends_mono [of k])
next
  case (ends_Await n g)
  then show ?case by (auto intro!: ends.ends_Await)
qed

lemma ends_ret [ends_rules]: "ends 0 (ret x)" and ends_throw [ends_rules]: "ends 0 (throw e)"
  by (auto simp: ret_def throw_def intro: ends_Done)

lemma ends_call [ends_rules]: "ends 1 (await_call f)" and ends_sync [ends_rules]: "ends 1 (sync g)"
  by (auto simp: await_call_def sync_def intro!: ends_Await [of 0, simplified] ends_Done)

lemma ends_bindE [ends_rules]: "ends n m \<Longrightarrow> (\<And>x. ends k (f x)) \<Longrightarrow> ends (n + k) (bindE m f)"
  unfolding bindE_def by (rule ends_bindA) (auto simp: throw_def intro: ends_Done split: sum.split)

lemma ends_tryCatch [ends_rules]: "ends n m \<Longrightarrow> (\<And>e. ends k (h e)) \<Longrightarrow> ends (n + k) (tryCatch m h)"
  unfolding tryCatch_def by (rule ends_bindA) (auto simp: ret_def intro: ends_Done split: sum.split)

lemma ends_if [ends_rules]: "ends n a \<Longrightarrow> ends k b \<Longrightarrow> ends (max n k) (if c then a else b)"
  by (auto intro: ends_mono)

lemma ends_option [ends_rules]:
  "ends n a \<Longrightarrow> (\<And>x. ends k (f x)) \<Longrightarrow> ends (max n k) (case y of None \<Rightarrow> a | Some x \<Rightarrow> f x)"
  by (cases y) (auto intro: ends_mono [of n] ends_mono [of k])

lemma ends_forEach: "(\<And>x. ends k (body x)) \<Longrightarrow> ends (length xs * k) (forEach xs body)"
  by (induction xs) (auto intro: ends_rules)

section \<open>Creating an order\<close>

text \<open>Every round of the retry loop: the test, one attempt to connect, the delay.\<close>

lemma ends_attempt: "ends 7 (attemptConnection A)"
proof -
  have "ends (1 + (1 + (1 + (1 + (1 + (1 + 1)))))) (attemptConnection A)"
    unfolding attemptConnection_def set_connection_def set_channel_def by (intro ends_rules)
  then show ?thesis by (rule ends_mono) simp
qed

lemma ends_wait: "ends (9 * n) (waitLoop A n)"
proof (induction n)
  case 0
  show ?case by (simp add: ends_throw)
next
  case (Suc n)
  have "ends (1 + max 0 (max (7 + 0) 0 + (1 + 9 * n))) (waitLoop A (Suc n))"
    unfolding waitLoop.simps sleep_def by (intro ends_rules ends_attempt Suc)
  then show ?case by (rule ends_mono) simp
qed

lemma ends_publish: "ends 92 (publishOrderProcessingMessage A d)"
proof -
  have "ends (9 * 10 + (1 + (1 + 0)) + 0) (publishOrderProcessingMessage A d)"
    unfolding publishOrderProcessingMessage_def rethrow_def waitForConnection_def by (intro ends_rules ends_wait)
  then show ?thesis by (rule ends_mono) simp
qed

lemma ends_addItem: "ends 6 (addItemToOrder P c oid uid dto tc)"
proof -
  have "ends (1 + max 0 (max 0 (max 0 (1 + 0 + max 0 (max 0 (1 + (max (1 + 0) (1 + 0) + ((1 + (1 + 0)) + 0)))))))) (addItemToOrder P c oid uid dto tc)"
    unfolding addItemToOrder_def recalculateOrderTotal_def catchTenant_def by (intro ends_rules)
  then show ?thesis by (rule ends_mono) simp
qed

lemma ends_create: "ends (94 + 6 * length xs) (controllerCreate P A c user tc (Some xs))"
proof -
  have item: "ends (6 + 0) (bindE (addItemToOrder P c oid uid (item_dto i) tc) (\<lambda>_. ret ()))" for oid uid i
    by (intro ends_rules ends_addItem)
  have "ends (max 0 (1 + 0 + (length xs * (6 + 0) + (92 + (1 + max 0 0))))) (controllerCreate P A c user tc (Some xs))"
    unfolding controllerCreate_def createOrder_def catchTenant_def enqueueOrderProcessing_def findOne_def option.sel
    by (intro ends_rules ends_publish ends_forEach item)
  then show ?thesis by (rule ends_mono) simp
qed

text \<open>
  C19: Creating an order with \<open>n\<close> items ends after at most \<open>94 + 6 n\<close> awaited calls, whatever Prisma
  and the broker answer and whatever other requests and processes do between any two of them, even
  when the broker stays unreachable and every round of the retry loop is used up.
\<close>

theorem create_terminates:
  "\<exists>r s'. exec (94 + 6 * length xs) env (controllerCreate P A c user tc (Some xs)) s = Some (r, s')"
  by (rule ends_exec [OF ends_create])

end
