(* ===== verification/OrderLifecycle.thy ===== *)
theory OrderLifecycle
  imports OrderTheorems
begin

text \<open>
  The way of one order through both processes: the request that creates it, the delivery of the
  message this request queued, the payment, the request for completion and the delivery of the
  message that one queued. The messages are the texts on the queues, which the consumers parse.
\<close>

section \<open>Deliveries\<close>

context order_services
begin

text \<open>
  A delivery has the effect of its handler or none, whether it is acknowledged, refused, or the
  broker fails in between.
\<close>

lemma onDelivery_wp:
  assumes "Inv s" and "decode j = Some m"
    and "wp (callback m) (\<lambda>_ s'. Inv s' \<and> R (T s')) (\<lambda>_ s'. Inv s' \<and> T s' = T s) s"
  shows "wp (onDelivery A decode callback tag (stringify j))
    (\<lambda>_ s'. Inv s' \<and> (T s' = T s \<or> R (T s'))) (\<lambda>_ s'. Inv s' \<and> (T s' = T s \<or> R (T s'))) s"
proof -
  let ?G = "\<lambda>_ s'. Inv s' \<and> (T s' = T s \<or> R (T s'))"
  have no: "wp (await_call (amqp_nack A tag)) ?G ?G s1" if "Inv s1 \<and> (T s1 = T s \<or> R (T s1))" for s1
    using nack [of s1 tag] that by (auto simp: wp_await_call split: sum.split)
  have yes: "wp (await_call (amqp_ack A tag)) ?G (\<lambda>_. wp (await_call (amqp_nack A tag)) ?G ?G) s1" if "Inv s1 \<and> R (T s1)" for s1
    using ack [of s1 tag] that no by (auto simp: wp_await_call [of "amqp_ack A tag"] split: sum.split)
  show ?thesis
    unfolding onDelivery_def wp_tryCatch wp_bindE json_roundtrip Option.bind.bind_lunit assms(2) option.case
    by (rule wp_conseq [OF assms(3)]) (use yes no in blast)+
qed

lemma deliverOrderProcessing_wp:
  assumes "Inv s"
  shows "wp (deliverOrderProcessing P A M gen tag (order_msg_text oid uid tc))
    (\<lambda>_ s'. Inv s' \<and> (T s' = T s \<or> (\<exists>c pid. tenant_client (mg_config M) tc c \<and>
       order_change (no_order_data\<lparr>od_status := Some WAITING_FOR_PAYMENT, od_paymentId := Some pid\<rparr>) oid (loc c) (T s) (T s'))))
    (\<lambda>_ s'. Inv s' \<and> (T s' = T s \<or> (\<exists>c pid. tenant_client (mg_config M) tc c \<and>
       order_change (no_order_data\<lparr>od_status := Some WAITING_FOR_PAYMENT, od_paymentId := Some pid\<rparr>) oid (loc c) (T s) (T s')))) s"
  unfolding deliverOrderProcessing_def order_msg_text_def
  by (rule onDelivery_wp [OF assms], simp, rule wp_conseq [OF handleOrderProcessing_wp [OF assms]]) auto

lemma deliverOrderCompleted_wp:
  assumes "Inv s"
  shows "wp (deliverOrderCompleted P A M tag (completed_msg_text oid uid tc tx))
    (\<lambda>_ s'. Inv s' \<and> (T s' = T s \<or> (\<exists>c. tenant_client (mg_config M) tc c \<and>
       order_change (no_order_data\<lparr>od_status := Some COMPLETE, od_transactionId := Some tx\<rparr>) oid (loc c) (T s) (T s'))))
    (\<lambda>_ s'. Inv s' \<and> (T s' = T s \<or> (\<exists>c. tenant_client (mg_config M) tc c \<and>
       order_change (no_order_data\<lparr>od_status := Some COMPLETE, od_transactionId := Some tx\<rparr>) oid (loc c) (T s) (T s')))) s"
  unfolding deliverOrderCompleted_def completed_msg_text_def
  by (rule onDelivery_wp [OF assms], simp, rule wp_conseq [OF handleOrderCompleted_wp [OF assms]]) auto

end

lemma wp_run_either: "wp m (\<lambda>_. R) (\<lambda>_. R) s \<Longrightarrow> run m s = (r, s') \<Longrightarrow> R s'"
  by (cases r) (auto simp: wp_def)

lemma queued_last: "queued q m b b' \<Longrightarrow> last (b' q) = m"
  by (simp add: queued_def)

text \<open>An update of one order keeps every other row and the columns it does not name.\<close>

lemma order_change_row:
  assumes "order_change w oid k t t'" and "orders (t k) oid = Some r"
  shows "\<exists>u. orders (t' k) = (orders (t k))(oid \<mapsto> apply_order_data w u r)"
  using assms by (auto simp: order_change_def order_set_def)

lemma ordered_cong: "items d' = items d \<Longrightarrow> ordered d' oid = ordered d oid"
  by (simp add: ordered_def order_items_def fun_eq_iff)

text \<open>What has become of the order \<open>f\<close> at the end of its way, for the transaction \<open>tx\<close>.\<close>

definition settled :: "string option \<Rightarrow> order_row \<Rightarrow> order_row \<Rightarrow> bool" where
  "settled tx f r \<longleftrightarrow> o_id r = o_id f \<and> o_userId r = o_userId f \<and> o_total r = o_total f \<and> o_createdAt r = o_createdAt f \<and>
     o_paymentId r \<noteq> None \<and> (o_status r = COMPLETE \<and> o_transactionId r = tx \<or> o_status r = PAID \<and> o_transactionId r = None)"

context order_services
begin

text \<open>Created, processed and paid.\<close>

lemma created_paid:
  assumes "Inv s" and "tc \<noteq> []" and "tc \<noteq> defaultKey" and "c = UrlClient (databaseUrl (mg_config M) tc)"
    and "run (controllerCreate P A c user tc body) s = (Inr f, s1)"
    and "run (deliverOrderProcessing P A M gen tag (last (Q s1 orderProcessingQueue))) s1 = (r2, s2)"
    and "run (controllerPaymentReceived P c (o_id (fst f)) user tc) s2 = (Inr g, s3)"
  shows "\<exists>xs pid u. Inv s3 \<and> body = Some xs \<and> same_but (loc c) (T s) (T s3) \<and>
    stock_taken (products (T s (loc c))) (requested (map item_dto xs)) (products (T s3 (loc c))) \<and>
    orders (T s3 (loc c)) = (orders (T s (loc c)))
      (o_id (fst f) \<mapsto> (fst f)\<lparr>o_paymentId := Some pid, o_status := PAID, o_updatedAt := u\<rparr>) \<and>
    o_userId (fst f) = au_id user \<and> o_transactionId (fst f) = None \<and>
    ordered (T s3 (loc c)) (o_id (fst f)) = requested (map item_dto xs)"
proof -
  let ?k = "loc c" and ?id = "o_id (fst f)"
  from wp_run_Inr [OF controllerCreate_wp [OF assms(1) refl] assms(5)]
  obtain xs oid where s1: "Inv s1" "same_but ?k (T s) (T s1)" "body = Some xs"
    "opened (mkDecimal P) (au_id user) (map item_dto xs) (T s ?k) oid (T s1 ?k)"
    "queued orderProcessingQueue (order_msg_text oid (au_id user) tc) (Q s) (Q s1)" "orders (T s1 ?k) oid = Some (fst f)"
    by blast
  have oid: "oid = ?id" using wf [OF s1(1), of ?k] s1(6) by (auto simp: db_wf_def)
  have f: "o_userId (fst f) = au_id user" "o_status (fst f) = PENDING" "o_transactionId (fst f) = None"
    using s1(4,6) by (auto simp: opened_def)
  note s2 = wp_run_either [OF deliverOrderProcessing_wp [OF s1(1)] assms(6) [unfolded queued_last [OF s1(5)]]]
  then have "Inv s2" by blast
  from wp_run_Inr [OF prisma_store.paymentReceived_wp [OF store [of "Q s2"] _ refl] assms(7) [unfolded controllerPaymentReceived_def]] this
  have s3: "Inv s3" "same_but ?k (T s2) (T s3)" "guarded (T s2 ?k) ?id (au_id user) WAITING_FOR_PAYMENT"
    "items (T s3 ?k) = items (T s2 ?k)" "stock_taken (products (T s2 ?k)) (ordered (T s2 ?k) ?id) (products (T s3 ?k))"
    "status_set PAID (orders (T s2 ?k)) ?id (orders (T s3 ?k))" by blast+
  have "T s2 \<noteq> T s1" using s3(3) s1(6) f(2) oid by (auto simp: guarded_def)
  with s2 obtain pid where ch: "order_change (no_order_data\<lparr>od_status := Some WAITING_FOR_PAYMENT, od_paymentId := Some pid\<rparr>) ?id ?k (T s1) (T s2)"
    using assms(2-4) oid by (auto simp: tenant_client_def)
  then have k2: "same_but ?k (T s1) (T s2)" "items (T s2 ?k) = items (T s1 ?k)" "products (T s2 ?k) = products (T s1 ?k)"
    by (auto simp: order_change_def)
  have "same_but ?k (T s) (T s3)" using s1(2) k2(1) s3(2) by (simp add: same_but_def)
  moreover have "\<exists>u. orders (T s3 ?k) = (orders (T s ?k))(?id \<mapsto> (fst f)\<lparr>o_paymentId := Some pid, o_status := PAID, o_updatedAt := u\<rparr>)"
  proof -
    have "orders (T s1 ?k) = (orders (T s ?k))(?id \<mapsto> fst f)"
      using s1(4,6) oid by (auto simp: opened_def order_frame_def fun_eq_iff)
    moreover obtain u2 where "orders (T s2 ?k) = (orders (T s1 ?k))(?id \<mapsto> apply_order_data (no_order_data\<lparr>od_status := Some WAITING_FOR_PAYMENT, od_paymentId := Some pid\<rparr>) u2 (fst f))"
      using order_change_row [OF ch] s1(6) oid by auto
    ultimately show ?thesis
      using s3(6) by (auto simp: status_set_def apply_order_data_def no_order_data_def upd_opt_def intro!: exI)
  qed
  moreover have "ordered (T s1 ?k) ?id = requested (map item_dto xs)" "products (T s1 ?k) = products (T s ?k)"
    using s1(4) oid by (auto simp: opened_def order_frame_def)
  ultimately show ?thesis
    using s1(3) s3(1,4,5) k2(2,3) f ordered_cong [OF k2(2)] ordered_cong [OF s3(4)] by auto
qed

end

section \<open>Property\<close>

text \<open>
  C2: An order that is created, whose queued message is then delivered, that is paid, whose completion
  is requested and whose completion message is delivered, each by the code of its process, takes from
  the stock of every product exactly the quantity the body of the first request asks for, and no
  request or delivery changes another order or another database. The order keeps its owner and
  total, has a payment id, and is complete with the transaction id of the request, or still paid
  when the last delivery failed. The payment can only have succeeded because the first message was
  processed: no order is paid before.
\<close>

theorem order_lifecycle:
  assumes "order_services P A M gen Inv T loc Q" and "Inv s" and "tc \<noteq> []" and "tc \<noteq> defaultKey"
    and "c = UrlClient (databaseUrl (mg_config M) tc)"
    and "run (controllerCreate P A c user tc body) s = (Inr f, s1)"
    and "run (deliverOrderProcessing P A M gen tag1 (last (Q s1 orderProcessingQueue))) s1 = (r2, s2)"
    and "run (controllerPaymentReceived P c (o_id (fst f)) user tc) s2 = (Inr g, s3)"
    and "run (controllerComplete P A c (o_id (fst f)) user tc tx) s3 = (Inr b, s4)"
    and "run (deliverOrderCompleted P A M tag2 (last (Q s4 orderCompletedQueue))) s4 = (r5, s5)"
  shows "\<exists>xs r. body = Some xs \<and> same_but (loc c) (T s) (T s5) \<and>
    stock_taken (products (T s (loc c))) (requested (map item_dto xs)) (products (T s5 (loc c))) \<and>
    orders (T s5 (loc c)) = (orders (T s (loc c)))(o_id (fst f) \<mapsto> r) \<and> settled tx (fst f) r \<and> o_userId r = au_id user \<and>
    ordered (T s5 (loc c)) (o_id (fst f)) = requested (map item_dto xs)"
proof -
  let ?k = "loc c" and ?id = "o_id (fst f)"
  from order_services.created_paid [OF assms(1-8)]
  obtain xs pid u where s3: "Inv s3" "body = Some xs" "same_but ?k (T s) (T s3)"
    "stock_taken (products (T s ?k)) (requested (map item_dto xs)) (products (T s3 ?k))"
    "orders (T s3 ?k) = (orders (T s ?k))(?id \<mapsto> (fst f)\<lparr>o_paymentId := Some pid, o_status := PAID, o_updatedAt := u\<rparr>)"
    "o_userId (fst f) = au_id user" "o_transactionId (fst f) = None" "ordered (T s3 ?k) ?id = requested (map item_dto xs)" by blast
  obtain x where x: "tx = Some x" "run (enqueueOrderCompleted P A c ?id (au_id user) tc x) s3 = (Inr b, s4)"
    using assms(9) by (auto simp: controllerComplete_def throw_def split: option.splits if_splits)
  from wp_run_Inr [OF order_services.enqueueOrderCompleted_wp [OF assms(1) s3(1) refl] x(2)]
  have s4: "Inv s4" "T s4 = T s3" "queued orderCompletedQueue (completed_msg_text ?id (au_id user) tc x) (Q s3) (Q s4)" by blast+
  note s5 = wp_run_either [OF order_services.deliverOrderCompleted_wp [OF assms(1) s4(1)] assms(10) [unfolded queued_last [OF s4(3)]]]
  show ?thesis
  proof (cases "T s5 = T s4")
    case True
    then show ?thesis using s3 s4(2) by (auto simp: settled_def)
  next
    case False
    with s5 have ch: "order_change (no_order_data\<lparr>od_status := Some COMPLETE, od_transactionId := Some x\<rparr>) ?id ?k (T s3) (T s5)"
      using assms(3-5) s4(2) by (auto simp: tenant_client_def)
    then have k: "same_but ?k (T s3) (T s5)" "items (T s5 ?k) = items (T s3 ?k)" "products (T s5 ?k) = products (T s3 ?k)"
      by (auto simp: order_change_def)
    from order_change_row [OF ch] s3(5)
    obtain v where "orders (T s5 ?k) = (orders (T s3 ?k))(?id \<mapsto> apply_order_data (no_order_data\<lparr>od_status := Some COMPLETE, od_transactionId := Some x\<rparr>) v
      ((fst f)\<lparr>o_paymentId := Some pid, o_status := PAID, o_updatedAt := u\<rparr>))" by auto
    then show ?thesis
      using s3 k x(1) ordered_cong [OF k(2)] same_but_trans [OF s3(3) k(1)]
      by (auto simp: settled_def apply_order_data_def no_order_data_def upd_opt_def)
  qed
qed

text \<open>Two units of the product, from creation to completion.\<close>

definition ex_items :: "create_item list" where
  "ex_items = [\<lparr>ci_product_id = ''p1'', ci_qty = 2\<rparr>]"

definition ex_created :: "(exn + order_full) \<times> ref_state" where
  "ex_created = run (controllerCreate ref_prisma ref_amqp ex_client ex_user ''acme'' (Some ex_items)) (ex_state PENDING)"

definition ex_full :: order_full where
  "ex_full = projr (fst ex_created)"

definition ex_processed :: "(exn + unit) \<times> ref_state" where
  "ex_processed = run (deliverOrderProcessing ref_prisma ref_amqp ref_manager ref_uuid 1
     (last (rs_queues (snd ex_created) orderProcessingQueue))) (snd ex_created)"

definition ex_paid :: "(exn + order_full) \<times> ref_state" where
  "ex_paid = run (controllerPaymentReceived ref_prisma ex_client (o_id (fst ex_full)) ex_user ''acme'') (snd ex_processed)"

definition ex_requested :: "(exn + bool) \<times> ref_state" where
  "ex_requested = run (controllerComplete ref_prisma ref_amqp ex_client (o_id (fst ex_full)) ex_user ''acme'' (Some ''tx9'')) (snd ex_paid)"

definition ex_completed :: "(exn + unit) \<times> ref_state" where
  "ex_completed = run (deliverOrderCompleted ref_prisma ref_amqp ref_manager 2
     (last (rs_queues (snd ex_requested) orderCompletedQueue))) (snd ex_requested)"

lemma ex_steps: "\<not> isl (fst ex_created)" "\<not> isl (fst ex_paid)" "\<not> isl (fst ex_requested)"
  by code_simp+

lemma right_collapse: "\<not> isl (fst p) \<Longrightarrow> p = (Inr (projr (fst p)), snd p)"
  by (cases p; cases "fst p") auto

theorem order_lifecycle_witness:
  "\<exists>xs r. Some ex_items = Some xs \<and> same_but (id ex_client) (ref_tables (ex_state PENDING)) (ref_tables (snd ex_completed)) \<and>
    stock_taken (products (ref_tables (ex_state PENDING) (id ex_client))) (requested (map item_dto xs))
      (products (ref_tables (snd ex_completed) (id ex_client))) \<and>
    orders (ref_tables (snd ex_completed) (id ex_client)) =
      (orders (ref_tables (ex_state PENDING) (id ex_client)))(o_id (fst ex_full) \<mapsto> r) \<and>
    settled (Some ''tx9'') (fst ex_full) r \<and> o_userId r = au_id ex_user \<and>
    ordered (ref_tables (snd ex_completed) (id ex_client)) (o_id (fst ex_full)) = requested (map item_dto xs)"
proof (rule order_lifecycle [OF ref_services ex_inv])
  show "''acme'' \<noteq> []" "''acme'' \<noteq> defaultKey" "ex_client = UrlClient (databaseUrl (mg_config ref_manager) ''acme'')" by code_simp+
  show "run (controllerCreate ref_prisma ref_amqp ex_client ex_user ''acme'' (Some ex_items)) (ex_state PENDING) = (Inr ex_full, snd ex_created)"
    using right_collapse [OF ex_steps(1)] unfolding ex_full_def ex_created_def .
  show "run (deliverOrderProcessing ref_prisma ref_amqp ref_manager ref_uuid 1 (last (rs_queues (snd ex_created) orderProcessingQueue)))
      (snd ex_created) = (fst ex_processed, snd ex_processed)"
    by (simp add: ex_processed_def)
  show "run (controllerPaymentReceived ref_prisma ex_client (o_id (fst ex_full)) ex_user ''acme'') (snd ex_processed) =
      (Inr (projr (fst ex_paid)), snd ex_paid)"
    using right_collapse [OF ex_steps(2)] unfolding ex_paid_def .
  show "run (controllerComplete ref_prisma ref_amqp ex_client (o_id (fst ex_full)) ex_user ''acme'' (Some ''tx9'')) (snd ex_paid) =
      (Inr (projr (fst ex_requested)), snd ex_requested)"
    using right_collapse [OF ex_steps(3)] unfolding ex_requested_def .
  show "run (deliverOrderCompleted ref_prisma ref_amqp ref_manager 2 (last (rs_queues (snd ex_requested) orderCompletedQueue)))
      (snd ex_requested) = (fst ex_completed, snd ex_completed)"
    by (simp add: ex_completed_def)
qed

end
