(* ===== verification/Overselling.thy ===== *)
theory Overselling
  imports OrderTheorems
begin

text \<open>
  Several payments on one tenant: what they take from the stock together. No operation on the way
  from a new order to a paid one looks at the stock that other orders have been promised.
\<close>

text \<open>Only the stock and the time stamp of a product differ.\<close>

definition same_product :: "product_row \<Rightarrow> product_row \<Rightarrow> bool" where
  "same_product p p' \<longleftrightarrow> p_id p' = p_id p \<and> p_name p' = p_name p \<and> p_description p' = p_description p \<and> p_price p' = p_price p \<and>
     p_createdAt p' = p_createdAt p"

lemma taken_row:
  "p' = p\<lparr>p_stock := x, p_updatedAt := p_updatedAt p'\<rparr> \<longleftrightarrow> same_product p p' \<and> p_stock p' = x"
  by (cases p; cases p') (auto simp: same_product_def)

lemma stock_taken_add:
  assumes "stock_taken ps f qs" and "stock_taken qs g rs"
  shows "stock_taken ps (\<lambda>pid. f pid + g pid) rs"
  unfolding stock_taken_def taken_row
proof
  fix pid
  have "rel_option (\<lambda>p p'. same_product p p' \<and> p_stock p' = p_stock p - f pid) (ps pid) (qs pid)"
    "rel_option (\<lambda>p p'. same_product p p' \<and> p_stock p' = p_stock p - g pid) (qs pid) (rs pid)"
    using assms by (simp_all add: stock_taken_def taken_row)
  then show "rel_option (\<lambda>p p'. same_product p p' \<and> p_stock p' = p_stock p - (f pid + g pid)) (ps pid) (rs pid)"
    by (cases "ps pid"; cases "qs pid"; cases "rs pid") (auto simp: same_product_def)
qed

lemma stock_takenD:
  "stock_taken ps f ps' \<Longrightarrow> ps pid = Some p \<Longrightarrow> \<exists>p'. ps' pid = Some p' \<and> p_stock p' = p_stock p - f pid"
  unfolding stock_taken_def taken_row by (drule spec [of _ pid]) (auto simp: option_rel_Some1)

definition promised :: "db \<Rightarrow> (string \<times> string) list \<Rightarrow> string \<Rightarrow> int" where
  "promised d xs pid = sum_list (map (\<lambda>x. ordered d (fst x) pid) xs)"

lemma promised_simps [simp]:
  "promised d [] = (\<lambda>_. 0)" "promised d (xs @ [x]) = (\<lambda>pid. promised d xs pid + ordered d (fst x) pid)"
  by (auto simp: promised_def fun_eq_iff)

text \<open>The payments of a list of orders by their callers, one after the other.\<close>

definition payAll :: "'s prisma_api \<Rightarrow> prisma_client \<Rightarrow> string \<Rightarrow> (string \<times> string) list \<Rightarrow> ('s, unit) handler" where
  "payAll P c tc xs = forEach xs (\<lambda>x. bindE (paymentReceived P c (fst x) (snd x) tc) (\<lambda>_. ret ()))"

text \<open>After the payments of \<open>ys\<close>: their orders are paid, all others as before, and the sum has been taken.\<close>

definition paid_up :: "db \<Rightarrow> (string \<times> string) list \<Rightarrow> db \<Rightarrow> bool" where
  "paid_up d ys d' \<longleftrightarrow> items d' = items d \<and> stock_taken (products d) (promised d ys) (products d') \<and>
     distinct (map fst ys) \<and> (\<forall>y\<in>set ys. \<exists>r. orders d' (fst y) = Some r \<and> o_status r = PAID) \<and>
     (\<forall>i. i \<notin> fst ` set ys \<longrightarrow> orders d' i = orders d i)"

lemma paid_up_step:
  assumes "paid_up d ys d1" and "guarded d1 (fst x) uid WAITING_FOR_PAYMENT" and "items d2 = items d1"
    and "stock_taken (products d1) (ordered d1 (fst x)) (products d2)" and "status_set PAID (orders d1) (fst x) (orders d2)"
  shows "paid_up d (ys @ [x]) d2"
proof -
  have "fst x \<notin> fst ` set ys" using assms(1,2) by (fastforce simp: paid_up_def guarded_def)
  moreover have "ordered d1 (fst x) = ordered d (fst x)" using assms(1) by (simp add: paid_up_def ordered_def order_items_def fun_eq_iff)
  moreover obtain r t where "orders d2 = (orders d1)(fst x \<mapsto> r\<lparr>o_status := PAID, o_updatedAt := t\<rparr>)"
    using assms(5) by (auto simp: status_set_def)
  ultimately show ?thesis
    using assms(1,3,4) stock_taken_add [of "products d" "promised d ys" "products d1" "ordered d (fst x)" "products d2"]
    by (auto simp: paid_up_def)
qed

context prisma_store
begin

lemma payAll_wp:
  assumes "Inv s"
  shows "wp (payAll P c tc xs)
    (\<lambda>_ s'. Inv s' \<and> same_but (loc c) (T s) (T s') \<and> paid_up (T s (loc c)) xs (T s' (loc c))) (\<lambda>_ _. True) s"
  unfolding payAll_def
proof (rule wp_forEach [where J = "\<lambda>ys s'. Inv s' \<and> same_but (loc c) (T s) (T s') \<and> paid_up (T s (loc c)) ys (T s' (loc c))"])
  fix ys x zs s1
  assume J: "Inv s1 \<and> same_but (loc c) (T s) (T s1) \<and> paid_up (T s (loc c)) ys (T s1 (loc c))"
  show "wp (bindE (paymentReceived P c (fst x) (snd x) tc) (\<lambda>_. ret ()))
     (\<lambda>_ s'. Inv s' \<and> same_but (loc c) (T s) (T s') \<and> paid_up (T s (loc c)) (ys @ [x]) (T s' (loc c))) (\<lambda>_ _. True) s1"
    unfolding wp_bindE wp_ret
  proof (rule wp_conseq [OF paymentReceived_wp [OF _ refl]])
    show "Inv s1" using J by blast
    fix f s2 assume "Inv s2 \<and> same_but (loc c) (T s1) (T s2) \<and> guarded (T s1 (loc c)) (fst x) (snd x) WAITING_FOR_PAYMENT \<and>
      items (T s2 (loc c)) = items (T s1 (loc c)) \<and>
      stock_taken (products (T s1 (loc c))) (ordered (T s1 (loc c)) (fst x)) (products (T s2 (loc c))) \<and>
      status_set PAID (orders (T s1 (loc c))) (fst x) (orders (T s2 (loc c))) \<and>
      orders (T s2 (loc c)) (fst x) = Some (fst f) \<and> full_of (T s2 (loc c)) (fst f) f"
    then show "Inv s2 \<and> same_but (loc c) (T s) (T s2) \<and> paid_up (T s (loc c)) (ys @ [x]) (T s2 (loc c))"
      using J paid_up_step [of "T s (loc c)" ys "T s1 (loc c)" x "snd x"] same_but_trans [of "loc c" "T s" "T s1" "T s2"] by simp
  qed simp
qed (use assms in \<open>auto simp: paid_up_def\<close>)

end

section \<open>Property\<close>

text \<open>
  C20: When the payments of several orders succeed one after the other, no order was paid twice and
  the stock of every product fell by exactly the sum of what these orders hold of it. Nothing bounds
  this sum: as soon as it exceeds the stock, the stock is negative afterwards, although every single
  order was accepted.
\<close>

theorem payments_add_up:
  assumes "prisma_store P Inv T loc" and "Inv s" and "run (payAll P c tc xs) s = (Inr u, s')"
  shows "distinct (map fst xs) \<and> same_but (loc c) (T s) (T s') \<and>
    stock_taken (products (T s (loc c))) (promised (T s (loc c)) xs) (products (T s' (loc c))) \<and>
    (\<forall>pid p. products (T s (loc c)) pid = Some p \<longrightarrow>
      (\<exists>p'. products (T s' (loc c)) pid = Some p' \<and> (p_stock p' < 0 \<longleftrightarrow> p_stock p < promised (T s (loc c)) xs pid)))"
proof -
  from wp_run_Inr [OF prisma_store.payAll_wp [OF assms(1,2)] assms(3)]
  have "same_but (loc c) (T s) (T s')" "paid_up (T s (loc c)) xs (T s' (loc c))" by blast+
  then show ?thesis using stock_takenD [of "products (T s (loc c))" "promised (T s (loc c)) xs"] by (fastforce simp: paid_up_def)
qed

text \<open>Two orders of three units each while five are in stock.\<close>

definition sold_db :: mem_db where
  "sold_db = \<lparr>mp = [ex_product], mo = [ex_order WAITING_FOR_PAYMENT, (ex_order WAITING_FOR_PAYMENT)\<lparr>o_id := ''o2''\<rparr>],
     mi = [ex_item\<lparr>i_quantity := 3\<rparr>, ex_item\<lparr>i_id := ''i2'', i_orderId := ''o2'', i_quantity := 3\<rparr>], mclock = 3\<rparr>"

definition sold_state :: ref_state where
  "sold_state = (ex_state PAID)\<lparr>rs_dbs := (\<lambda>_. None)(ex_client := Some sold_db)\<rparr>"

lemma sold_inv: "ref_inv sold_state \<and> rs_queues sold_state = (\<lambda>_. [])"
  by (simp add: ref_inv_def sold_state_def ex_state_def sold_db_def minv_def ex_item_def ex_order_def ex_product_def conns_ok_empty)

lemma sold_twice: "\<not> isl (fst (run (payAll ref_prisma ex_client ''acme'' [(''o1'', ''alice''), (''o2'', ''alice'')]) sold_state))"
  by code_simp

theorem payments_add_up_witness:
  "\<exists>u s'. run (payAll ref_prisma ex_client ''acme'' [(''o1'', ''alice''), (''o2'', ''alice'')]) sold_state = (Inr u, s') \<and>
    distinct (map fst [(''o1'', ''alice''), (''o2'', ''alice'')]) \<and> same_but (id ex_client) (ref_tables sold_state) (ref_tables s') \<and>
    stock_taken (products (ref_tables sold_state (id ex_client)))
      (promised (ref_tables sold_state (id ex_client)) [(''o1'', ''alice''), (''o2'', ''alice'')]) (products (ref_tables s' (id ex_client))) \<and>
    (\<forall>pid p. products (ref_tables sold_state (id ex_client)) pid = Some p \<longrightarrow>
      (\<exists>p'. products (ref_tables s' (id ex_client)) pid = Some p' \<and>
         (p_stock p' < 0 \<longleftrightarrow> p_stock p < promised (ref_tables sold_state (id ex_client)) [(''o1'', ''alice''), (''o2'', ''alice'')] pid)))"
  by (rule run_returns [OF sold_twice], rule payments_add_up [OF ref_prisma_store sold_inv])

lemma oversold: "map_option p_stock (tbl p_id (mp (case rs_dbs (snd (run (payAll ref_prisma ex_client ''acme'' [(''o1'', ''alice''), (''o2'', ''alice'')]) sold_state)) ex_client of Some m \<Rightarrow> m | None \<Rightarrow> sold_db)) ''p1'') = Some (- 1)"
  by code_simp

end
