(* ===== verification/Validation.thy ===== *)
theory Validation
  imports OrderTheorems Auth
begin

text \<open>
  The bodies of requests: the decorated DTO classes and the global \<open>ValidationPipe\<close> of
  \<open>src/main.ts\<close> with \<open>whitelist\<close>, \<open>forbidNonWhitelisted\<close> and \<open>transform\<close>. What a decorator of
  class-validator checks is the argument \<open>v\<close>, with its documentation as the contract
  \<open>class_validator\<close>; the text of the errors is the argument \<open>errors\<close>. A body is an object or
  missing; an array as the whole body is not modelled.
\<close>

section \<open>Bodies and decorators\<close>

text \<open>A parsed body; the keys of an object are distinct.\<close>

datatype body =
    BNull
  | BBool bool
  | BNum rat
  | BStr string
  | BArr "body list"
  | BObj "(string \<times> body) list"

datatype check =
    IsString
  | IsNotEmpty
  | IsEmail
  | IsNumber
  | IsInt
  | IsPositive
  | AtLeast int
  | MinLength nat
  | IsEnum "string list"
  | IsArray
  | ArrayMinSize nat
  | ValidateNested

text \<open>
  A property of a class: its name, \<open>@IsOptional\<close>, the condition of \<open>@ValidateIf\<close>, the other
  decorators, and the class of the elements for \<open>@ValidateNested({each: true})\<close>. What the last
  does with a value that is no object is not documented, so \<open>v ValidateNested\<close> decides it and the
  contract is silent about it.
\<close>

datatype dto_prop = Prop (pp_name: string) (pp_optional: bool) (pp_when: "(string \<times> body) list \<Rightarrow> bool")
  (pp_checks: "check list") (pp_nested: "dto_prop list")

definition whitelisted :: "dto_prop list \<Rightarrow> (string \<times> body) list \<Rightarrow> bool" where
  "whitelisted ps kvs = list_all (\<lambda>kv. fst kv \<in> set (map pp_name ps)) kvs"

fun validProp :: "(check \<Rightarrow> body option \<Rightarrow> bool) \<Rightarrow> (string \<times> body) list \<Rightarrow> dto_prop \<Rightarrow> bool" where
  "validProp v kvs (Prop n opt cond cs nested) =
    (\<not> cond kvs \<or> opt \<and> map_of kvs n \<in> {None, Some BNull} \<or>
     list_all (\<lambda>c. v c (map_of kvs n)) cs \<and>
     (nested = [] \<or> (case map_of kvs n of
        Some (BArr bs) \<Rightarrow> list_all (\<lambda>b. case b of
            BObj ob \<Rightarrow> whitelisted nested ob \<and> list_all (validProp v ob) nested
          | _ \<Rightarrow> v ValidateNested (Some b)) bs
      | Some (BObj ob) \<Rightarrow> whitelisted nested ob \<and> list_all (validProp v ob) nested
      | x \<Rightarrow> v ValidateNested x)))"

definition valid :: "(check \<Rightarrow> body option \<Rightarrow> bool) \<Rightarrow> dto_prop list \<Rightarrow> (string \<times> body) list \<Rightarrow> bool" where
  "valid v ps kvs = (whitelisted ps kvs \<and> list_all (validProp v kvs) ps)"

text \<open>The pipe: a missing body counts as an empty object.\<close>

definition validationPipe ::
  "(check \<Rightarrow> body option \<Rightarrow> bool) \<Rightarrow> ((string \<times> body) list \<Rightarrow> string) \<Rightarrow> dto_prop list \<Rightarrow>
   ((string \<times> body) list \<Rightarrow> 'a) \<Rightarrow> (string \<times> body) list option \<Rightarrow> exn + 'a" where
  "validationPipe v errors ps decode b =
    (let kvs = (case b of None \<Rightarrow> [] | Some kvs \<Rightarrow> kvs)
     in if valid v ps kvs then Inr (decode kvs) else Inl (BadRequestException (errors kvs)))"

section \<open>The classes\<close>

definition required_prop :: "string \<Rightarrow> check list \<Rightarrow> dto_prop" where
  "required_prop n cs = Prop n False (\<lambda>_. True) cs []"

definition optional_prop :: "string \<Rightarrow> check list \<Rightarrow> dto_prop" where
  "optional_prop n cs = Prop n True (\<lambda>_. True) cs []"

definition roleNames :: "string list" where
  "roleNames = [''ADMIN'', ''CUSTOMER'']"

definition CreateOrderItemDto :: "dto_prop list" where
  "CreateOrderItemDto = [required_prop ''product_id'' [IsString], required_prop ''qty'' [IsInt, AtLeast 1]]"

definition CreateOrderDto :: "dto_prop list" where
  "CreateOrderDto = [Prop ''items'' False (\<lambda>_. True) [IsArray, ArrayMinSize 1] CreateOrderItemDto]"

definition CreateProductDto :: "dto_prop list" where
  "CreateProductDto = [required_prop ''name'' [IsString, IsNotEmpty], optional_prop ''description'' [IsString],
     required_prop ''price'' [IsNumber, IsPositive], optional_prop ''stock'' [IsNumber, AtLeast 0]]"

definition UpdateProductDto :: "dto_prop list" where
  "UpdateProductDto = [optional_prop ''name'' [IsString], optional_prop ''description'' [IsString],
     optional_prop ''price'' [IsNumber, IsPositive], optional_prop ''stock'' [IsNumber, AtLeast 0]]"

definition CreateUserDto :: "dto_prop list" where
  "CreateUserDto = [required_prop ''email'' [IsEmail, IsNotEmpty], required_prop ''username'' [IsString, IsNotEmpty, MinLength 3],
     required_prop ''password'' [IsString, IsNotEmpty, MinLength 6], optional_prop ''role'' [IsEnum roleNames],
     Prop ''tenantCode'' False (\<lambda>kvs. map_of kvs ''role'' = Some (BStr ''ADMIN'')) [IsString, IsNotEmpty] []]"

definition UpdateUserDto :: "dto_prop list" where
  "UpdateUserDto = [optional_prop ''email'' [IsEmail], optional_prop ''username'' [IsString, MinLength 3],
     optional_prop ''password'' [IsString, MinLength 6], optional_prop ''role'' [IsEnum roleNames]]"

definition LoginDto :: "dto_prop list" where
  "LoginDto = [required_prop ''email'' [IsEmail, IsNotEmpty], required_prop ''password'' [IsString, IsNotEmpty]]"

definition RegisterDto :: "dto_prop list" where
  "RegisterDto = [required_prop ''email'' [IsEmail, IsNotEmpty], required_prop ''username'' [IsString, IsNotEmpty, MinLength 3],
     required_prop ''password'' [IsString, IsNotEmpty, MinLength 6]]"

text \<open>The instances, where every validated value fits the columns it is meant for.\<close>

definition strOf :: "(string \<times> body) list \<Rightarrow> string \<Rightarrow> string" where
  "strOf kvs k = (case map_of kvs k of Some (BStr s) \<Rightarrow> s | _ \<Rightarrow> [])"

definition createOrderItem :: "body \<Rightarrow> create_item" where
  "createOrderItem b = (case b of
      BObj kvs \<Rightarrow> \<lparr>ci_product_id = strOf kvs ''product_id'', ci_qty = (case map_of kvs ''qty'' of Some (BNum r) \<Rightarrow> \<lfloor>r\<rfloor> | _ \<Rightarrow> 0)\<rparr>
    | _ \<Rightarrow> \<lparr>ci_product_id = [], ci_qty = 0\<rparr>)"

definition createOrderDto :: "(string \<times> body) list \<Rightarrow> create_item list option" where
  "createOrderDto kvs = (case map_of kvs ''items'' of Some (BArr bs) \<Rightarrow> Some (map createOrderItem bs) | _ \<Rightarrow> None)"

definition registerDto :: "(string \<times> body) list \<Rightarrow> register_dto" where
  "registerDto kvs = \<lparr>rg_email = strOf kvs ''email'', rg_username = strOf kvs ''username'', rg_password = strOf kvs ''password''\<rparr>"

definition loginDto :: "(string \<times> body) list \<Rightarrow> login_dto" where
  "loginDto kvs = \<lparr>lg_email = strOf kvs ''email'', lg_password = strOf kvs ''password''\<rparr>"

text \<open>The elements of the list of items are objects, as the classes declare them.\<close>

definition objectItems :: "(string \<times> body) list option \<Rightarrow> bool" where
  "objectItems b = (case b of
      Some kvs \<Rightarrow> (case map_of kvs ''items'' of
          Some (BArr bs) \<Rightarrow> list_all (\<lambda>x. case x of BObj _ \<Rightarrow> True | _ \<Rightarrow> False) bs
        | _ \<Rightarrow> True)
    | None \<Rightarrow> True)"

section \<open>The documented checks\<close>

locale class_validator =
  fixes v :: "check \<Rightarrow> body option \<Rightarrow> bool"
  assumes isString: "v IsString x \<longleftrightarrow> (\<exists>s. x = Some (BStr s))"
    and isNotEmpty: "v IsNotEmpty x \<longleftrightarrow> x \<notin> {None, Some BNull, Some (BStr [])}"
    and isEmail: "v IsEmail x \<Longrightarrow> \<exists>s. x = Some (BStr s) \<and> CHR ''@'' \<in> set s"
    and isNumber: "v IsNumber x \<longleftrightarrow> (\<exists>r. x = Some (BNum r))"
    and isInt: "v IsInt x \<longleftrightarrow> (\<exists>i. x = Some (BNum (of_int i)))"
    and isPositive: "v IsPositive x \<longleftrightarrow> (\<exists>r. x = Some (BNum r) \<and> 0 < r)"
    and minimum: "v (AtLeast i) x \<longleftrightarrow> (\<exists>r. x = Some (BNum r) \<and> of_int i \<le> r)"
    and minLength: "v (MinLength n) x \<longleftrightarrow> (\<exists>s. x = Some (BStr s) \<and> n \<le> length s)"
    and isEnum: "v (IsEnum ls) x \<longleftrightarrow> (\<exists>s\<in>set ls. x = Some (BStr s))"
    and isArray: "v IsArray x \<longleftrightarrow> (\<exists>bs. x = Some (BArr bs))"
    and arrayMinSize: "v (ArrayMinSize n) x \<longleftrightarrow> (\<exists>bs. x = Some (BArr bs) \<and> n \<le> length bs)"
begin

lemma pipe_valid:
  assumes "validationPipe v errors ps decode b = Inr x"
  shows "\<exists>kvs. kvs = (case b of None \<Rightarrow> [] | Some kvs \<Rightarrow> kvs) \<and> valid v ps kvs \<and> x = decode kvs"
  using assms by (auto simp: validationPipe_def Let_def split: if_splits)

text \<open>A validated item has an integral quantity of at least one.\<close>

lemma item_valid:
  assumes "valid v CreateOrderItemDto ob"
  shows "1 \<le> ci_qty (createOrderItem (BObj ob)) \<and> map_of ob ''product_id'' = Some (BStr (ci_product_id (createOrderItem (BObj ob)))) \<and>
    map_of ob ''qty'' = Some (BNum (of_int (ci_qty (createOrderItem (BObj ob)))))"
  using assms
  by (auto simp: valid_def CreateOrderItemDto_def required_prop_def createOrderItem_def strOf_def isString isInt minimum)

lemma order_valid:
  assumes "validationPipe v errors CreateOrderDto createOrderDto b = Inr body" and "objectItems b"
  shows "\<exists>xs. body = Some xs \<and> xs \<noteq> [] \<and> (\<forall>x\<in>set xs. 1 \<le> ci_qty x)"
proof -
  obtain kvs where kvs: "valid v CreateOrderDto kvs" "body = createOrderDto kvs" "objectItems (Some kvs)"
    using pipe_valid [OF assms(1)] assms(2) by (cases b) (auto simp: objectItems_def)
  have "CreateOrderItemDto \<noteq> []" by (simp add: CreateOrderItemDto_def)
  with kvs(1) obtain bs where bs: "map_of kvs ''items'' = Some (BArr bs)" "1 \<le> length bs"
    "\<forall>b\<in>set bs. case b of BObj ob \<Rightarrow> whitelisted CreateOrderItemDto ob \<and> list_all (validProp v ob) CreateOrderItemDto | _ \<Rightarrow> v ValidateNested (Some b)"
    unfolding valid_def [of v CreateOrderDto] by (auto simp: CreateOrderDto_def isArray arrayMinSize list_all_iff [of _ bs for bs :: "body list"])
  have "\<exists>ob. b = BObj ob \<and> valid v CreateOrderItemDto ob" if "b \<in> set bs" for b
    using bs(1,3) kvs(3) that by (cases b) (auto simp: objectItems_def valid_def list_all_iff [of _ bs])
  then have "\<forall>x\<in>set (map createOrderItem bs). 1 \<le> ci_qty x" using item_valid by fastforce
  then show ?thesis using bs(1,2) kvs(2) by (auto simp: createOrderDto_def)
qed

text \<open>A fraction as stock, for an integer column, and \<open>null\<close> as name, for a required one, are valid.\<close>

lemma odd_products_valid:
  "0 \<le> r \<Longrightarrow> valid v UpdateProductDto [(''stock'', BNum r)]" "valid v UpdateProductDto [(''name'', BNull)]"
  by (simp_all add: valid_def whitelisted_def UpdateProductDto_def optional_prop_def isNumber minimum)

end

text \<open>A property the class does not declare is refused, such as a role given at registration.\<close>

lemma pipe_refuses_unknown:
  "k \<in> set (map fst kvs) \<Longrightarrow> k \<notin> set (map pp_name ps) \<Longrightarrow>
   validationPipe v errors ps decode (Some kvs) = Inl (BadRequestException (errors kvs))"
  by (auto simp: validationPipe_def valid_def whitelisted_def list_all_iff)

lemma requested_positive:
  "\<forall>y\<in>set ys. 1 \<le> ai_quantity y \<Longrightarrow> int (length (filter (\<lambda>y. ai_productId y = pid) ys)) \<le> requested ys pid"
  by (induction ys) (auto simp: requested_def)

section \<open>Property\<close>

text \<open>The checks as documented, with a simple form of e-mail addresses.\<close>

definition ref_validate :: "check \<Rightarrow> body option \<Rightarrow> bool" where
  "ref_validate c x = (case c of
      IsString \<Rightarrow> (case x of Some (BStr _) \<Rightarrow> True | _ \<Rightarrow> False)
    | IsNotEmpty \<Rightarrow> (case x of None \<Rightarrow> False | Some BNull \<Rightarrow> False | Some (BStr s) \<Rightarrow> s \<noteq> [] | _ \<Rightarrow> True)
    | IsEmail \<Rightarrow> (case x of Some (BStr s) \<Rightarrow> CHR ''@'' \<in> set s | _ \<Rightarrow> False)
    | IsNumber \<Rightarrow> (case x of Some (BNum _) \<Rightarrow> True | _ \<Rightarrow> False)
    | IsInt \<Rightarrow> (case x of Some (BNum r) \<Rightarrow> r = of_int \<lfloor>r\<rfloor> | _ \<Rightarrow> False)
    | IsPositive \<Rightarrow> (case x of Some (BNum r) \<Rightarrow> 0 < r | _ \<Rightarrow> False)
    | AtLeast i \<Rightarrow> (case x of Some (BNum r) \<Rightarrow> of_int i \<le> r | _ \<Rightarrow> False)
    | MinLength n \<Rightarrow> (case x of Some (BStr s) \<Rightarrow> n \<le> length s | _ \<Rightarrow> False)
    | IsEnum ls \<Rightarrow> (case x of Some (BStr s) \<Rightarrow> s \<in> set ls | _ \<Rightarrow> False)
    | IsArray \<Rightarrow> (case x of Some (BArr _) \<Rightarrow> True | _ \<Rightarrow> False)
    | ArrayMinSize n \<Rightarrow> (case x of Some (BArr bs) \<Rightarrow> n \<le> length bs | _ \<Rightarrow> False)
    | ValidateNested \<Rightarrow> False)"

interpretation ref_validator: class_validator ref_validate
  by unfold_locales (auto simp: ref_validate_def split: option.splits body.splits intro: exI [of _ "\<lfloor>r\<rfloor>" for r])

text \<open>
  C28: A create request whose items are objects, whose body passed the validation pipe and that succeeds has made a new order
  that holds of every product at least as many units as there are items asking for it: validated
  quantities are positive integers, so no line can be empty or negative and nothing is credited.
\<close>

theorem validated_order_positive:
  assumes "class_validator v" and "order_services P A M gen Inv T loc Q" and "Inv s"
    and "validationPipe v errors CreateOrderDto createOrderDto b = Inr dto" and "objectItems b"
    and "run (controllerCreate P A c user tc dto) s = (Inr f, s')"
  shows "\<exists>xs oid. dto = Some xs \<and> xs \<noteq> [] \<and> orders (T s (loc c)) oid = None \<and> orders (T s' (loc c)) oid = Some (fst f) \<and>
    (\<forall>pid. int (length (filter (\<lambda>x. ci_product_id x = pid) xs)) \<le> ordered (T s' (loc c)) oid pid)"
proof -
  obtain xs where xs: "dto = Some xs" "xs \<noteq> []" "\<forall>x\<in>set xs. 1 \<le> ci_qty x"
    using class_validator.order_valid [OF assms(1,4,5)] by blast
  from wp_run_Inr [OF order_services.controllerCreate_wp [OF assms(2,3) refl] assms(6)] xs(1)
  obtain oid where oid: "opened (mkDecimal P) (au_id user) (map item_dto xs) (T s (loc c)) oid (T s' (loc c))"
    "orders (T s' (loc c)) oid = Some (fst f)" by auto
  have "int (length (filter (\<lambda>x. ci_product_id x = pid) xs)) \<le> ordered (T s' (loc c)) oid pid" for pid
    using requested_positive [of "map item_dto xs" pid] xs(3) oid(1)
    by (simp add: opened_def item_dto_def filter_map comp_def)
  then show ?thesis using xs oid(2) opened_fresh [OF oid(1)] by blast
qed

definition ex_body :: "(string \<times> body) list" where
  "ex_body = [(''items'', BArr [BObj [(''product_id'', BStr ''p1''), (''qty'', BNum 2)]])]"

theorem validated_order_positive_witness:
  "\<exists>dto. validationPipe ref_validate (\<lambda>_. ''invalid'') CreateOrderDto createOrderDto (Some ex_body) = Inr dto \<and>
    (\<exists>f s'. run (controllerCreate ref_prisma ref_amqp ex_client ex_user ''acme'' dto) (ex_state PENDING) = (Inr f, s') \<and>
      (\<exists>xs oid. dto = Some xs \<and> xs \<noteq> [] \<and> orders (ref_tables (ex_state PENDING) (id ex_client)) oid = None \<and>
         orders (ref_tables s' (id ex_client)) oid = Some (fst f) \<and>
         (\<forall>pid. int (length (filter (\<lambda>x. ci_product_id x = pid) xs)) \<le> ordered (ref_tables s' (id ex_client)) oid pid)))"
proof (intro exI [of _ "Some [\<lparr>ci_product_id = ''p1'', ci_qty = 2\<rparr>]"] conjI)
  show pipe: "validationPipe ref_validate (\<lambda>_. ''invalid'') CreateOrderDto createOrderDto (Some ex_body) = Inr (Some [\<lparr>ci_product_id = ''p1'', ci_qty = 2\<rparr>])"
    by code_simp
  have items: "objectItems (Some ex_body)" by (simp add: objectItems_def ex_body_def)
  show "\<exists>f s'. run (controllerCreate ref_prisma ref_amqp ex_client ex_user ''acme'' (Some [\<lparr>ci_product_id = ''p1'', ci_qty = 2\<rparr>])) (ex_state PENDING) = (Inr f, s') \<and>
      (\<exists>xs oid. Some [\<lparr>ci_product_id = ''p1'', ci_qty = 2\<rparr>] = Some xs \<and> xs \<noteq> [] \<and> orders (ref_tables (ex_state PENDING) (id ex_client)) oid = None \<and>
         orders (ref_tables s' (id ex_client)) oid = Some (fst f) \<and>
         (\<forall>pid. int (length (filter (\<lambda>x. ci_product_id x = pid) xs)) \<le> ordered (ref_tables s' (id ex_client)) oid pid))"
    by (rule run_returns, code_simp, rule validated_order_positive [OF ref_validator.class_validator_axioms ref_services ex_inv pipe items])
qed

end
