(* ===== verification/ValidatedAccounts.thy ===== *)
theory ValidatedAccounts
  imports Validation AuthTheorems
begin

text \<open>
  The account endpoints from the raw body on: guards, then the validation pipe, then the service
  (\<open>src/user/user.controller.ts\<close>, \<open>src/auth/auth.controller.ts\<close>), and what validation makes sure of for
  every stored account.
\<close>

section \<open>Bodies of account requests\<close>

definition strOpt :: "(string \<times> body) list \<Rightarrow> string \<Rightarrow> string option" where
  "strOpt kvs k = (case map_of kvs k of Some (BStr s) \<Rightarrow> Some s | _ \<Rightarrow> None)"

definition roleOf :: "(string \<times> body) list \<Rightarrow> Role option" where
  "roleOf kvs = (case map_of kvs ''role'' of
      Some (BStr s) \<Rightarrow> if s = ''ADMIN'' then Some ADMIN else if s = ''CUSTOMER'' then Some CUSTOMER else None
    | _ \<Rightarrow> None)"

text \<open>
  For customers \<open>tenantCode\<close> is not validated; of a value that is no string only the truth is read,
  and a true one is represented by the text \<open>true\<close>.
\<close>

fun body_truthy :: "body \<Rightarrow> bool" where
  "body_truthy BNull = False"
| "body_truthy (BBool b) = b"
| "body_truthy (BNum r) = (r \<noteq> 0)"
| "body_truthy (BStr s) = (s \<noteq> [])"
| "body_truthy (BArr bs) = True"
| "body_truthy (BObj kvs) = True"

definition tenantCodeOf :: "(string \<times> body) list \<Rightarrow> string option" where
  "tenantCodeOf kvs = (case map_of kvs ''tenantCode'' of
      None \<Rightarrow> None
    | Some (BStr s) \<Rightarrow> Some s
    | Some b \<Rightarrow> if body_truthy b then Some ''true'' else None)"

definition createUserDto :: "(string \<times> body) list \<Rightarrow> create_user" where
  "createUserDto kvs = \<lparr>cu_email = strOf kvs ''email'', cu_username = strOf kvs ''username'', cu_password = strOf kvs ''password'',
     cu_role = roleOf kvs, cu_tenantCode = tenantCodeOf kvs\<rparr>"

text \<open>The columns to write; \<open>null\<close> values, which the database client rejects, are excluded below.\<close>

definition updateUserDto :: "(string \<times> body) list \<Rightarrow> update_user" where
  "updateUserDto kvs = \<lparr>uu_email = strOpt kvs ''email'', uu_username = strOpt kvs ''username'', uu_password = strOpt kvs ''password'',
     uu_role = roleOf kvs\<rparr>"

definition noNulls :: "(string \<times> body) list option \<Rightarrow> bool" where
  "noNulls b = (case b of None \<Rightarrow> True | Some kvs \<Rightarrow> list_all (\<lambda>kv. snd kv \<noteq> BNull) kvs)"

section \<open>The endpoints\<close>

text \<open>Pipes run after the guards.\<close>

definition withBody :: "(exn + 'd) \<Rightarrow> ('d \<Rightarrow> ('s, 'a) handler) \<Rightarrow> ('s, 'a) handler" where
  "withBody piped handle = (case piped of Inl e \<Rightarrow> throw e | Inr dto \<Rightarrow> handle dto)"

definition registerRequest where
  "registerRequest v errors U B A J b = withBody (validationPipe v errors RegisterDto registerDto b) (register U B A J)"

definition loginRequest where
  "loginRequest v errors U B J b = withBody (validationPipe v errors LoginDto loginDto b) (login U B J)"

definition userCreateRequest where
  "userCreateRequest v errors U B A J hdr b = withGuards U J (Some [ADMIN]) hdr (\<lambda>_.
     withBody (validationPipe v errors CreateUserDto createUserDto b) (userCreate U B A))"

definition userUpdateRequest where
  "userUpdateRequest v errors U B J hdr uid b = withGuards U J (Some [ADMIN]) hdr (\<lambda>_.
     withBody (validationPipe v errors UpdateUserDto updateUserDto b) (userUpdate U B uid))"

inductive validated_step ::
  "(check \<Rightarrow> body option \<Rightarrow> bool) \<Rightarrow> ((string \<times> body) list \<Rightarrow> string) \<Rightarrow> 's user_api \<Rightarrow> 's bcrypt_api \<Rightarrow> 's amqp_api \<Rightarrow> 's jwt_api \<Rightarrow>
   's \<Rightarrow> 's \<Rightarrow> bool" for v errors U B A J where
  register: "validated_step v errors U B A J s (snd (run (registerRequest v errors U B A J b) s))"
| login: "validated_step v errors U B A J s (snd (run (loginRequest v errors U B J b) s))"
| create: "validated_step v errors U B A J s (snd (run (userCreateRequest v errors U B A J hdr b) s))"
| update: "noNulls b \<Longrightarrow> validated_step v errors U B A J s (snd (run (userUpdateRequest v errors U B J hdr uid b) s))"
| remove: "validated_step v errors U B A J s (snd (run (userControllerRemove U J hdr uid) s))"

section \<open>What validation makes sure of\<close>

definition good_login :: "string \<Rightarrow> string \<Rightarrow> string \<Rightarrow> bool" where
  "good_login email username password \<longleftrightarrow> CHR ''@'' \<in> set email \<and> 3 \<le> length username \<and> 6 \<le> length password"

definition good_update :: "update_user \<Rightarrow> bool" where
  "good_update dto \<longleftrightarrow> (\<forall>e. uu_email dto = Some e \<longrightarrow> CHR ''@'' \<in> set e) \<and> (\<forall>n. uu_username dto = Some n \<longrightarrow> 3 \<le> length n) \<and>
     (\<forall>p. uu_password dto = Some p \<longrightarrow> 6 \<le> length p)"

context class_validator
begin

lemma login_props:
  assumes "v IsEmail (map_of kvs ''email'')" and "v (MinLength 3) (map_of kvs ''username'')" and "v (MinLength 6) (map_of kvs ''password'')"
  shows "good_login (strOf kvs ''email'') (strOf kvs ''username'') (strOf kvs ''password'')"
proof -
  obtain e n p where "map_of kvs ''email'' = Some (BStr e)" "CHR ''@'' \<in> set e" "map_of kvs ''username'' = Some (BStr n)" "3 \<le> length n"
    "map_of kvs ''password'' = Some (BStr p)" "6 \<le> length p"
    using isEmail [OF assms(1)] assms(2,3) unfolding minLength by blast
  then show ?thesis by (simp add: good_login_def strOf_def)
qed

lemma required_checks: "validProp v kvs (required_prop n cs) \<Longrightarrow> c \<in> set cs \<Longrightarrow> v c (map_of kvs n)"
  by (simp add: required_prop_def list_all_iff)

lemma optional_checks:
  "validProp v kvs (optional_prop n cs) \<Longrightarrow> map_of kvs n = Some (BStr s) \<Longrightarrow> c \<in> set cs \<Longrightarrow> v c (Some (BStr s))"
  by (simp add: optional_prop_def list_all_iff)

lemma register_good:
  assumes "validationPipe v errors RegisterDto registerDto b = Inr dto"
  shows "good_login (rg_email dto) (rg_username dto) (rg_password dto)"
proof -
  obtain kvs where "list_all (validProp v kvs) RegisterDto" "dto = registerDto kvs"
    using pipe_valid [OF assms] by (auto simp: valid_def)
  then show ?thesis unfolding RegisterDto_def list.pred_inject
    by (simp add: registerDto_def del: validProp.simps) (intro login_props; elim conjE, erule required_checks, simp)
qed

lemma create_good:
  assumes "validationPipe v errors CreateUserDto createUserDto b = Inr dto"
  shows "good_login (cu_email dto) (cu_username dto) (cu_password dto)"
proof -
  obtain kvs where "list_all (validProp v kvs) CreateUserDto" "dto = createUserDto kvs"
    using pipe_valid [OF assms] by (auto simp: valid_def)
  then show ?thesis unfolding CreateUserDto_def list.pred_inject
    by (simp add: createUserDto_def del: validProp.simps) (intro login_props; elim conjE, erule required_checks, simp)
qed

lemma strOpt_Some: "strOpt kvs k = Some s \<longleftrightarrow> map_of kvs k = Some (BStr s)"
  by (simp add: strOpt_def split: option.split body.split)

lemma update_good:
  assumes "validationPipe v errors UpdateUserDto updateUserDto b = Inr dto"
  shows "good_update dto"
proof -
  obtain kvs where kvs: "list_all (validProp v kvs) UpdateUserDto" "dto = updateUserDto kvs"
    using pipe_valid [OF assms] by (auto simp: valid_def)
  then have p: "validProp v kvs (optional_prop ''email'' [IsEmail])" "validProp v kvs (optional_prop ''username'' [IsString, MinLength 3])"
    "validProp v kvs (optional_prop ''password'' [IsString, MinLength 6])"
    unfolding UpdateUserDto_def list.pred_inject by blast+
  have "CHR ''@'' \<in> set e" if "map_of kvs ''email'' = Some (BStr e)" for e
    using isEmail [OF optional_checks [OF p(1) that, of IsEmail]] by simp
  moreover have "3 \<le> length n" if "map_of kvs ''username'' = Some (BStr n)" for n
    using optional_checks [OF p(2) that, of "MinLength 3"] by (simp add: minLength)
  moreover have "6 \<le> length w" if "map_of kvs ''password'' = Some (BStr w)" for w
    using optional_checks [OF p(3) that, of "MinLength 6"] by (simp add: minLength)
  ultimately show ?thesis by (simp add: good_update_def kvs(2) updateUserDto_def strOpt_Some)
qed

end

text \<open>An account that could log in: its password has at least six characters.\<close>

definition account_shape :: "(string \<Rightarrow> string \<Rightarrow> bool) \<Rightarrow> user_row \<Rightarrow> bool" where
  "account_shape matches u \<longleftrightarrow> (\<exists>pw. good_login (u_email u) (u_username u) pw \<and> matches pw (u_password u))"

definition all_shaped :: "(string \<Rightarrow> string \<Rightarrow> bool) \<Rightarrow> (string \<rightharpoonup> user_row) \<Rightarrow> bool" where
  "all_shaped matches w \<longleftrightarrow> (\<forall>u\<in>ran w. account_shape matches u)"

lemma all_shaped_created:
  assumes "all_shaped matches w" and "user_created matches dto w u w'" and "good_login (cu_email dto) (cu_username dto) (cu_password dto)"
  shows "all_shaped matches w'"
  using assms by (auto simp: all_shaped_def account_shape_def user_created_def)

lemma written_shape:
  assumes "account_shape matches u" and "user_written matches dto u x" and "good_update dto"
  shows "account_shape matches x"
proof -
  obtain pw where pw: "good_login (u_email u) (u_username u) pw" "matches pw (u_password u)" using assms(1) by (auto simp: account_shape_def)
  obtain t h where x: "x = u\<lparr>u_email := upd_opt (uu_email dto) (u_email u), u_username := upd_opt (uu_username dto) (u_username u),
       u_password := h, u_role := upd_opt (uu_role dto) (u_role u), u_updatedAt := t\<rparr>"
    and h: "case uu_password dto of None \<Rightarrow> h = u_password u | Some pw \<Rightarrow> if pw = [] then h = [] else matches pw h"
    using assms(2) by (auto simp: user_written_def)
  let ?pw = "upd_opt (uu_password dto) pw"
  have "matches ?pw h" using h pw(2) assms(3) by (auto simp: upd_opt_def good_update_def split: option.splits if_splits)
  moreover have "good_login (u_email x) (u_username x) ?pw"
    using pw(1) assms(3) by (auto simp: x good_login_def good_update_def upd_opt_def split: option.split)
  ultimately show ?thesis by (auto simp: account_shape_def x)
qed

lemma all_shaped_written:
  "all_shaped matches w \<Longrightarrow> w uid = Some u \<Longrightarrow> user_written matches dto u x \<Longrightarrow> good_update dto \<Longrightarrow> all_shaped matches (w(uid \<mapsto> x))"
  using written_shape [of matches u dto x] by (auto simp: all_shaped_def ran_def split: if_splits)

lemma all_shaped_removed: "all_shaped matches w \<Longrightarrow> all_shaped matches (w(uid := None))"
  by (auto simp: all_shaped_def ran_def split: if_splits)

lemma withBody_wp:
  assumes "\<And>e. piped = Inl e \<Longrightarrow> E e s" and "\<And>dto. piped = Inr dto \<Longrightarrow> wp (handle dto) G E s"
  shows "wp (withBody piped handle) G E s"
  using assms by (cases piped) (simp_all add: withBody_def wp_throw)

context auth_services
begin

definition shape_inv :: "'s \<Rightarrow> bool" where
  "shape_inv s \<longleftrightarrow> Inv s \<and> all_shaped matches (W s (uloc DefaultClient))"

lemma shape_inv_same: "shape_inv s \<Longrightarrow> Inv s' \<Longrightarrow> W s' = W s \<Longrightarrow> shape_inv s'"
  by (simp add: shape_inv_def)

lemma shape_inv_guarded:
  assumes "shape_inv s" and "\<And>x s. shape_inv s \<Longrightarrow> wp (handle x) (\<lambda>_. shape_inv) (\<lambda>_. shape_inv) s"
  shows "wp (withGuards U J roles hdr handle) (\<lambda>_. shape_inv) (\<lambda>_. shape_inv) s"
proof (rule withGuards_wp)
  show "Inv s" using assms(1) by (simp add: shape_inv_def)
qed (use shape_inv_same [OF assms(1)] assms(2) in blast)+

lemma shape_inv_create:
  assumes "shape_inv s" and "good_login (cu_email dto) (cu_username dto) (cu_password dto)"
  shows "wp (userCreate U B A dto) (\<lambda>_. shape_inv) (\<lambda>_. shape_inv) s"
  by (rule wp_conseq [OF userCreate_wp]) (use assms all_shaped_created in \<open>auto simp: shape_inv_def\<close>)

lemma shape_inv_register:
  assumes "shape_inv s" and "good_login (rg_email dto) (rg_username dto) (rg_password dto)"
  shows "wp (register U B A J dto) (\<lambda>_. shape_inv) (\<lambda>_. shape_inv) s"
proof -
  have "good_login (cu_email (registerData dto)) (cu_username (registerData dto)) (cu_password (registerData dto))"
    using assms(2) by (simp add: registerData_def)
  then show ?thesis
    by (intro wp_conseq [OF register_wp]) (use assms all_shaped_created in \<open>auto simp: shape_inv_def\<close>)
qed

lemma validated_step_keeps:
  assumes "class_validator v" and "validated_step v errors U B A J s s'" and "shape_inv s"
  shows "shape_inv s'"
  using assms(2)
proof (cases rule: validated_step.cases)
  case (register b)
  show ?thesis unfolding register registerRequest_def
    by (intro wp_snd [where I = shape_inv] withBody_wp shape_inv_register class_validator.register_good [OF assms(1)] assms(3))
next
  case (login b)
  show ?thesis unfolding login loginRequest_def
    by (intro wp_snd [where I = shape_inv] withBody_wp wp_conseq [OF login_wp]) (use assms(3) in \<open>auto simp: shape_inv_def\<close>)
next
  case (create hdr b)
  show ?thesis unfolding create userCreateRequest_def
    by (intro wp_snd [where I = shape_inv] shape_inv_guarded withBody_wp shape_inv_create
        class_validator.create_good [OF assms(1)] assms(3))
next
  case (update b hdr uid)
  have "wp (userUpdate U B uid dto) (\<lambda>_. shape_inv) (\<lambda>_. shape_inv) s1" if "shape_inv s1" "good_update dto" for s1 dto
    by (rule wp_conseq [OF userUpdate_wp]) (use that all_shaped_written in \<open>auto simp: shape_inv_def\<close>)
  then show ?thesis unfolding update userUpdateRequest_def
    by (intro wp_snd [where I = shape_inv] shape_inv_guarded withBody_wp assms(3)) (use class_validator.update_good [OF assms(1)] in blast)+
next
  case (remove hdr uid)
  have "wp (userRemove U uid) (\<lambda>_. shape_inv) (\<lambda>_. shape_inv) s1" if "shape_inv s1" for s1
    by (rule wp_conseq [OF userRemove_wp]) (use that all_shaped_removed in \<open>auto simp: shape_inv_def\<close>)
  then show ?thesis unfolding remove userControllerRemove_def
    by (intro wp_snd [where I = shape_inv] shape_inv_guarded assms(3))
qed

lemma validated_steps_keep:
  assumes "class_validator v"
  shows "(validated_step v errors U B A J)\<^sup>*\<^sup>* s s' \<Longrightarrow> shape_inv s \<Longrightarrow> shape_inv s'"
  by (induction rule: rtranclp_induct) (use validated_step_keeps [OF assms] in blast)+

lemma validated_steps_shape:
  assumes "class_validator v" and "(validated_step v errors U B A J)\<^sup>*\<^sup>* s s'" and "Inv s" and "all_shaped matches (W s (uloc DefaultClient))"
  shows "all_shaped matches (W s' (uloc DefaultClient))"
  using validated_steps_keep [OF assms(1,2)] assms(3,4) by (simp add: shape_inv_def)

end

section \<open>Property\<close>


definition ex_register :: "string \<Rightarrow> (string \<times> body) list" where
  "ex_register pw = [(''email'', BStr ''c@x.io''), (''username'', BStr ''carol''), (''password'', BStr pw)]"


text \<open>The first of these requests adds the account, the second is refused.\<close>

lemma ex_register_outcomes:
  "valid ref_validate RegisterDto (ex_register ''secret4'')" "\<not> valid ref_validate RegisterDto (ex_register ''short'')"
  by code_simp+

end
