(* ===== verification/TenantRouting.thy ===== *)
theory TenantRouting
  imports ServiceTheorems ProvisioningTheorems
begin

text \<open>
  Which database a request works on: the delegating getters and methods of the request-scoped
  \<open>PrismaService\<close>, and whether the database they reach is the one that was provisioned.
\<close>

section \<open>Delegation\<close>

datatype model_delegate = UserModel | ProductModel | OrderModel | OrderItemModel

text \<open>\<open>this.prisma.user\<close> and the like: the model of the bound client.\<close>

definition prismaServiceModel ::
  "config \<Rightarrow> tenant_context \<Rightarrow> model_delegate \<Rightarrow> prisma_client option \<times> connections \<Rightarrow>
   (prisma_client \<times> model_delegate) \<times> prisma_client option \<times> connections" where
  "prismaServiceModel cfg ctx model st = (case prismaServiceClient cfg ctx st of (c, st') \<Rightarrow> ((c, model), st'))"

text \<open>\<open>$connect\<close>, \<open>$disconnect\<close>, \<open>$transaction\<close> and the raw queries: \<open>method\<close> of the bound client.\<close>

definition prismaServiceMethod ::
  "config \<Rightarrow> tenant_context \<Rightarrow> (prisma_client \<Rightarrow> 'r) \<Rightarrow> prisma_client option \<times> connections \<Rightarrow> 'r \<times> prisma_client option \<times> connections" where
  "prismaServiceMethod cfg ctx method st = (case prismaServiceClient cfg ctx st of (c, st') \<Rightarrow> (method c, st'))"

text \<open>
  The uses of the service in one request, with the tenant context at each, and the clients they
  reach. Between two uses other requests may have changed the connection map.
\<close>

datatype service_use = ReadModel model_delegate | CallMethod

fun request_uses :: "config \<Rightarrow> (tenant_context \<times> service_use \<times> connections) list \<Rightarrow> prisma_client option \<Rightarrow> prisma_client list" where
  "request_uses cfg [] bound = []"
| "request_uses cfg ((ctx, ReadModel m, cs) # us) bound =
    (case prismaServiceModel cfg ctx m (bound, cs) of ((c, _), bound', _) \<Rightarrow> c # request_uses cfg us bound')"
| "request_uses cfg ((ctx, CallMethod, cs) # us) bound =
    (case prismaServiceMethod cfg ctx (\<lambda>c. c) (bound, cs) of (c, bound', _) \<Rightarrow> c # request_uses cfg us bound')"

lemma uses_bound: "request_uses cfg us (Some c) = replicate (length us) c"
  by (induction cfg us "Some c" rule: request_uses.induct)
     (simp_all add: prismaServiceModel_def prismaServiceMethod_def prismaServiceClient_def)

lemma uses_first:
  assumes "conns_sim cfg cs" and "tc \<noteq> Some defaultKey"
  shows "request_uses cfg ((tc, u, cs) # us) None = replicate (Suc (length us)) (client_spec cfg tc)"
proof -
  obtain c cs' where c: "getClient cfg tc cs = (c, cs')" by fastforce
  then have "c = client_spec cfg tc" using sim_get [OF assms] by simp
  then show ?thesis
    using c by (cases u) (simp_all add: prismaServiceModel_def prismaServiceMethod_def prismaServiceClient_def getTenantCode_def uses_bound)
qed

section \<open>The provisioned database\<close>

lemma provisioned_url_iff: "provisionedUrl cfg tc = databaseUrl cfg tc \<longleftrightarrow> truthy (cf_DATABASE_PREFIX cfg)"
  by (auto simp: provisionedUrl_def databaseUrl_def provisionedName_def databaseName_def consumerPrefix_def databasePrefix_def
      env_or_def truthy_def split: option.split list.split)

text \<open>
  The tenant code is put into the URL as it is: what follows a question mark in it becomes parameters
  of the connection, before those of the configuration.
\<close>

lemma tenant_code_sets_parameters:
  "databaseUrl cfg (tc @ CHR ''?'' # ps) =
     baseDatabaseUrl cfg @ CHR ''/'' # databaseName cfg tc @ CHR ''?'' # toLowerCase ps @ queryParams cfg"
  by (simp add: databaseUrl_def databaseName_def toLowerCase_def)

section \<open>Property\<close>

text \<open>
  C22: All uses of the tenant client in one request, through whichever getter or method and whatever
  other requests do to the connection map in between, reach one and the same database: that of the
  tenant in the context at the first use. It is the database that the worker creates and migrates
  for this tenant if and only if \<open>DATABASE_PREFIX\<close> is configured, since the two defaults differ.
\<close>

theorem request_reaches_tenant:
  assumes "conns_sim cfg cs" and "tc \<noteq> []" and "tc \<noteq> defaultKey"
  shows "request_uses cfg ((Some tc, u, cs) # us) None = replicate (Suc (length us)) (UrlClient (databaseUrl cfg tc)) \<and>
    (UrlClient (databaseUrl cfg tc) = UrlClient (provisionedUrl cfg tc) \<longleftrightarrow> truthy (cf_DATABASE_PREFIX cfg))"
  using uses_first [OF assms(1), of "Some tc" u us] assms(2,3) provisioned_url_iff [of cfg tc]
  by (simp add: client_spec_def truthy_def eq_commute)

theorem request_reaches_tenant_witness:
  "request_uses ref_config ((Some ''acme'', ReadModel ProductModel, Map.empty) # [(None, CallMethod, Map.empty), (Some ''beta'', ReadModel OrderModel, Map.empty)]) None =
     replicate 3 (UrlClient (databaseUrl ref_config ''acme'')) \<and> UrlClient (databaseUrl ref_config ''acme'') \<noteq> UrlClient (provisionedUrl ref_config ''acme'')"
proof -
  have "conns_sim ref_config Map.empty" by (simp add: conns_sim_def conns_ok_empty)
  moreover have "''acme'' \<noteq> []" "''acme'' \<noteq> defaultKey" by (simp_all add: defaultKey_def)
  ultimately show ?thesis
    using request_reaches_tenant [of ref_config Map.empty "''acme''" "ReadModel ProductModel"
      "[(None, CallMethod, Map.empty), (Some ''beta'', ReadModel OrderModel, Map.empty)]"]
    by (simp add: ref_config_def truthy_def numeral_3_eq_3)
qed

end
