(* ===== verification/Wiring.thy ===== *)
theory Wiring
  imports Tenancy
begin

text \<open>
  How the two processes are put together: the modules of the API (\<open>AppModule\<close>) and of the worker
  (\<open>ConsumerModule\<close>), the classes they provide with the parameters of their constructors, and what
  follows for the lifetime of each instance. Modules of packages and the classes that the framework
  itself provides are known by what they export, the argument \<open>ext\<close>.
\<close>

section \<open>Classes and modules\<close>

datatype scope = DEFAULT | REQUEST

record provider =
  pr_name :: string
  pr_scope :: scope
  pr_deps :: "string list"

definition injectable :: "string \<Rightarrow> string list \<Rightarrow> provider" where
  "injectable n ds = \<lparr>pr_name = n, pr_scope = DEFAULT, pr_deps = ds\<rparr>"

definition request_scoped :: "string \<Rightarrow> string list \<Rightarrow> provider" where
  "request_scoped n ds = \<lparr>pr_name = n, pr_scope = REQUEST, pr_deps = ds\<rparr>"

text \<open>
  A module; \<open>nm_enhancers\<close> are the guards and interceptors that its controllers use, which the
  framework instantiates in the module, and \<open>nm_reexports\<close> the imported modules it exports.
\<close>

datatype nest_module =
    External (nm_name: string)
  | NestModule (nm_name: string) (nm_global: bool) (nm_imports: "nest_module list") (nm_controllers: "provider list")
      (nm_enhancers: "provider list") (nm_providers: "provider list") (nm_exports: "string list") (nm_reexports: "string list")

section \<open>The classes of the repository\<close>

definition PrismaService :: provider where
  "PrismaService = request_scoped ''PrismaService'' [''TenantContextService'', ''DatabaseManagerService'']"

definition TenantContextService :: provider where
  "TenantContextService = request_scoped ''TenantContextService'' []"

definition DatabaseManagerService :: provider where
  "DatabaseManagerService = injectable ''DatabaseManagerService'' []"

definition DefaultPrismaService :: provider where
  "DefaultPrismaService = injectable ''DefaultPrismaService'' []"

definition TenantMigrationService :: provider where
  "TenantMigrationService = injectable ''TenantMigrationService'' [''DefaultPrismaService'', ''DatabaseManagerService'']"

definition RabbitMQService :: provider where
  "RabbitMQService = injectable ''RabbitMQService'' []"

definition UserService :: provider where
  "UserService = injectable ''UserService'' [''DefaultPrismaService'', ''DatabaseManagerService'', ''RabbitMQService'']"

definition AuthService :: provider where
  "AuthService = injectable ''AuthService'' [''UserService'', ''JwtService'']"

definition JwtStrategy :: provider where
  "JwtStrategy = injectable ''JwtStrategy'' [''DefaultPrismaService'']"

definition TenantInterceptor :: provider where
  "TenantInterceptor = injectable ''TenantInterceptor'' [''TenantContextService'']"

definition CacheService :: provider where
  "CacheService = injectable ''CacheService'' [''TenantContextService'']"

definition CacheInterceptor :: provider where
  "CacheInterceptor = injectable ''CacheInterceptor'' [''Reflector'', ''CacheService'']"

definition RateLimitInterceptor :: provider where
  "RateLimitInterceptor = injectable ''RateLimitInterceptor'' [''Reflector'']"

definition ApiResponseInterceptor :: provider where
  "ApiResponseInterceptor = injectable ''ApiResponseInterceptor'' [''Reflector'']"

definition JwtAuthGuard :: provider where
  "JwtAuthGuard = injectable ''JwtAuthGuard'' []"

definition RolesGuard :: provider where
  "RolesGuard = injectable ''RolesGuard'' [''Reflector'']"

definition ProductService :: provider where
  "ProductService = injectable ''ProductService'' [''PrismaService'', ''TenantContextService'']"

definition OrderService :: provider where
  "OrderService = injectable ''OrderService'' [''PrismaService'', ''TenantContextService'', ''DatabaseManagerService'', ''RabbitMQService'']"

definition AppService :: provider where
  "AppService = injectable ''AppService'' []"

definition AppController :: provider where
  "AppController = injectable ''AppController'' [''TenantMigrationService'']"

definition UserController :: provider where
  "UserController = injectable ''UserController'' [''UserService'']"

definition AuthController :: provider where
  "AuthController = injectable ''AuthController'' [''AuthService'']"

definition ProductController :: provider where
  "ProductController = injectable ''ProductController'' [''ProductService'']"

definition OrderController :: provider where
  "OrderController = injectable ''OrderController'' [''OrderService'', ''TenantContextService'']"

definition DatabaseCreationConsumer :: provider where
  "DatabaseCreationConsumer = injectable ''DatabaseCreationConsumer'' [''RabbitMQService'', ''DefaultPrismaService'', ''DatabaseManagerService'']"

definition OrderProcessingConsumer :: provider where
  "OrderProcessingConsumer = injectable ''OrderProcessingConsumer'' [''RabbitMQService'', ''DatabaseManagerService'']"

definition OrderCompletedConsumer :: provider where
  "OrderCompletedConsumer = injectable ''OrderCompletedConsumer'' [''RabbitMQService'', ''DatabaseManagerService'']"

section \<open>The modules of the repository\<close>

definition PrismaModule :: nest_module where
  "PrismaModule = NestModule ''PrismaModule'' True [] [] []
     [PrismaService, TenantContextService, DatabaseManagerService, DefaultPrismaService, TenantMigrationService]
     [''PrismaService'', ''TenantContextService'', ''DatabaseManagerService'', ''DefaultPrismaService'', ''TenantMigrationService''] []"

definition RabbitMQModule :: nest_module where
  "RabbitMQModule = NestModule ''RabbitMQModule'' False [] [] [] [RabbitMQService] [''RabbitMQService''] []"

definition UserModule :: nest_module where
  "UserModule = NestModule ''UserModule'' False [RabbitMQModule] [UserController] [JwtAuthGuard, RolesGuard]
     [UserService] [''UserService''] []"

definition AuthModule :: nest_module where
  "AuthModule = NestModule ''AuthModule'' False [UserModule, External ''PassportModule'', External ''JwtModule'']
     [AuthController] [JwtAuthGuard] [AuthService, JwtStrategy, TenantInterceptor] [''AuthService'', ''TenantInterceptor''] []"

definition CacheModule :: nest_module where
  "CacheModule = NestModule ''CacheModule'' True [] [] [] [CacheService, CacheInterceptor] [''CacheService'', ''CacheInterceptor''] []"

definition ProductModule :: nest_module where
  "ProductModule = NestModule ''ProductModule'' False [PrismaModule, AuthModule, CacheModule] [ProductController]
     [JwtAuthGuard, RolesGuard, TenantInterceptor, CacheInterceptor, RateLimitInterceptor] [ProductService] [''ProductService''] []"

definition OrderModule :: nest_module where
  "OrderModule = NestModule ''OrderModule'' False [PrismaModule, AuthModule, RabbitMQModule] [OrderController]
     [JwtAuthGuard, RolesGuard, TenantInterceptor, CacheInterceptor] [OrderService] [''OrderService''] []"

definition CommonModule :: nest_module where
  "CommonModule = NestModule ''CommonModule'' False [CacheModule] [] [] [ApiResponseInterceptor]
     [''ApiResponseInterceptor''] [''CacheModule'']"

definition AppModule :: nest_module where
  "AppModule = NestModule ''AppModule'' False [PrismaModule, UserModule, AuthModule, ProductModule, OrderModule, CommonModule]
     [AppController] [] [AppService] [] []"

definition ConsumerModule :: nest_module where
  "ConsumerModule = NestModule ''ConsumerModule'' False [RabbitMQModule, PrismaModule] [] []
     [DatabaseCreationConsumer, OrderProcessingConsumer, OrderCompletedConsumer] [] []"

section \<open>The rules of the framework\<close>

text \<open>The modules of a process, the classes they instantiate, and what a module offers to its importers.\<close>

fun modules :: "nest_module \<Rightarrow> nest_module list" where
  "modules (External n) = []"
| "modules (NestModule n g is cs es ps xs rs) = NestModule n g is cs es ps xs rs # concat (map modules is)"

fun members :: "nest_module \<Rightarrow> provider list" where
  "members (External n) = []"
| "members (NestModule n g is cs es ps xs rs) = cs @ es @ ps"

definition classes :: "nest_module \<Rightarrow> provider list" where
  "classes app = concat (map members (modules app))"

fun exported :: "(string \<Rightarrow> string list) \<Rightarrow> nest_module \<Rightarrow> string list" where
  "exported ext (External n) = ext n"
| "exported ext (NestModule n g is cs es ps xs rs) =
    xs @ concat (map (\<lambda>i. if nm_name i \<in> set rs then exported ext i else []) is)"

text \<open>
  The names a constructor may ask for in module \<open>m\<close> of the process \<open>app\<close>: its own providers, the
  exports of what it imports, the exports of global modules, and the framework's own classes.
\<close>

fun local_names :: "(string \<Rightarrow> string list) \<Rightarrow> nest_module \<Rightarrow> string list" where
  "local_names ext (External n) = []"
| "local_names ext (NestModule n g is cs es ps xs rs) = map pr_name ps @ concat (map (exported ext) is)"

fun global_names :: "(string \<Rightarrow> string list) \<Rightarrow> nest_module \<Rightarrow> string list" where
  "global_names ext (External n) = []"
| "global_names ext (NestModule n g is cs es ps xs rs) = (if g then exported ext (NestModule n g is cs es ps xs rs) else [])"

definition available :: "(string \<Rightarrow> string list) \<Rightarrow> nest_module \<Rightarrow> nest_module \<Rightarrow> string list" where
  "available ext app m = local_names ext m @ concat (map (global_names ext) (modules app)) @ ext ''core''"

definition resolved :: "(string \<Rightarrow> string list) \<Rightarrow> nest_module \<Rightarrow> bool" where
  "resolved ext app = list_all (\<lambda>m. list_all (\<lambda>p. list_all (\<lambda>d. d \<in> set (available ext app m)) (pr_deps p)) (members m)) (modules app)"

text \<open>The modules in which a class is instantiated.\<close>

definition homes :: "nest_module \<Rightarrow> string \<Rightarrow> string list" where
  "homes app c = remdups (map nm_name (filter (\<lambda>m. c \<in> set (map pr_name (members m))) (modules app)))"

text \<open>
  A class is instantiated for every request when it is declared so or a parameter of its constructor
  is; all others are instantiated once per home.
\<close>

inductive per_request :: "provider list \<Rightarrow> string \<Rightarrow> bool" for cs where
  declared: "p \<in> set cs \<Longrightarrow> pr_scope p = REQUEST \<Longrightarrow> per_request cs (pr_name p)"
| inherited: "p \<in> set cs \<Longrightarrow> d \<in> set (pr_deps p) \<Longrightarrow> per_request cs d \<Longrightarrow> per_request cs (pr_name p)"

text \<open>More exports of the packages never hurt.\<close>

lemma exported_mono:
  "(\<And>n. set (ext0 n) \<subseteq> set (ext n)) \<Longrightarrow> set (exported ext0 m) \<subseteq> set (exported ext m)"
  by (induction m) (auto split: if_splits, blast)

lemma available_mono:
  assumes "\<And>n. set (ext0 n) \<subseteq> set (ext n)"
  shows "set (available ext0 app m) \<subseteq> set (available ext app m)"
proof -
  note e = exported_mono [of ext0 ext, OF assms]
  have "set (local_names ext0 m) \<subseteq> set (local_names ext m)" using e by (cases m) auto
  moreover have "set (global_names ext0 m') \<subseteq> set (global_names ext m')" for m'
    using e [of m'] by (cases m') (auto simp del: exported.simps)
  ultimately show ?thesis using assms [of "''core''"] by (auto simp: available_def)
qed

lemma resolved_mono:
  assumes "\<And>n. set (ext0 n) \<subseteq> set (ext n)" and "resolved ext0 app"
  shows "resolved ext app"
  using assms(2) available_mono [of ext0 ext, OF assms(1)] unfolding resolved_def list_all_iff by blast

text \<open>The secret that signs tokens and the one that checks them.\<close>

definition jwtModuleSecret :: "string option \<Rightarrow> string" where
  "jwtModuleSecret JWT_SECRET = env_or JWT_SECRET ''your-secret-key''"

definition jwtStrategySecret :: "string option \<Rightarrow> string" where
  "jwtStrategySecret JWT_SECRET = env_or JWT_SECRET ''your-secret-key''"

lemma tokens_accepted: "jwtModuleSecret v = jwtStrategySecret v"
  by (simp add: jwtModuleSecret_def jwtStrategySecret_def)

lemma secret_published: "v \<in> {None, Some []} \<Longrightarrow> jwtStrategySecret v = ''your-secret-key''"
  by (auto simp: jwtStrategySecret_def env_or_def)

section \<open>Property\<close>

text \<open>What is asked of the framework and of the token package, and no more.\<close>

definition needed :: "string \<Rightarrow> string list" where
  "needed n = (if n = ''JwtModule'' then [''JwtService''] else if n = ''core'' then [''Reflector''] else [])"

lemmas class_defs = injectable_def request_scoped_def PrismaService_def TenantContextService_def DatabaseManagerService_def
  DefaultPrismaService_def TenantMigrationService_def RabbitMQService_def UserService_def AuthService_def JwtStrategy_def
  TenantInterceptor_def CacheService_def CacheInterceptor_def RateLimitInterceptor_def ApiResponseInterceptor_def
  JwtAuthGuard_def RolesGuard_def ProductService_def OrderService_def AppService_def AppController_def UserController_def
  AuthController_def ProductController_def OrderController_def DatabaseCreationConsumer_def OrderProcessingConsumer_def
  OrderCompletedConsumer_def

lemmas module_defs = PrismaModule_def RabbitMQModule_def UserModule_def AuthModule_def CacheModule_def ProductModule_def
  OrderModule_def CommonModule_def AppModule_def ConsumerModule_def

lemma app_classes: "set (classes AppModule) = set [AppController, AppService, PrismaService, TenantContextService, DatabaseManagerService,
    DefaultPrismaService, TenantMigrationService, UserController, JwtAuthGuard, RolesGuard, UserService, RabbitMQService,
    AuthController, AuthService, JwtStrategy, TenantInterceptor, ProductController, CacheInterceptor, RateLimitInterceptor,
    ProductService, CacheService, OrderController, OrderService, ApiResponseInterceptor]"
  by (simp add: classes_def module_defs insert_commute)

lemma needed_resolved: "resolved needed AppModule" "resolved needed ConsumerModule"
  by (simp_all add: resolved_def available_def needed_def module_defs class_defs)

definition requestClasses :: "string list" where
  "requestClasses = [''TenantContextService'', ''PrismaService'', ''TenantInterceptor'', ''CacheService'', ''CacheInterceptor'',
     ''ProductService'', ''ProductController'', ''OrderService'', ''OrderController'']"

lemma scopes_closed:
  "\<forall>p\<in>set (classes AppModule). pr_scope p = REQUEST \<or> (\<exists>d\<in>set (pr_deps p). d \<in> set requestClasses) \<longrightarrow> pr_name p \<in> set requestClasses"
  unfolding app_classes requestClasses_def by (simp add: class_defs)

lemma per_request_sound: "per_request (classes AppModule) c \<Longrightarrow> c \<in> set requestClasses"
  by (induction rule: per_request.induct) (use scopes_closed in blast)+

lemma per_request_step:
  "p \<in> set (classes AppModule) \<Longrightarrow> pr_scope p = REQUEST \<or> (\<exists>d\<in>set (pr_deps p). per_request (classes AppModule) d) \<Longrightarrow>
   per_request (classes AppModule) (pr_name p)"
  by (auto intro: per_request.intros)

lemma per_request_classes: "c \<in> set requestClasses \<Longrightarrow> per_request (classes AppModule) c"
proof -
  note step = per_request_step [unfolded app_classes]
  have a: "per_request (classes AppModule) ''TenantContextService''"
    using step [of TenantContextService] by (simp add: class_defs)
  have b: "per_request (classes AppModule) ''PrismaService''" "per_request (classes AppModule) ''CacheService''"
    "per_request (classes AppModule) ''TenantInterceptor''" "per_request (classes AppModule) ''OrderController''"
    "per_request (classes AppModule) ''ProductService''" "per_request (classes AppModule) ''OrderService''"
    using step [of PrismaService] step [of CacheService] step [of TenantInterceptor] step [of OrderController]
      step [of ProductService] step [of OrderService] a by (simp_all add: class_defs)
  have "per_request (classes AppModule) ''CacheInterceptor''" "per_request (classes AppModule) ''ProductController''"
    using step [of CacheInterceptor] step [of ProductController] b by (simp_all add: class_defs)
  then show "c \<in> set requestClasses \<Longrightarrow> per_request (classes AppModule) c" using a b by (auto simp: requestClasses_def)
qed



end
