(* ===== verification/Processes.thy ===== *)
theory Processes
  imports ServiceTheorems Http Provisioning
begin

text \<open>
  Start and stop of the two processes: \<open>src/main.ts\<close>, \<open>src/consumer/main.ts\<close>, and
  the end of the broker connection; and the copies of two helper methods in
  \<open>DatabaseManagerService\<close> and \<open>DatabaseCreationConsumer\<close>.
\<close>

section \<open>Start\<close>

text \<open>\<open>NestFactory\<close> on a root module, \<open>app.listen\<close>, \<open>app.close\<close> and \<open>process.exit\<close>.\<close>

record 's nest_api =
  nest_create :: "string \<Rightarrow> ('s, unit) call"
  nest_listen :: "string \<Rightarrow> ('s, unit) call"
  nest_close :: "('s, unit) call"
  nest_exit :: "nat \<Rightarrow> 's \<Rightarrow> 's"

text \<open>\<open>process.env.PORT ?? 3000\<close>.\<close>

definition listenPort :: "string option \<Rightarrow> string" where
  "listenPort PORT = (case PORT of None \<Rightarrow> ''3000'' | Some p \<Rightarrow> p)"

definition exitWith :: "'s nest_api \<Rightarrow> nat \<Rightarrow> ('s, unit) handler" where
  "exitWith N code = sync (\<lambda>s. ((), nest_exit N code s))"

definition bootstrap :: "'s nest_api \<Rightarrow> string option \<Rightarrow> ('s, unit) handler" where
  "bootstrap N PORT = tryCatch
    (bindE (await_call (nest_create N ''AppModule'')) (\<lambda>_. await_call (nest_listen N (listenPort PORT))))
    (\<lambda>_. exitWith N 1)"

definition consumerBootstrap :: "'s nest_api \<Rightarrow> ('s, unit) handler" where
  "consumerBootstrap N = tryCatch (await_call (nest_create N ''ConsumerModule'')) (\<lambda>_. exitWith N 1)"

definition onSigint :: "'s nest_api \<Rightarrow> ('s, unit) handler" where
  "onSigint N = bindE (await_call (nest_close N)) (\<lambda>_. exitWith N 0)"

text \<open>A start that fails at any point ends the process with code 1, and only such a start does.\<close>

lemma bootstrap_outcome:
  "run (bootstrap N PORT) s =
    (Inr (), case nest_create N ''AppModule'' s of
        (Inl _, s1) \<Rightarrow> nest_exit N 1 s1
      | (Inr _, s1) \<Rightarrow> (case nest_listen N (listenPort PORT) s1 of (Inl _, s2) \<Rightarrow> nest_exit N 1 s2 | (Inr _, s2) \<Rightarrow> s2))"
  by (auto simp: bootstrap_def exitWith_def async_simps split: prod.split sum.split)

section \<open>Stop\<close>

record 's amqp_closing =
  channel_close :: "('s, unit) call"
  connection_close :: "('s, unit) call"

text \<open>\<open>RabbitMQService.onModuleDestroy\<close>.\<close>

definition onModuleDestroy :: "'s amqp_api \<Rightarrow> 's amqp_closing \<Rightarrow> ('s, unit) handler" where
  "onModuleDestroy A K = tryCatch
    (bindE (sync (\<lambda>s. (rq_channel (rmq_get A s), s))) (\<lambda>channel.
     bindE (if channel then await_call (channel_close K) else ret ()) (\<lambda>_.
     bindE (sync (\<lambda>s. (rq_connection (rmq_get A s), s))) (\<lambda>connection.
     if connection then await_call (connection_close K) else ret ()))))
    (\<lambda>_. ret ())"

text \<open>
  It never throws. Since it does not reset the two fields, a publisher that runs afterwards still
  takes the closed channel for an open one and does not reconnect.
\<close>

lemma onModuleDestroy_returns: "fst (run (onModuleDestroy A K) s) = Inr ()"
  by (simp add: onModuleDestroy_def run_tryCatch run_ret split: prod.split sum.split)

lemma closed_channel_reused:
  assumes "\<And>s. rmq_get A (snd (channel_close K s)) = rmq_get A s" and "\<And>s. rmq_get A (snd (connection_close K s)) = rmq_get A s"
    and "rq_channel (rmq_get A s)" and "snd (run (onModuleDestroy A K) s) = s'"
  shows "run (waitForConnection A) s' = (Inr (), s')"
proof -
  have kept: "wp (await_call (channel_close K)) (\<lambda>_ s2. rmq_get A s2 = rmq_get A s1) (\<lambda>_ s2. rmq_get A s2 = rmq_get A s1) s1"
    "wp (await_call (connection_close K)) (\<lambda>_ s2. rmq_get A s2 = rmq_get A s1) (\<lambda>_ s2. rmq_get A s2 = rmq_get A s1) s1" for s1
    using assms(1,2) by (simp_all add: wp_await_call split: sum.split)
  have "wp (onModuleDestroy A K) (\<lambda>_ s2. rmq_get A s2 = rmq_get A s) (\<lambda>_ s2. rmq_get A s2 = rmq_get A s) s"
    unfolding onModuleDestroy_def wp_simps
    by (auto intro!: wp_conseq [OF kept(1)] wp_conseq [OF kept(2)])
  then have "rmq_get A s' = rmq_get A s" using assms(4) by (auto simp: wp_def split: prod.splits sum.splits)
  then show ?thesis
    using waitLoop_channel [of A s' 9] assms(3) by (simp add: waitForConnection_def eval_nat_numeral del: waitLoop.simps)
qed

section \<open>Copied helpers\<close>

definition managerMaskDatabaseUrl :: "'u url_api \<Rightarrow> string \<Rightarrow> string" where
  "managerMaskDatabaseUrl N url =
    (case url_new N url of
       Some u \<Rightarrow> let u' = (if url_getPassword N u \<noteq> [] then url_setPassword N ''***'' u else u) in url_toString N u'
     | None \<Rightarrow> replaceCredentials url)"

definition consumerExtractBaseUrl :: "config \<Rightarrow> string \<Rightarrow> string" where
  "consumerExtractBaseUrl cfg dbUrl =
    (case cf_parseUrl cfg dbUrl of
       Some u \<Rightarrow> url_protocol u @ ''//'' @ url_username u @
         (if url_password u \<noteq> [] then CHR '':'' # url_password u else []) @ CHR ''@'' # url_host u
     | None \<Rightarrow> (case baseUrlMatch dbUrl of Some b \<Rightarrow> b | None \<Rightarrow> dbUrl))"

lemma copies_agree: "managerMaskDatabaseUrl N = maskDatabaseUrl N" "consumerExtractBaseUrl cfg = extractBaseUrl cfg"
  by (auto simp: fun_eq_iff managerMaskDatabaseUrl_def maskDatabaseUrl_def consumerExtractBaseUrl_def extractBaseUrl_def Let_def split: option.split)

end
