(* ===== verification/Spec2Isabelle.thy ===== *)
theory Spec2Isabelle
  imports ProductTheorems RateLimit Cache AuthTheorems ProvisioningTheorems ServiceTheorems HttpTheorems WebTheorems OrderRoutes
    TypeTheorems SeedTheorems MigrationTheorems Termination OrderLifecycle Overselling ValidatedAccounts TenantRouting Wiring Processes
begin

text \<open>
  \<^bold>\<open>The multi-tenant order API: what is modelled and what is proved.\<close>

  \<^bold>\<open>The program.\<close> A NestJS service (\<open>src/src\<close>) with one PostgreSQL database per tenant and a default
  database for accounts. HTTP requests pass the guards and the interceptors (tenant, cache, rate
  limit) and reach the controllers of accounts, products and orders. Orders are created and paid by
  requests; their processing and completion, and the creation of tenant databases, are messages on
  RabbitMQ queues that a worker consumes. Redis caches responses.

  \<^bold>\<open>How it is modelled.\<close> An \<open>async\<close> method is a program of type \<open>('s, 'a) handler\<close> (theory \<open>Async\<close>): a
  sequence of atomic sections, one per \<open>await\<close>, over a world \<open>'s\<close>, that returns or throws an \<open>exn\<close>
  (theory \<open>Prelude\<close>). \<open>run\<close> executes a handler alone, \<open>cstep\<close> interleaves any number of them at
  their \<open>await\<close>s, \<open>wp\<close> is the weakest precondition. All loops are structural recursion over the lists
  they traverse; the retry loop of the broker counts its ten rounds down. So every handler ends and
  no fuel is needed; \<open>Termination\<close> counts the sections of a request under interference. Code outside the repository is a parameter: the Prisma client
  (\<open>prisma_api\<close>, \<open>user_api\<close>, \<open>sql_api\<close>), \<open>amqplib\<close> (\<open>amqp_api\<close>), ioredis (\<open>redis_api\<close>), \<open>bcrypt\<close>,
  the token library, the file system, \<open>randomUUID\<close>, the URL parser, the decimal library's \<open>toJSON\<close>
  and the clock, logger and response of the HTTP process (\<open>web_env\<close>). What the code relies on is a
  locale: \<open>prisma_store\<close>, \<open>broker_store\<close>, \<open>order_services\<close>, \<open>order_listing\<close>, \<open>cache_store\<close>,
  \<open>user_store\<close>, \<open>user_services\<close>, \<open>auth_services\<close>, \<open>sql_log\<close>, \<open>migration_services\<close>, \<open>seed_services\<close>,
  \<open>broker_up\<close>, \<open>class_validator\<close>, and \<open>web_services\<close>, which puts the stores together. Every locale is
  interpreted on an executable reference world (\<open>Reference\<close>, \<open>AuthReference\<close>, \<open>WebReference\<close>, \<open>ref_redis\<close>,
  \<open>ProvisioningTheorems\<close>, \<open>ServiceTheorems\<close>), and every property with hypotheses is applied to an
  execution there. A query may reject at any point in every locale, so failure paths are covered;
  only \<open>broker_up\<close> assumes that calls resolve.

  \<^bold>\<open>Numbers and strings.\<close> \<open>JsNumber\<close> has JavaScript numbers with exact round-to-even binary64
  arithmetic, \<open>JsString\<close> the string methods used (ASCII case mapping and white space), \<open>JsJson\<close>
  \<open>JSON.stringify\<close> and \<open>JSON.parse\<close> with their round trip (integers, strings, booleans, null, arrays,
  objects). \<open>Decimal(10,2)\<close> columns are rationals rounded to cents, \<open>Int\<close> columns are integers; the
  checksum of \<open>Sql\<close> works on 32-bit words.

  \<^bold>\<open>Components, theories and sources.\<close>

  \<^item> \<open>Schema\<close>: the models of \<open>prisma/schema.prisma\<close> and the contract of the client (\<open>query_ok\<close>,
    \<open>write_ok\<close>: a rejected call changes nothing, a resolved one makes exactly the described change).
  \<^item> \<open>Tenancy\<close>: \<open>tenant-context.service.ts\<close>, \<open>tenant.interceptor.ts\<close>, \<open>tenant-code.decorator.ts\<close>,
    \<open>database-manager.service.ts\<close>, the client of \<open>prisma.service.ts\<close>. \<open>ServiceTheorems\<close> shows that the
    map of connections refines a stateless specification.
  \<^item> \<open>Broker\<close>: \<open>rabbitmq.service.ts\<close> with its ten retries. A publisher that returns has appended its
    message exactly once, one that throws has appended nothing; \<open>ServiceTheorems\<close> shows when it
    returns.
  \<^item> \<open>Orders\<close>, \<open>Consumers\<close>: \<open>order.service.ts\<close>, \<open>order.controller.ts\<close>, \<open>order-processing.consumer.ts\<close>,
    \<open>order-completed.consumer.ts\<close>. \<open>OrderFacts\<close> has one weakest precondition per operation,
    \<open>OrderTotals\<close> the exactness of totals computed in floating point, \<open>OrderSystem\<close> the composed
    requests, \<open>OrderListing\<close> the listing over all tenants, \<open>OrderInterleaving\<close> the guarantee that
    every atomic section keeps and hence every interleaving, \<open>OrderTheorems\<close> the properties.
  \<^item> \<open>Pagination\<close>: the page arithmetic of both listings.
  \<^item> \<open>Products\<close>, \<open>ProductTheorems\<close>: \<open>product.service.ts\<close>, \<open>product.controller.ts\<close>.
  \<^item> \<open>RateLimit\<close>: \<open>rate-limit.interceptor.ts\<close>; at most twice the limit in any window.
  \<^item> \<open>Cache\<close>: \<open>cache.service.ts\<close>, \<open>cache.interceptor.ts\<close>; what may be served, what is invalidated and
    what is missed.
  \<^item> \<open>Users\<close>, \<open>Auth\<close>, \<open>AuthTheorems\<close>: \<open>user.service.ts\<close>, \<open>user.controller.ts\<close>, \<open>auth.service.ts\<close>,
    \<open>jwt.strategy.ts\<close>, \<open>roles.guard.ts\<close>; accounts over time are the step relation \<open>account_step\<close>.
  \<^item> \<open>Sql\<close>, \<open>Provisioning\<close>, \<open>ProvisioningTheorems\<close>: \<open>database-creation.consumer.ts\<close> and
    \<open>tenant-migration.service.ts\<close>; provisioning refines the inductive procedure \<open>migrated\<close>.
    \<open>MigrationTheorems\<close> shows that the report of \<open>migrateAllTenants\<close> refines \<open>reports\<close>.
  \<^item> \<open>Http\<close>, \<open>HttpTheorems\<close>: \<open>logging.interceptor.ts\<close>, \<open>api-response.interceptor.ts\<close>, the rate limiter in
    the process and the masked URLs of \<open>prisma.service.ts\<close>; what the log may contain.
  \<^item> \<open>Routes\<close>: every method of the five controllers as an endpoint, from the bearer token through guards,
    interceptors and parameters to the JSON that is sent. \<open>WebServices\<close> has the judgement \<open>spec\<close> on the
    five parts of the world (tables, queues, accounts, cache, counters) with one rule per piece of an
    endpoint, \<open>WebTheorems\<close> and \<open>OrderRoutes\<close> the properties of product and order requests.
  \<^item> \<open>ResponseTypes\<close>, \<open>TypeTheorems\<close>: the response classes as types of JSON values, and which answers
    have them.
  \<^item> \<open>Seed\<close>, \<open>SeedTheorems\<close>: \<open>prisma/seed.ts\<close>.
  \<^item> \<open>Termination\<close>: a bound on the awaited calls of the request that creates an order.
  \<^item> \<open>Validation\<close>: the decorated request classes and the global pipe of \<open>main.ts\<close>; what a validated
    body of an order guarantees of the order made from it. \<open>ValidatedAccounts\<close>: the account endpoints
    from the raw body on, and the shape of every stored account.
  \<^item> \<open>OrderLifecycle\<close>: one order through requests and deliveries of both processes, from creation to
    completion, with the messages as texts on the queues. \<open>Overselling\<close>: several payments together.
  \<^item> \<open>TenantRouting\<close>: the delegating members of \<open>PrismaService\<close> and the database a request reaches.
  \<^item> \<open>Wiring\<close>: the modules of both processes and the constructors of their classes: what is resolved,
    what lives once per process and what once per request. \<open>Processes\<close>: start, stop and exit codes.

  \<^bold>\<open>Bounds.\<close> Pagination is exact while the number of rows plus 100 is at most \<open>2 ^ 53\<close>, the range of exact
  integers of a JavaScript number. Totals are exact for at most 100000 lines whose sum fits
  \<open>Decimal(10,2)\<close>: the accumulated rounding error then stays below half a cent.

  \<^bold>\<open>Behaviour that looks unintended\<close> and is proved as such: orders are completed without payment and
  reset by redelivered messages; stock is taken outside a transaction
  and without a bound; a half-open broker connection
  is never repaired; a query argument selects another user's cache entry; invalidations miss
  listings; a conflict during migration leaves an account marked ready whose database was dropped;
  tenant codes that differ in case share a database; a role change separates role and tenant; the limit
  on orders is never counted and cached products are served without limit; administrators write the
  catalogue of any tenant; the seeded administrator has no tenant; prices are sent as strings; every request opens a Redis
  connection; a tenant code can carry connection parameters; a default token secret is in the source.

  \<^bold>\<open>Not modelled.\<close> The endpoints take what the validation pipe makes of a body as argument, and the
  pipe is stated for bodies that are objects; Swagger metadata, the options of the Redis connection and
  the stack traces of the log are left out. JSON numbers are integers: decimals are sent as strings. \<open>Promise.all\<close> of the
  product listing is run in order: both queries only read. Interceptor work after an answer was
  emitted (\<open>tap\<close> of the cache) is the program that the endpoint returns beside the answer.
\<close>

end
